theory Spec2Isabelle
  imports Main "HOL-Library.Word" "HOL-Library.Sublist"
begin

unbundle bit_operations_syntax

section \<open>Realtek RTD2142 MST hub: register-level firmware update\<close>

text \<open>
  A shallow embedding of \<^verbatim>\<open>plugins/realtek-mst/fu-realtek-mst-device.c\<close> (the
  register-level variant of the file, the one that defines \<^verbatim>\<open>mst_poll_register\<close> and
  \<^verbatim>\<open>flash_iface_*\<close>). The device talks to the chip over an I2C bus; everything the
  code does on the bus, every sleep, and every call back into the host is appended to a
  trace, and everything the bus answers comes from an environment that is a parameter of
  every function.
\<close>

type_synonym u8 = "8 word"
type_synonym u32 = "32 word"

subsection \<open>Constants of the source\<close>

abbreviation (input) REG_CMD_ATTR :: u8 where "REG_CMD_ATTR \<equiv> 0x60"
abbreviation (input) CMD_ERASE_BUSY :: u8 where "CMD_ERASE_BUSY \<equiv> 0x01"
abbreviation (input) REG_ERASE_OPCODE :: u8 where "REG_ERASE_OPCODE \<equiv> 0x61"
abbreviation (input) CMD_OPCODE_ERASE_SECTOR :: u8 where "CMD_OPCODE_ERASE_SECTOR \<equiv> 0x20"
abbreviation (input) CMD_OPCODE_ERASE_BLOCK :: u8 where "CMD_OPCODE_ERASE_BLOCK \<equiv> 0xD8"
abbreviation (input) REG_CMD_ADDR_HI :: u8 where "REG_CMD_ADDR_HI \<equiv> 0x64"
abbreviation (input) REG_CMD_ADDR_MID :: u8 where "REG_CMD_ADDR_MID \<equiv> 0x65"
abbreviation (input) REG_CMD_ADDR_LO :: u8 where "REG_CMD_ADDR_LO \<equiv> 0x66"
abbreviation (input) REG_READ_OPCODE :: u8 where "REG_READ_OPCODE \<equiv> 0x6A"
abbreviation (input) CMD_OPCODE_READ :: u8 where "CMD_OPCODE_READ \<equiv> 0x03"
abbreviation (input) REG_WRITE_OPCODE :: u8 where "REG_WRITE_OPCODE \<equiv> 0x6D"
abbreviation (input) CMD_OPCODE_WRITE :: u8 where "CMD_OPCODE_WRITE \<equiv> 0x02"
abbreviation (input) REG_MCU_MODE :: u8 where "REG_MCU_MODE \<equiv> 0x6F"
abbreviation (input) MCU_MODE_ISP :: u8 where "MCU_MODE_ISP \<equiv> 0x80"
abbreviation (input) MCU_MODE_WRITE_BUSY :: u8 where "MCU_MODE_WRITE_BUSY \<equiv> 0x20"
abbreviation (input) MCU_MODE_WRITE_BUF :: u8 where "MCU_MODE_WRITE_BUF \<equiv> 0x10"
abbreviation (input) REG_WRITE_FIFO :: u8 where "REG_WRITE_FIFO \<equiv> 0x70"
abbreviation (input) REG_WRITE_LEN :: u8 where "REG_WRITE_LEN \<equiv> 0x71"
abbreviation (input) REG_INDIRECT_LO :: u8 where "REG_INDIRECT_LO \<equiv> 0xF4"
abbreviation (input) REG_INDIRECT_HI :: u8 where "REG_INDIRECT_HI \<equiv> 0xF5"
abbreviation (input) REG_GPIO88_CONFIG :: "16 word" where "REG_GPIO88_CONFIG \<equiv> 0x104F"
abbreviation (input) REG_GPIO88_VALUE :: "16 word" where "REG_GPIO88_VALUE \<equiv> 0xFE3F"

text \<open>\<^verbatim>\<open>enum dual_bank_mode\<close> and \<^verbatim>\<open>enum flash_bank\<close>: C enumerations are integers, and
  the code stores raw response bytes in them before it range-checks them.\<close>

abbreviation (input) DUAL_BANK_USER_ONLY :: nat where "DUAL_BANK_USER_ONLY \<equiv> 0"
abbreviation (input) DUAL_BANK_DIFF :: nat where "DUAL_BANK_DIFF \<equiv> 1"
abbreviation (input) DUAL_BANK_COPY :: nat where "DUAL_BANK_COPY \<equiv> 2"
abbreviation (input) DUAL_BANK_USER_ONLY_FLAG :: nat where "DUAL_BANK_USER_ONLY_FLAG \<equiv> 3"
abbreviation (input) DUAL_BANK_MAX_VALUE :: nat where "DUAL_BANK_MAX_VALUE \<equiv> 3"

abbreviation (input) FLASH_BANK_BOOT :: nat where "FLASH_BANK_BOOT \<equiv> 0"
abbreviation (input) FLASH_BANK_USER1 :: nat where "FLASH_BANK_USER1 \<equiv> 1"
abbreviation (input) FLASH_BANK_USER2 :: nat where "FLASH_BANK_USER2 \<equiv> 2"
abbreviation (input) FLASH_BANK_MAX_VALUE :: nat where "FLASH_BANK_MAX_VALUE \<equiv> 2"
abbreviation (input) FLASH_BANK_INVALID :: nat where "FLASH_BANK_INVALID \<equiv> 255"

abbreviation (input) FLASH_SIZE :: nat where "FLASH_SIZE \<equiv> 0x100000"
abbreviation (input) FLASH_USER1_ADDR :: u32 where "FLASH_USER1_ADDR \<equiv> 0x10000"
abbreviation (input) FLASH_FLAG1_ADDR :: u32 where "FLASH_FLAG1_ADDR \<equiv> 0xfe304"
abbreviation (input) FLASH_USER2_ADDR :: u32 where "FLASH_USER2_ADDR \<equiv> 0x80000"
abbreviation (input) FLASH_FLAG2_ADDR :: u32 where "FLASH_FLAG2_ADDR \<equiv> 0xff304"
abbreviation (input) FLASH_USER_SIZE :: nat where "FLASH_USER_SIZE \<equiv> 0x70000"
abbreviation (input) SECTOR_SIZE :: u32 where "SECTOR_SIZE \<equiv> 4096"
abbreviation (input) BLOCK_SIZE :: u32 where "BLOCK_SIZE \<equiv> 65536"

abbreviation (input) G_TIME_SPAN_MILLISECOND :: nat where "G_TIME_SPAN_MILLISECOND \<equiv> 1000"
abbreviation (input) G_TIME_SPAN_SECOND :: nat where "G_TIME_SPAN_SECOND \<equiv> 1000000"

subsection \<open>The device, the trace and the environment\<close>

datatype fwupd_status =
    FWUPD_STATUS_IDLE
  | FWUPD_STATUS_DEVICE_RESTART
  | FWUPD_STATUS_DEVICE_WRITE
  | FWUPD_STATUS_DEVICE_VERIFY
  | FWUPD_STATUS_DEVICE_ERASE
  | FWUPD_STATUS_DEVICE_READ

datatype device_flag =
    FWUPD_DEVICE_FLAG_UPDATABLE
  | FWUPD_DEVICE_FLAG_INTERNAL
  | FWUPD_DEVICE_FLAG_DUAL_IMAGE
  | FWUPD_DEVICE_FLAG_CAN_VERIFY_IMAGE
  | FWUPD_DEVICE_FLAG_IS_BOOTLOADER
  | FWUPD_DEVICE_FLAG_NEEDS_SHUTDOWN

text \<open>The \<^verbatim>\<open>g_debug\<close> lines of the four flash operations, with the numbers they print:
  each flash operation announces itself once, after its argument checks.\<close>

datatype flash_op =
    OpRead u32 nat
  | OpEraseSector u32
  | OpEraseBlock u32
  | OpWrite u32 nat

text \<open>What the code does to the outside world. \<open>Pwrite bs\<close> is one I2C write transaction
  (\<^verbatim>\<open>fu_udev_device_pwrite\<close>, \<^verbatim>\<open>fu_udev_device_pwrite_full\<close> at port 0), \<open>Pread n\<close> one read
  transaction of \<open>n\<close> bytes, \<open>Usleep us\<close> a \<^verbatim>\<open>g_usleep\<close>; the others are calls into the
  host (\<^verbatim>\<open>fu_device_set_status\<close>, \<^verbatim>\<open>fu_device_set_progress_full\<close>, \<^verbatim>\<open>g_debug\<close>).\<close>

datatype action =
    Pwrite "u8 list"
  | Pread nat
  | Usleep nat
  | SetStatus fwupd_status
  | SetProgress nat nat
  | Debug flash_op

text \<open>A bus transaction is answered with an errno (\<open>Inl\<close>) or with the bytes read (\<open>Inr\<close>,
  empty for a write). A trace entry is the monotonic time at which the action started
  (in nanoseconds), the action, and the answer.\<close>

type_synonym reply = "nat + u8 list"
type_synonym entry = "nat \<times> action \<times> reply"

text \<open>The environment decides, from everything that happened so far, what the bus answers
  and how much longer than asked an action takes.\<close>

record environment =
  respond :: "entry list \<Rightarrow> action \<Rightarrow> reply"
  lag :: "entry list \<Rightarrow> action \<Rightarrow> nat"

text \<open>\<^verbatim>\<open>struct _FuRealtekMstDevice\<close> with the parts of its \<^verbatim>\<open>FuDevice\<close> parent that the
  code reads or writes, the trace, and \<^verbatim>\<open>CLOCK_MONOTONIC\<close> in nanoseconds.\<close>

record device =
  trace :: "entry list"
  clock :: nat
  active_bank :: nat
  flags :: "device_flag set"
  version :: "string option"

record timespec =
  tv_sec :: nat
  tv_nsec :: nat

text \<open>\<^verbatim>\<open>GError\<close>: the domain and code, and the values the message is formatted from.
  \<open>ReturnIfFail\<close> is a failed \<^verbatim>\<open>g_return_val_if_fail\<close>: the function returns \<^verbatim>\<open>FALSE\<close>
  and sets no error.\<close>

datatype error =
    Io nat
  | ShortRead nat nat
  | TimedOut u8 u8 nat u8 u8
  | WriteTimedOut u32 error
  | FwupdWrite string
  | FwupdNeedsUserAction string
  | FwupdNotSupported string
  | ReturnIfFail

type_synonym 'a result = "(error + 'a) \<times> device"

definition andthen :: "(device \<Rightarrow> 'a result) \<Rightarrow> ('a \<Rightarrow> device \<Rightarrow> 'b result) \<Rightarrow> device \<Rightarrow> 'b result" where
  "andthen m k w = (case m w of (Inl e, w') \<Rightarrow> (Inl e, w') | (Inr x, w') \<Rightarrow> k x w')"

text \<open>A call that cannot fail, as a step of a sequence.\<close>

definition exec :: "(device \<Rightarrow> device) \<Rightarrow> device \<Rightarrow> unit result" where
  "exec f w = (Inr (), f w)"

text \<open>A call whose result the code throws away (its \<^verbatim>\<open>GError **\<close> is \<^verbatim>\<open>NULL\<close> and its
  return value is not looked at).\<close>

definition ignoring :: "(device \<Rightarrow> 'a result) \<Rightarrow> device \<Rightarrow> unit result" where
  "ignoring m w = (Inr (), snd (m w))"

definition g_return_val_if_fail :: "bool \<Rightarrow> device \<Rightarrow> unit result" where
  "g_return_val_if_fail cond w = (if cond then (Inr (), w) else (Inl ReturnIfFail, w))"

definition perform :: "environment \<Rightarrow> action \<Rightarrow> device \<Rightarrow> reply \<times> device" where
  "perform env a w =
     (let r = respond env (trace w) a;
          dt = lag env (trace w) a + (case a of Usleep us \<Rightarrow> us * 1000 | _ \<Rightarrow> 0)
      in (r, w\<lparr>trace := trace w @ [(clock w, a, r)], clock := clock w + dt\<rparr>))"

text \<open>A call into the host: it is recorded, it has no answer.\<close>

definition host :: "action \<Rightarrow> device \<Rightarrow> device" where
  "host a w = w\<lparr>trace := trace w @ [(clock w, a, Inr [])]\<rparr>"

definition fu_device_set_status :: "fwupd_status \<Rightarrow> device \<Rightarrow> device" where
  "fu_device_set_status s w = host (SetStatus s) w"

definition fu_device_set_progress_full :: "nat \<Rightarrow> nat \<Rightarrow> device \<Rightarrow> device" where
  "fu_device_set_progress_full n_done n_total w = host (SetProgress n_done n_total) w"

definition g_debug :: "flash_op \<Rightarrow> device \<Rightarrow> device" where
  "g_debug m w = host (Debug m) w"

definition fu_device_add_flag :: "device_flag \<Rightarrow> device \<Rightarrow> device" where
  "fu_device_add_flag f w = w\<lparr>flags := insert f (flags w)\<rparr>"

definition fu_device_remove_flag :: "device_flag \<Rightarrow> device \<Rightarrow> device" where
  "fu_device_remove_flag f w = w\<lparr>flags := flags w - {f}\<rparr>"

definition fu_device_set_version :: "string option \<Rightarrow> device \<Rightarrow> device" where
  "fu_device_set_version v w = w\<lparr>version := v\<rparr>"

definition g_usleep :: "environment \<Rightarrow> nat \<Rightarrow> device \<Rightarrow> device" where
  "g_usleep env us w = snd (perform env (Usleep us) w)"

definition clock_gettime :: "device \<Rightarrow> timespec" where
  "clock_gettime w = \<lparr>tv_sec = clock w div 1000000000, tv_nsec = clock w mod 1000000000\<rparr>"

text \<open>Modelled from the spec: \<^verbatim>\<open>fu_udev_device_pwrite_full\<close> and
  \<^verbatim>\<open>fu_udev_device_pread_full\<close> of \<^verbatim>\<open>libfwupdplugin/fu-udev-device.c\<close>, which is not among
  the sources. Section 4.1: blocking transactions at offset 0 of the bus descriptor, whose
  errors surface the underlying OS error code. A read that does not deliver the bytes asked
  for is a failed read.\<close>

definition fu_udev_device_pwrite_full :: "environment \<Rightarrow> u8 list \<Rightarrow> device \<Rightarrow> unit result" where
  "fu_udev_device_pwrite_full env bytes w =
     (case perform env (Pwrite bytes) w of
        (Inl errno, w') \<Rightarrow> (Inl (Io errno), w')
      | (Inr _, w') \<Rightarrow> (Inr (), w'))"

definition fu_udev_device_pwrite :: "environment \<Rightarrow> u8 \<Rightarrow> device \<Rightarrow> unit result" where
  "fu_udev_device_pwrite env byte w = fu_udev_device_pwrite_full env [byte] w"

definition fu_udev_device_pread_full :: "environment \<Rightarrow> nat \<Rightarrow> device \<Rightarrow> (u8 list) result" where
  "fu_udev_device_pread_full env n w =
     (case perform env (Pread n) w of
        (Inl errno, w') \<Rightarrow> (Inl (Io errno), w')
      | (Inr bs, w') \<Rightarrow>
          if length bs = n then (Inr bs, w') else (Inl (ShortRead n (length bs)), w'))"

definition fu_udev_device_pread :: "environment \<Rightarrow> device \<Rightarrow> u8 result" where
  "fu_udev_device_pread env w =
     (case fu_udev_device_pread_full env 1 w of
        (Inl e, w') \<Rightarrow> (Inl e, w')
      | (Inr bs, w') \<Rightarrow> (Inr (hd bs), w'))"

subsection \<open>Register I/O\<close>

definition mst_write_register :: "environment \<Rightarrow> u8 \<Rightarrow> u8 \<Rightarrow> device \<Rightarrow> unit result" where
  "mst_write_register env address val w = fu_udev_device_pwrite_full env [address, val] w"

definition mst_write_register_multi :: "environment \<Rightarrow> u8 \<Rightarrow> u8 list \<Rightarrow> nat \<Rightarrow> device \<Rightarrow> unit result" where
  "mst_write_register_multi env address data count w =
     fu_udev_device_pwrite_full env (address # take count data) w"

definition mst_read_register :: "environment \<Rightarrow> u8 \<Rightarrow> device \<Rightarrow> u8 result" where
  "mst_read_register env address w =
     andthen (fu_udev_device_pwrite env address) (\<lambda>_. fu_udev_device_pread env) w"

definition mst_set_indirect_address :: "environment \<Rightarrow> 16 word \<Rightarrow> device \<Rightarrow> unit result" where
  "mst_set_indirect_address env address w =
     andthen (mst_write_register env REG_INDIRECT_LO 0x9F) (\<lambda>_.
     andthen (mst_write_register env REG_INDIRECT_HI (ucast (drop_bit 8 address))) (\<lambda>_.
     mst_write_register env REG_INDIRECT_LO (ucast address))) w"

definition mst_read_register_indirect :: "environment \<Rightarrow> 16 word \<Rightarrow> device \<Rightarrow> u8 result" where
  "mst_read_register_indirect env address w =
     andthen (mst_set_indirect_address env address) (\<lambda>_.
     mst_read_register env REG_INDIRECT_HI) w"

definition mst_write_register_indirect :: "environment \<Rightarrow> 16 word \<Rightarrow> u8 \<Rightarrow> device \<Rightarrow> unit result" where
  "mst_write_register_indirect env address val w =
     andthen (mst_set_indirect_address env address) (\<lambda>_.
     mst_write_register env REG_INDIRECT_HI val) w"

text \<open>The comparison of the loop condition of \<^verbatim>\<open>mst_poll_register\<close>:
  \<^verbatim>\<open>now.tv_sec < deadline.tv_sec || (now.tv_sec == deadline.tv_sec && now.tv_nsec <= deadline.tv_nsec)\<close>.\<close>

definition not_after :: "timespec \<Rightarrow> timespec \<Rightarrow> bool" where
  "not_after now deadline =
     (tv_sec now < tv_sec deadline \<or> (tv_sec now = tv_sec deadline \<and> tv_nsec now \<le> tv_nsec deadline))"

text \<open>The \<^verbatim>\<open>while\<close> loop of \<^verbatim>\<open>mst_poll_register\<close>, on the loop variables \<open>value\<close> and
  \<open>now\<close>; it returns the last value read.\<close>

function mst_poll_register_loop ::
  "environment \<Rightarrow> u8 \<Rightarrow> u8 \<Rightarrow> u8 \<Rightarrow> timespec \<Rightarrow> u8 \<Rightarrow> timespec \<Rightarrow> device \<Rightarrow> u8 result" where
  "mst_poll_register_loop env address msk expected deadline val now w =
     (if val AND msk \<noteq> expected \<and> not_after now deadline then
        (let w1 = g_usleep env G_TIME_SPAN_MILLISECOND w;
             now' = clock_gettime w1
         in case mst_read_register env address w1 of
              (Inl e, w2) \<Rightarrow> (Inl e, w2)
            | (Inr val', w2) \<Rightarrow>
                mst_poll_register_loop env address msk expected deadline val' now' w2)
      else (Inr val, w))"
  by pat_completeness auto
termination
proof (relation "measure (\<lambda>(env, address, msk, expected, deadline, val, now, w).
          if not_after now deadline then 1 + ((tv_sec deadline + 1) * 1000000000 - clock w) else 0)",
       goal_cases)
  case 1
  show ?case by simp
next
  case (2 env address msk expected deadline val now w w1 now' r w2 val')
  have a: "clock w + 1000000 \<le> clock w1"
    using 2 by (simp add: g_usleep_def perform_def Let_def)
  have b: "clock w1 \<le> clock w2"
    using 2
    by (auto simp: mst_read_register_def andthen_def fu_udev_device_pwrite_def
        fu_udev_device_pread_def fu_udev_device_pwrite_full_def fu_udev_device_pread_full_def
        perform_def Let_def split: prod.splits sum.splits if_splits)
  have c: "not_after now' deadline \<Longrightarrow> clock w1 < (tv_sec deadline + 1) * 1000000000"
  proof -
    assume "not_after now' deadline"
    then have "clock w1 div 1000000000 \<le> tv_sec deadline"
      using 2 by (auto simp: not_after_def clock_gettime_def)
    then have "clock w1 div 1000000000 < tv_sec deadline + 1" by simp
    then show ?thesis
      by (simp add: div_less_iff_less_mult)
  qed
  show ?case using 2 a b c by auto
qed

declare mst_poll_register_loop.simps [simp del]

definition mst_poll_register ::
  "environment \<Rightarrow> u8 \<Rightarrow> u8 \<Rightarrow> u8 \<Rightarrow> nat \<Rightarrow> device \<Rightarrow> unit result" where
  "mst_poll_register env address msk expected timeout_seconds w =
     (let now = clock_gettime w;
          deadline = \<lparr>tv_sec = tv_sec now + timeout_seconds, tv_nsec = tv_nsec now\<rparr>
      in case mst_read_register env address w of
           (Inl e, w1) \<Rightarrow> (Inl e, w1)
         | (Inr val, w1) \<Rightarrow>
             (case mst_poll_register_loop env address msk expected deadline val now w1 of
                (Inl e, w2) \<Rightarrow> (Inl e, w2)
              | (Inr val', w2) \<Rightarrow>
                  if val' AND msk = expected then (Inr (), w2)
                  else (Inl (TimedOut address val' timeout_seconds expected msk), w2)))"

subsection \<open>Flash interface\<close>

text \<open>The \<^verbatim>\<open>while\<close> loop of \<^verbatim>\<open>flash_iface_read\<close>. The buffer is the list of the bytes
  read so far (the first \<open>bytes_read\<close> bytes of the C buffer).\<close>

function flash_iface_read_loop ::
  "environment \<Rightarrow> nat \<Rightarrow> nat \<Rightarrow> u8 list \<Rightarrow> device \<Rightarrow> (u8 list) result" where
  "flash_iface_read_loop env buf_size bytes_read buf w =
     (if bytes_read < buf_size then
        (let read_len = (if buf_size - bytes_read > 256 then 256 else buf_size - bytes_read)
         in case fu_udev_device_pread_full env read_len w of
              (Inl e, w1) \<Rightarrow> (Inl e, w1)
            | (Inr bs, w1) \<Rightarrow>
                flash_iface_read_loop env buf_size (bytes_read + read_len) (buf @ bs)
                  (fu_device_set_progress_full (bytes_read + read_len) buf_size w1))
      else (Inr buf, w))"
  by pat_completeness auto
termination
  by (relation "measure (\<lambda>(env, buf_size, bytes_read, buf, w). buf_size - bytes_read)")
     (auto split: if_splits)

declare flash_iface_read_loop.simps [simp del]

definition flash_iface_read :: "environment \<Rightarrow> u32 \<Rightarrow> nat \<Rightarrow> device \<Rightarrow> (u8 list) result" where
  "flash_iface_read env address buf_size =
     andthen (g_return_val_if_fail (unat address < FLASH_SIZE)) (\<lambda>_.
     andthen (g_return_val_if_fail (buf_size \<le> FLASH_SIZE)) (\<lambda>_.
     andthen (exec (g_debug (OpRead address buf_size))) (\<lambda>_.
     (let address' = (address - 1) AND 0xFFFFFF
      in andthen (mst_write_register env REG_CMD_ADDR_HI (ucast (drop_bit 16 address'))) (\<lambda>_.
         andthen (mst_write_register env REG_CMD_ADDR_MID (ucast (drop_bit 8 address'))) (\<lambda>_.
         andthen (mst_write_register env REG_CMD_ADDR_LO (ucast address')) (\<lambda>_.
         andthen (mst_write_register env REG_READ_OPCODE CMD_OPCODE_READ) (\<lambda>_.
         andthen (fu_udev_device_pwrite env 0x70) (\<lambda>_.
         andthen (fu_udev_device_pread env) (\<lambda>byte.
         flash_iface_read_loop env buf_size 0 []))))))))))"

definition flash_iface_erase_sector :: "environment \<Rightarrow> u32 \<Rightarrow> device \<Rightarrow> unit result" where
  "flash_iface_erase_sector env address =
     andthen (g_return_val_if_fail (address AND 0xFFF = 0)) (\<lambda>_.
     andthen (exec (g_debug (OpEraseSector address))) (\<lambda>_.
     andthen (mst_write_register env REG_CMD_ADDR_HI (ucast (drop_bit 16 address))) (\<lambda>_.
     andthen (mst_write_register env REG_CMD_ADDR_MID (ucast (drop_bit 8 address))) (\<lambda>_.
     andthen (mst_write_register env REG_CMD_ADDR_LO (ucast address)) (\<lambda>_.
     andthen (mst_write_register env REG_CMD_ATTR 0xB8) (\<lambda>_.
     andthen (mst_write_register env REG_ERASE_OPCODE CMD_OPCODE_ERASE_SECTOR) (\<lambda>_.
     andthen (mst_write_register env REG_CMD_ATTR (0xB8 OR CMD_ERASE_BUSY)) (\<lambda>_.
     mst_poll_register env REG_CMD_ATTR CMD_ERASE_BUSY 0 10))))))))"

definition flash_iface_erase_block :: "environment \<Rightarrow> u32 \<Rightarrow> device \<Rightarrow> unit result" where
  "flash_iface_erase_block env address =
     andthen (g_return_val_if_fail (address AND 0xFFFF = 0)) (\<lambda>_.
     andthen (exec (g_debug (OpEraseBlock address))) (\<lambda>_.
     andthen (mst_write_register env REG_CMD_ADDR_HI (ucast (drop_bit 16 address))) (\<lambda>_.
     andthen (mst_write_register env REG_CMD_ADDR_MID 0) (\<lambda>_.
     andthen (mst_write_register env REG_CMD_ADDR_LO 0) (\<lambda>_.
     andthen (mst_write_register env REG_CMD_ATTR 0xB8) (\<lambda>_.
     andthen (mst_write_register env REG_ERASE_OPCODE CMD_OPCODE_ERASE_BLOCK) (\<lambda>_.
     andthen (mst_write_register env REG_CMD_ATTR (0xB8 OR CMD_ERASE_BUSY)) (\<lambda>_.
     mst_poll_register env REG_CMD_ATTR CMD_ERASE_BUSY 0 10))))))))"

text \<open>\<^verbatim>\<open>g_prefix_error\<close> on the error of a failed call.\<close>

definition g_prefix_error :: "(error \<Rightarrow> error) \<Rightarrow> (device \<Rightarrow> 'a result) \<Rightarrow> device \<Rightarrow> 'a result" where
  "g_prefix_error pre m w = (case m w of (Inl e, w') \<Rightarrow> (Inl (pre e), w') | (Inr x, w') \<Rightarrow> (Inr x, w'))"

text \<open>The body of the \<^verbatim>\<open>while\<close> loop of \<^verbatim>\<open>flash_iface_write\<close>, up to and including the
  wait for completion.\<close>

definition flash_iface_write_chunk ::
  "environment \<Rightarrow> u32 \<Rightarrow> u8 list \<Rightarrow> nat \<Rightarrow> device \<Rightarrow> unit result" where
  "flash_iface_write_chunk env address data_bytes chunk_size =
     andthen (mst_write_register env REG_WRITE_OPCODE 0x02) (\<lambda>_.
     andthen (mst_write_register env REG_WRITE_LEN (of_nat (chunk_size - 1))) (\<lambda>_.
     andthen (mst_write_register env REG_CMD_ADDR_HI (ucast (drop_bit 16 address))) (\<lambda>_.
     andthen (mst_write_register env REG_CMD_ADDR_MID (ucast (drop_bit 8 address))) (\<lambda>_.
     andthen (mst_write_register env REG_CMD_ADDR_LO (ucast address)) (\<lambda>_.
     andthen (mst_poll_register env REG_MCU_MODE MCU_MODE_WRITE_BUF 0 10) (\<lambda>_.
     andthen (mst_write_register_multi env REG_WRITE_FIFO data_bytes chunk_size) (\<lambda>_.
     andthen (mst_write_register env REG_MCU_MODE (MCU_MODE_ISP OR MCU_MODE_WRITE_BUSY)) (\<lambda>_.
     g_prefix_error (WriteTimedOut address)
       (mst_poll_register env REG_MCU_MODE MCU_MODE_WRITE_BUSY 0 10)))))))))"

function flash_iface_write_loop ::
  "environment \<Rightarrow> nat \<Rightarrow> u32 \<Rightarrow> u8 list \<Rightarrow> nat \<Rightarrow> device \<Rightarrow> unit result" where
  "flash_iface_write_loop env total_size address data_bytes remaining_size w =
     (if remaining_size > 0 then
        (let chunk_size = (if remaining_size > 256 then 256 else remaining_size)
         in case flash_iface_write_chunk env address data_bytes chunk_size w of
              (Inl e, w1) \<Rightarrow> (Inl e, w1)
            | (Inr _, w1) \<Rightarrow>
                flash_iface_write_loop env total_size (address + of_nat chunk_size)
                  (drop chunk_size data_bytes) (remaining_size - chunk_size)
                  (fu_device_set_progress_full (total_size - (remaining_size - chunk_size)) total_size w1))
      else (Inr (), w))"
  by pat_completeness auto
termination
  by (relation "measure (\<lambda>(env, total_size, address, data_bytes, remaining_size, w). remaining_size)")
     (auto split: if_splits)

declare flash_iface_write_loop.simps [simp del]

definition flash_iface_write :: "environment \<Rightarrow> u32 \<Rightarrow> u8 list \<Rightarrow> device \<Rightarrow> unit result" where
  "flash_iface_write env address data =
     andthen (exec (g_debug (OpWrite address (length data)))) (\<lambda>_.
     flash_iface_write_loop env (length data) address data (length data))"

subsection \<open>GPIO 88\<close>

definition mst_set_gpio88 :: "environment \<Rightarrow> bool \<Rightarrow> device \<Rightarrow> unit result" where
  "mst_set_gpio88 env level =
     andthen (mst_read_register_indirect env REG_GPIO88_CONFIG) (\<lambda>val.
     andthen (mst_write_register_indirect env REG_GPIO88_CONFIG ((val AND 0xF0) OR 1)) (\<lambda>_.
     andthen (mst_read_register_indirect env REG_GPIO88_VALUE) (\<lambda>val.
     mst_write_register_indirect env REG_GPIO88_VALUE
       ((val AND 0xFE) OR (if level then 1 else 0)))))"

subsection \<open>Dual-bank state and version\<close>

record dual_bank_info =
  is_enabled :: bool
  mode :: nat
  info_active_bank :: nat
  user1_version :: "u8 \<times> u8"
  user2_version :: "u8 \<times> u8"

text \<open>\<open>info\<close> is the struct the caller passes in; the fields the function does not assign
  keep what the caller had there.\<close>

definition fu_realtek_mst_device_get_dual_bank_info ::
  "environment \<Rightarrow> dual_bank_info \<Rightarrow> device \<Rightarrow> dual_bank_info result" where
  "fu_realtek_mst_device_get_dual_bank_info env info =
     andthen (mst_write_register env 0xca 0x09) (\<lambda>_.
     andthen (exec (g_usleep env (200 * G_TIME_SPAN_MILLISECOND))) (\<lambda>_.
     andthen (fu_udev_device_pwrite env 0x01) (\<lambda>_.
     andthen (fu_udev_device_pread_full env 11) (\<lambda>response w.
       if response ! 0 \<noteq> 0xca \<or> response ! 1 \<noteq> 9 then
         (Inr (info\<lparr>is_enabled := False\<rparr>), w)
       else if response ! 2 \<noteq> 1 then
         (Inr (info\<lparr>is_enabled := False\<rparr>), w)
       else if unat (response ! 3) > DUAL_BANK_MAX_VALUE then
         (Inr (info\<lparr>is_enabled := False, mode := unat (response ! 3)\<rparr>), w)
       else if unat (response ! 4) > FLASH_BANK_MAX_VALUE then
         (Inr (info\<lparr>is_enabled := False, mode := unat (response ! 3),
                    info_active_bank := unat (response ! 4)\<rparr>), w)
       else
         (Inr (info\<lparr>is_enabled := True, mode := unat (response ! 3),
                    info_active_bank := unat (response ! 4),
                    user1_version := (response ! 5, response ! 6),
                    user2_version := (response ! 7, response ! 8)\<rparr>), w)))))"

text \<open>\<^verbatim>\<open>%u\<close> of \<^verbatim>\<open>g_strdup_printf\<close>: the decimal digits of an unsigned number.\<close>

fun decimal :: "nat \<Rightarrow> string" where
  "decimal n = (if n < 10 then [char_of (48 + n)] else decimal (n div 10) @ [char_of (48 + n mod 10)])"

declare decimal.simps [simp del]

definition version_str :: "u8 \<times> u8 \<Rightarrow> string" where
  "version_str active_version =
     decimal (unat (fst active_version)) @ ''.'' @ decimal (unat (snd active_version))"

text \<open>\<^verbatim>\<open>fu_realtek_mst_device_probe_version\<close>, the \<^verbatim>\<open>setup\<close> and \<^verbatim>\<open>reload\<close> hook. Its local
  \<^verbatim>\<open>struct dual_bank_info info\<close> is not initialised: \<open>info0\<close> is whatever the stack held.\<close>

definition set_active_bank :: "nat \<Rightarrow> device \<Rightarrow> device" where
  "set_active_bank b w = w\<lparr>active_bank := b\<rparr>"

definition fu_realtek_mst_device_probe_version ::
  "environment \<Rightarrow> dual_bank_info \<Rightarrow> device \<Rightarrow> unit result" where
  "fu_realtek_mst_device_probe_version env info0 =
     andthen (exec (fu_device_remove_flag FWUPD_DEVICE_FLAG_UPDATABLE)) (\<lambda>_.
     andthen (exec (set_active_bank FLASH_BANK_INVALID)) (\<lambda>_.
     andthen (exec (fu_device_set_version None)) (\<lambda>_.
     andthen (fu_realtek_mst_device_get_dual_bank_info env info0) (\<lambda>info.
       if \<not> is_enabled info then (\<lambda>w. (Inr (), w))
       else if mode info \<noteq> DUAL_BANK_DIFF then (\<lambda>w. (Inr (), w))
       else
         andthen (exec (fu_device_add_flag FWUPD_DEVICE_FLAG_UPDATABLE)) (\<lambda>_.
         andthen (g_return_val_if_fail (info_active_bank info \<le> FLASH_BANK_MAX_VALUE)) (\<lambda>_.
         andthen (exec (set_active_bank (info_active_bank info))) (\<lambda>_.
           if info_active_bank info = FLASH_BANK_USER1 then
             exec (fu_device_set_version (Some (version_str (user1_version info))))
           else if info_active_bank info = FLASH_BANK_USER2 then
             exec (fu_device_set_version (Some (version_str (user2_version info))))
           else (\<lambda>w. (Inr (), w)))))))))"

subsection \<open>Update sequencer\<close>

text \<open>The \<^verbatim>\<open>for\<close> loop of \<^verbatim>\<open>fu_realtek_mst_device_write_firmware\<close> that erases the old
  image: \<^verbatim>\<open>for (guint32 offset = 0; offset < FLASH_USER_SIZE; offset += FLASH_USER_SIZE)\<close>.\<close>

function erase_old_image :: "environment \<Rightarrow> u32 \<Rightarrow> u32 \<Rightarrow> device \<Rightarrow> unit result" where
  "erase_old_image env base_addr offset w =
     (if offset < 0x70000 then
        (case flash_iface_erase_block env (base_addr + offset)
                (fu_device_set_progress_full (unat offset) FLASH_USER_SIZE w) of
           (Inl e, w1) \<Rightarrow> (Inl e, w1)
         | (Inr _, w1) \<Rightarrow> erase_old_image env base_addr (offset + 0x70000) w1)
      else (Inr (), w))"
  by pat_completeness auto
termination
proof (relation "measure (\<lambda>(env, base_addr, offset, w). 0x70000 - unat offset)", goal_cases)
  case 1
  show ?case by simp
next
  case (2 env base_addr offset w x e w1)
  then have "unat offset < 0x70000"
    by (simp add: word_less_nat_alt)
  then have "unat (offset + 0x70000) = unat offset + 0x70000"
    by (simp add: unat_word_ariths)
  then show ?case using \<open>unat offset < 0x70000\<close> by simp
qed

declare erase_old_image.simps [simp del]

abbreviation (input) flag_data :: "u8 list" where
  "flag_data \<equiv> [0xaa, 0xaa, 0xaa, 0xff, 0xff]"

text \<open>\<open>firmware_bytes\<close> is what \<^verbatim>\<open>fu_firmware_get_bytes\<close> returned: the image, or the
  error it set.\<close>

definition fu_realtek_mst_device_write_firmware ::
  "environment \<Rightarrow> error + u8 list \<Rightarrow> device \<Rightarrow> unit result" where
  "fu_realtek_mst_device_write_firmware env firmware_bytes w =
     (let base_addr = (if active_bank w = FLASH_BANK_USER1 then FLASH_USER2_ADDR else FLASH_USER1_ADDR);
          flag_addr = (if active_bank w = FLASH_BANK_USER1 then FLASH_FLAG2_ADDR else FLASH_FLAG1_ADDR)
      in case firmware_bytes of
           Inl e \<Rightarrow> (Inl e, w)
         | Inr fw \<Rightarrow>
            (andthen (g_return_val_if_fail (length fw = FLASH_USER_SIZE)) (\<lambda>_.
             andthen (exec (fu_device_set_status FWUPD_STATUS_DEVICE_ERASE)) (\<lambda>_.
             andthen (erase_old_image env base_addr 0) (\<lambda>_.
             andthen (exec (fu_device_set_status FWUPD_STATUS_DEVICE_WRITE)) (\<lambda>_.
             andthen (flash_iface_write env base_addr fw) (\<lambda>_.
             andthen (exec (fu_device_set_status FWUPD_STATUS_DEVICE_VERIFY)) (\<lambda>_.
             andthen (flash_iface_read env base_addr FLASH_USER_SIZE) (\<lambda>readback_buf.
               if fw \<noteq> readback_buf then
                 (\<lambda>w'. (Inl (FwupdWrite ''flash contents after write do not match firmware image''), w'))
               else
                 andthen (exec (fu_device_set_status FWUPD_STATUS_DEVICE_ERASE)) (\<lambda>_.
                 andthen (flash_iface_erase_sector env (flag_addr AND NOT (SECTOR_SIZE - 1))) (\<lambda>_.
                 andthen (exec (fu_device_set_status FWUPD_STATUS_DEVICE_WRITE)) (\<lambda>_.
                 flash_iface_write env flag_addr flag_data)))))))))) w))"

subsection \<open>Attach\<close>

definition fu_realtek_mst_device_attach :: "environment \<Rightarrow> device \<Rightarrow> unit result" where
  "fu_realtek_mst_device_attach env =
     andthen (mst_set_gpio88 env False) (\<lambda>_.
     andthen (mst_read_register env REG_MCU_MODE) (\<lambda>val.
     andthen
       (if val AND MCU_MODE_ISP \<noteq> 0 then
          andthen (exec (fu_device_set_status FWUPD_STATUS_DEVICE_RESTART)) (\<lambda>_.
          andthen (mst_read_register env 0xEE) (\<lambda>val.
          andthen (ignoring (mst_write_register env 0xEE (val OR 2))) (\<lambda>_.
          andthen (exec (g_usleep env G_TIME_SPAN_SECOND)) (\<lambda>_.
          andthen (mst_read_register env REG_MCU_MODE) (\<lambda>val.
            if val AND MCU_MODE_ISP = MCU_MODE_ISP then
              (\<lambda>w. (Inl (FwupdNeedsUserAction ''device failed to reset when requested''),
                    fu_device_add_flag FWUPD_DEVICE_FLAG_NEEDS_SHUTDOWN w))
            else (\<lambda>w. (Inr (), w)))))))
        else (\<lambda>w. (Inr (), w)))
       (\<lambda>_.
     andthen (exec (fu_device_remove_flag FWUPD_DEVICE_FLAG_IS_BOOTLOADER)) (\<lambda>_.
     exec (fu_device_set_status FWUPD_STATUS_IDLE)))))"

section \<open>Vocabulary of the properties\<close>

subsection \<open>Traces and scripts\<close>

text \<open>A selector \<open>sel\<close> picks the actions of interest; \<open>proj sel\<close> projects the entries of a
  trace to them, \<open>new_entries w w'\<close> are the entries added between two states, and
  \<open>emits sel script w res\<close> says that the run from \<open>w\<close> with outcome \<open>res\<close> extended the trace
  by entries whose projection is an initial part of \<open>script\<close>, and all of \<open>script\<close> when the
  run did not fail.\<close>

definition opt :: "(action \<Rightarrow> 'b option) \<Rightarrow> action \<Rightarrow> 'b list" where
  "opt sel a = (case sel a of None \<Rightarrow> [] | Some b \<Rightarrow> [b])"

definition proj :: "(action \<Rightarrow> 'b option) \<Rightarrow> entry list \<Rightarrow> 'b list" where
  "proj sel tr = concat (map (\<lambda>e. opt sel (fst (snd e))) tr)"

definition new_entries :: "device \<Rightarrow> device \<Rightarrow> entry list" where
  "new_entries w w' = drop (length (trace w)) (trace w')"

definition emits :: "(action \<Rightarrow> 'b option) \<Rightarrow> 'b list \<Rightarrow> device \<Rightarrow> 'a result \<Rightarrow> bool" where
  "emits sel script w res =
     (\<exists>ext. trace (snd res) = trace w @ ext \<and> prefix (proj sel ext) script \<and>
            (\<not> isl (fst res) \<longrightarrow> proj sel ext = script))"

text \<open>Three selectors: the register writes (register address and the bytes written to it),
  the flash operations announced by \<^verbatim>\<open>g_debug\<close>, and the bus transactions.\<close>

fun reg_write :: "action \<Rightarrow> (u8 \<times> u8 list) option" where
  "reg_write (Pwrite (a # v # vs)) = Some (a, v # vs)"
| "reg_write _ = None"

fun flash_op_of :: "action \<Rightarrow> flash_op option" where
  "flash_op_of (Debug m) = Some m"
| "flash_op_of _ = None"

fun bus_op :: "action \<Rightarrow> action option" where
  "bus_op (Pwrite bs) = Some (Pwrite bs)"
| "bus_op (Pread n) = Some (Pread n)"
| "bus_op _ = None"

subsection \<open>Register scripts of the flash operations\<close>

text \<open>The register writes of the address cycle, of the two erases, of a read, and of the
  write of one page, in the order of the source; \<open>pages\<close> cuts an image into the chunks of at
  most 256 bytes of \<^verbatim>\<open>flash_iface_write\<close>.\<close>

definition addr_script :: "u32 \<Rightarrow> (u8 \<times> u8 list) list" where
  "addr_script address =
     [(REG_CMD_ADDR_HI, [ucast (drop_bit 16 address)]),
      (REG_CMD_ADDR_MID, [ucast (drop_bit 8 address)]),
      (REG_CMD_ADDR_LO, [ucast address])]"

definition erase_sector_script :: "u32 \<Rightarrow> (u8 \<times> u8 list) list" where
  "erase_sector_script address =
     addr_script address @
     [(REG_CMD_ATTR, [0xB8]), (REG_ERASE_OPCODE, [CMD_OPCODE_ERASE_SECTOR]), (REG_CMD_ATTR, [0xB9])]"

definition erase_block_script :: "u32 \<Rightarrow> (u8 \<times> u8 list) list" where
  "erase_block_script address =
     [(REG_CMD_ADDR_HI, [ucast (drop_bit 16 address)]), (REG_CMD_ADDR_MID, [0]), (REG_CMD_ADDR_LO, [0]),
      (REG_CMD_ATTR, [0xB8]), (REG_ERASE_OPCODE, [CMD_OPCODE_ERASE_BLOCK]), (REG_CMD_ATTR, [0xB9])]"

definition read_script :: "u32 \<Rightarrow> (u8 \<times> u8 list) list" where
  "read_script address =
     addr_script ((address - 1) AND 0xFFFFFF) @ [(REG_READ_OPCODE, [CMD_OPCODE_READ])]"

definition page_script :: "u32 \<Rightarrow> u8 list \<Rightarrow> (u8 \<times> u8 list) list" where
  "page_script address chunk =
     [(REG_WRITE_OPCODE, [CMD_OPCODE_WRITE]), (REG_WRITE_LEN, [of_nat (length chunk - 1)])] @
     addr_script address @
     [(REG_WRITE_FIFO, chunk), (REG_MCU_MODE, [0xA0])]"

fun pages :: "u32 \<Rightarrow> u8 list \<Rightarrow> (u32 \<times> u8 list) list" where
  "pages address data =
     (if data = [] then [] else (address, take 256 data) # pages (address + 256) (drop 256 data))"

declare pages.simps [simp del]

definition write_script :: "u32 \<Rightarrow> u8 list \<Rightarrow> (u8 \<times> u8 list) list" where
  "write_script address data = concat (map (\<lambda>(a, chunk). page_script a chunk) (pages address data))"

text \<open>The burst reads of \<^verbatim>\<open>flash_iface_read\<close>: the length of each and the count of bytes
  read after it; then the bus transactions of a whole read.\<close>

function read_steps :: "nat \<Rightarrow> nat \<Rightarrow> (nat \<times> nat) list" where
  "read_steps buf_size bytes_read =
     (if bytes_read < buf_size then
        (let read_len = min 256 (buf_size - bytes_read)
         in (read_len, bytes_read + read_len) # read_steps buf_size (bytes_read + read_len))
      else [])"
  by pat_completeness auto

termination
  by (relation "measure (\<lambda>(buf_size, bytes_read). buf_size - bytes_read)") auto

declare read_steps.simps [simp del]

definition read_bus_script :: "u32 \<Rightarrow> nat \<Rightarrow> action list" where
  "read_bus_script address buf_size =
     [Pwrite [REG_CMD_ADDR_HI, ucast (drop_bit 16 ((address - 1) AND 0xFFFFFF))],
      Pwrite [REG_CMD_ADDR_MID, ucast (drop_bit 8 ((address - 1) AND 0xFFFFFF))],
      Pwrite [REG_CMD_ADDR_LO, ucast ((address - 1) AND 0xFFFFFF)],
      Pwrite [REG_READ_OPCODE, CMD_OPCODE_READ],
      Pwrite [REG_WRITE_FIFO],
      Pread 1] @
     map (\<lambda>(n, d). Pread n) (read_steps buf_size 0)"

subsection \<open>The update\<close>

text \<open>The bank that \<^verbatim>\<open>write_firmware\<close> targets, given the active one, and its flash
  operations in order.\<close>

definition target_base :: "nat \<Rightarrow> u32" where
  "target_base active = (if active = FLASH_BANK_USER1 then FLASH_USER2_ADDR else FLASH_USER1_ADDR)"

definition target_flag :: "nat \<Rightarrow> u32" where
  "target_flag active = (if active = FLASH_BANK_USER1 then FLASH_FLAG2_ADDR else FLASH_FLAG1_ADDR)"

definition update_ops :: "nat \<Rightarrow> flash_op list" where
  "update_ops active =
     [OpEraseBlock (target_base active),
      OpWrite (target_base active) FLASH_USER_SIZE,
      OpRead (target_base active) FLASH_USER_SIZE,
      OpEraseSector (target_flag active AND NOT (SECTOR_SIZE - 1)),
      OpWrite (target_flag active) 5]"

text \<open>A bus on which every transaction succeeds at once and every byte reads as zero, a
  device with an empty trace, and a computation that returns \<open>x\<close> from every state.\<close>

definition zero_env :: environment where
  "zero_env = \<lparr>respond = (\<lambda>h a. case a of Pread n \<Rightarrow> Inr (replicate n 0) | _ \<Rightarrow> Inr []),
               lag = (\<lambda>h a. 0)\<rparr>"

definition idle_device :: "nat \<Rightarrow> device" where
  "idle_device active = \<lparr>trace = [], clock = 0, active_bank = active, flags = {}, version = None\<rparr>"

definition returns :: "(device \<Rightarrow> 'a result) \<Rightarrow> 'a \<Rightarrow> bool" where
  "returns m x = (\<forall>w. fst (m w) = Inr x)"

text \<open>The flash addresses that an operation modifies, and those of the image and of the flag
  record of a bank.\<close>

fun modified :: "flash_op \<Rightarrow> nat set" where
  "modified (OpRead a n) = {}"
| "modified (OpEraseSector a) = {unat a ..< unat a + 4096}"
| "modified (OpEraseBlock a) = {unat a ..< unat a + 65536}"
| "modified (OpWrite a n) = {unat a ..< unat a + n}"

definition bank_image :: "nat \<Rightarrow> nat set" where
  "bank_image bank =
     (if bank = FLASH_BANK_USER1 then {0x10000 ..< 0x10000 + FLASH_USER_SIZE}
      else if bank = FLASH_BANK_USER2 then {0x80000 ..< 0x80000 + FLASH_USER_SIZE}
      else {})"

definition bank_flag :: "nat \<Rightarrow> nat set" where
  "bank_flag bank =
     (if bank = FLASH_BANK_USER1 then {0xfe304 ..< 0xfe304 + 5}
      else if bank = FLASH_BANK_USER2 then {0xff304 ..< 0xff304 + 5}
      else {})"

text \<open>A list of register writes is address-first when no address register is written after
  an opcode register or \<^verbatim>\<open>REG_CMD_ATTR\<close>.\<close>

definition is_address_reg :: "u8 \<Rightarrow> bool" where
  "is_address_reg a = (a = REG_CMD_ADDR_HI \<or> a = REG_CMD_ADDR_MID \<or> a = REG_CMD_ADDR_LO)"

definition is_opcode_or_start_reg :: "u8 \<Rightarrow> bool" where
  "is_opcode_or_start_reg a =
     (a = REG_ERASE_OPCODE \<or> a = REG_READ_OPCODE \<or> a = REG_WRITE_OPCODE \<or> a = REG_CMD_ATTR)"

fun address_first :: "(u8 \<times> u8 list) list \<Rightarrow> bool" where
  "address_first [] = True"
| "address_first ((a, vs) # rest) =
     ((is_opcode_or_start_reg a \<longrightarrow> (\<forall>(b, ws) \<in> set rest. \<not> is_address_reg b)) \<and> address_first rest)"



text \<open>The statements of \<^verbatim>\<open>write_firmware\<close> from the erase of the old image to the read-back,
  before the comparison with the image.\<close>

definition write_and_read_back :: "environment \<Rightarrow> u32 \<Rightarrow> u8 list \<Rightarrow> device \<Rightarrow> (u8 list) result" where
  "write_and_read_back env base_addr fw =
     andthen (exec (fu_device_set_status FWUPD_STATUS_DEVICE_ERASE)) (\<lambda>_.
     andthen (erase_old_image env base_addr 0) (\<lambda>_.
     andthen (exec (fu_device_set_status FWUPD_STATUS_DEVICE_WRITE)) (\<lambda>_.
     andthen (flash_iface_write env base_addr fw) (\<lambda>_.
     andthen (exec (fu_device_set_status FWUPD_STATUS_DEVICE_VERIFY)) (\<lambda>_.
     flash_iface_read env base_addr FLASH_USER_SIZE)))))"

subsection \<open>Version probe and attach\<close>

text \<open>The state after the first three statements of \<^verbatim>\<open>probe_version\<close>; two states with the
  same flags, active bank and version; a bus that answers the dual-bank query with an enabled
  \<^verbatim>\<open>DIFF\<close> mode report, active bank USER2, versions 2.5 and 3.7; and arbitrary initial
  contents of the \<^verbatim>\<open>info\<close> struct.\<close>

definition precleared :: "device \<Rightarrow> device" where
  "precleared w =
     fu_device_set_version None
       (set_active_bank FLASH_BANK_INVALID (fu_device_remove_flag FWUPD_DEVICE_FLAG_UPDATABLE w))"

definition same_host :: "device \<Rightarrow> device \<Rightarrow> bool" where
  "same_host w w' = (flags w' = flags w \<and> active_bank w' = active_bank w \<and> version w' = version w)"

definition e1_env :: environment where
  "e1_env = \<lparr>respond = (\<lambda>h a. case a of
                 Pread n \<Rightarrow> Inr [0xCA, 0x09, 0x01, 0x01, 0x02, 0x02, 0x05, 0x03, 0x07, 0x00, 0x00]
               | _ \<Rightarrow> Inr []),
             lag = (\<lambda>h a. 0)\<rparr>"

definition junk_info :: dual_bank_info where
  "junk_info = \<lparr>is_enabled = True, mode = 77, info_active_bank = 99,
                 user1_version = (0xEE, 0xEE), user2_version = (0xDD, 0xDD)\<rparr>"

text \<open>A bus on which \<^verbatim>\<open>MCU_MODE\<close> always reads as \<^verbatim>\<open>MCU_MODE_ISP\<close>, every other register as
  zero, and the write of register 0xEE fails.\<close>

definition stuck_env :: environment where
  "stuck_env = \<lparr>respond = (\<lambda>h a. case a of
                    Pread n \<Rightarrow>
                      if h \<noteq> [] \<and> fst (snd (last h)) = Pwrite [REG_MCU_MODE] then Inr [MCU_MODE_ISP]
                      else Inr (replicate n 0)
                  | Pwrite bs \<Rightarrow> if length bs = 2 \<and> hd bs = 0xEE then Inl 6 else Inr []
                  | _ \<Rightarrow> Inr []),
                lag = (\<lambda>h a. 0)\<rparr>"

subsection \<open>Polling\<close>






text \<open>A \<^verbatim>\<open>timespec\<close> in nanoseconds, and the times at which the reads of a trace begin (the
  time stamps of the writes of the register address).\<close>

definition ns_of :: "timespec \<Rightarrow> nat" where
  "ns_of ts = tv_sec ts * 1000000000 + tv_nsec ts"








subsection \<open>The bytes delivered by the bus\<close>

text \<open>The bytes that the bus delivered: the replies of the completed reads of a trace, in
  order. \<open>receives w res P\<close> says that the run from \<open>w\<close> with outcome \<open>res\<close> extended the
  trace and that, when it succeeded with \<open>x\<close>, the bytes delivered meanwhile satisfy \<open>P x\<close>.\<close>

fun read_reply :: "entry \<Rightarrow> u8 list" where
  "read_reply (t, Pread n, Inr bs) = bs"
| "read_reply _ = []"

definition bytes_received :: "entry list \<Rightarrow> u8 list" where
  "bytes_received ents = concat (map read_reply ents)"

definition receives :: "device \<Rightarrow> 'a result \<Rightarrow> ('a \<Rightarrow> u8 list \<Rightarrow> bool) \<Rightarrow> bool" where
  "receives w res P =
     (\<exists>ext. trace (snd res) = trace w @ ext \<and>
            (\<forall>x. fst res = Inr x \<longrightarrow> P x (bytes_received ext)))"

text \<open>A bus whose first read delivers 0xEE and every later read 0x11.\<close>

definition is_pread :: "entry \<Rightarrow> bool" where
  "is_pread e = (case fst (snd e) of Pread n \<Rightarrow> True | _ \<Rightarrow> False)"

definition marked_env :: environment where
  "marked_env = \<lparr>respond = (\<lambda>h a. case a of
                     Pread n \<Rightarrow> if list_ex is_pread h then Inr (replicate n 0x11)
                                else Inr (replicate n 0xEE)
                   | _ \<Rightarrow> Inr []),
                 lag = (\<lambda>h a. 0)\<rparr>"

subsection \<open>Decimal numerals\<close>

text \<open>Decimal numerals, after the words of the specification for the version string
  \<^verbatim>\<open>"{major}.{minor}"\<close>: \<open>denotes s n\<close> says that \<open>s\<close> is the decimal numeral of \<open>n\<close>, a
  non-empty string of the digits 0 to 9 without a leading zero (but for the numeral 0)
  whose value, read from the left, is \<open>n\<close>. It does not refer to \<open>decimal\<close>.\<close>

definition digit :: "char \<Rightarrow> bool" where
  "digit c = (c \<in> set ''0123456789'')"

definition digit_value :: "char \<Rightarrow> nat" where
  "digit_value c = of_char c - of_char CHR ''0''"

definition numeral_value :: "string \<Rightarrow> nat" where
  "numeral_value s = foldl (\<lambda>acc c. 10 * acc + digit_value c) 0 s"

definition denotes :: "string \<Rightarrow> nat \<Rightarrow> bool" where
  "denotes s n = (s \<noteq> [] \<and> list_all digit s \<and> (hd s = CHR ''0'' \<longrightarrow> s = ''0'') \<and>
                  numeral_value s = n)"

text \<open>A bus that answers the dual-bank query with an enabled \<^verbatim>\<open>DIFF\<close> mode report, active
  bank USER1, versions 10.255 and 3.7.\<close>

definition e2_env :: environment where
  "e2_env = \<lparr>respond = (\<lambda>h a. case a of
                 Pread n \<Rightarrow> Inr [0xCA, 0x09, 0x01, 0x01, 0x01, 0x0A, 0xFF, 0x03, 0x07, 0x00, 0x00]
               | _ \<Rightarrow> Inr []),
             lag = (\<lambda>h a. 0)\<rparr>"

subsection \<open>Flash commands started by register writes\<close>

text \<open>The flash commands that a sequence of register writes starts, after the comments of
  the source on the registers: \<^verbatim>\<open>REG_CMD_ADDR_HI\<close>, \<^verbatim>\<open>MID\<close>, \<^verbatim>\<open>LO\<close> hold the "24-bit address
  for commands"; \<^verbatim>\<open>CMD_ERASE_BUSY\<close> of \<^verbatim>\<open>REG_CMD_ATTR\<close> is "write set to begin executing", the
  opcode being the one in \<^verbatim>\<open>REG_ERASE_OPCODE\<close>; \<^verbatim>\<open>MCU_MODE_WRITE_BUSY\<close> of \<^verbatim>\<open>REG_MCU_MODE\<close> is
  "write set to begin write", and \<^verbatim>\<open>REG_WRITE_LEN\<close> holds the "number of bytes to write minus
  1". A register keeps the last byte written to it; \<open>rf\<close> is the contents of the registers
  before the writes.\<close>

datatype flash_cmd = Erase u8 nat | Program nat nat

type_synonym regfile = "u8 \<Rightarrow> u8"

definition reg_store :: "regfile \<Rightarrow> u8 \<times> u8 list \<Rightarrow> regfile" where
  "reg_store rf wr = rf(fst wr := last (snd wr))"

definition cmd_address :: "regfile \<Rightarrow> nat" where
  "cmd_address rf =
     unat (rf REG_CMD_ADDR_HI) * 65536 + unat (rf REG_CMD_ADDR_MID) * 256 + unat (rf REG_CMD_ADDR_LO)"

definition started :: "regfile \<Rightarrow> u8 \<times> u8 list \<Rightarrow> flash_cmd list" where
  "started rf wr =
     (if fst wr = REG_CMD_ATTR \<and> last (snd wr) AND CMD_ERASE_BUSY \<noteq> 0 then
        [Erase (rf REG_ERASE_OPCODE) (cmd_address rf)]
      else if fst wr = REG_MCU_MODE \<and> last (snd wr) AND MCU_MODE_WRITE_BUSY \<noteq> 0 then
        [Program (cmd_address rf) (unat (rf REG_WRITE_LEN) + 1)]
      else [])"

fun flash_cmds :: "regfile \<Rightarrow> (u8 \<times> u8 list) list \<Rightarrow> flash_cmd list" where
  "flash_cmds rf [] = []"
| "flash_cmds rf (wr # rest) = started rf wr @ flash_cmds (reg_store rf wr) rest"

text \<open>The flash addresses that a command modifies: the 4 KiB sector or the 64 KiB block
  that holds the address of an erase (any address, for an opcode that is neither), and the
  bytes from the address on of a write.\<close>

fun cmd_modifies :: "flash_cmd \<Rightarrow> nat set" where
  "cmd_modifies (Erase opcode a) =
     (if opcode = CMD_OPCODE_ERASE_SECTOR then {a div 4096 * 4096 ..< a div 4096 * 4096 + 4096}
      else if opcode = CMD_OPCODE_ERASE_BLOCK then {a div 65536 * 65536 ..< a div 65536 * 65536 + 65536}
      else UNIV)"
| "cmd_modifies (Program a n) = {a ..< a + n}"

text \<open>The register writes of an update of the bank that is not active, and the flash
  commands they start; the flash region of the target: its image and the sector of its flag
  record.\<close>

definition update_script :: "nat \<Rightarrow> u8 list \<Rightarrow> (u8 \<times> u8 list) list" where
  "update_script active fw =
     erase_block_script (target_base active) @
     write_script (target_base active) fw @
     read_script (target_base active) @
     erase_sector_script (target_flag active AND NOT (SECTOR_SIZE - 1)) @
     write_script (target_flag active) flag_data"

definition update_cmds :: "nat \<Rightarrow> u8 list \<Rightarrow> flash_cmd list" where
  "update_cmds active fw =
     Erase CMD_OPCODE_ERASE_BLOCK (unat (target_base active)) #
     map (\<lambda>(a, chunk). Program (unat a) (length chunk)) (pages (target_base active) fw) @
     [Erase CMD_OPCODE_ERASE_SECTOR (unat (target_flag active AND NOT (SECTOR_SIZE - 1))),
      Program (unat (target_flag active)) 5]"

definition target_region :: "nat \<Rightarrow> nat set" where
  "target_region active =
     {unat (target_base active) ..< unat (target_base active) + FLASH_USER_SIZE} \<union>
     {unat (target_flag active AND NOT (SECTOR_SIZE - 1)) ..<
      unat (target_flag active AND NOT (SECTOR_SIZE - 1)) + 4096}"

definition regs_after :: "regfile \<Rightarrow> (u8 \<times> u8 list) list \<Rightarrow> regfile" where
  "regs_after rf wrs = foldl reg_store rf wrs"

section \<open>Lemmas\<close>

subsection \<open>Traces of the primitives and of the flash interface\<close>

lemma proj_append [simp]: "proj sel (xs @ ys) = proj sel xs @ proj sel ys"
  by (simp add: proj_def)

lemma proj_Nil [simp]: "proj sel [] = []"
  by (simp add: proj_def)

lemma proj_Cons [simp]: "proj sel ((t, a, r) # xs) = opt sel a @ proj sel xs"
  by (simp add: proj_def)

lemma emits_fail: "emits sel script w (Inl e, w)"
  by (simp add: emits_def)

lemma emits_ok: "emits sel [] w (Inr x, w)"
  by (simp add: emits_def)

lemma emits_andthen:
  assumes "emits sel s1 w (m w)"
    and "\<And>x w1. m w = (Inr x, w1) \<Longrightarrow> emits sel s2 w1 (k x w1)"
    and "script = s1 @ s2"
  shows "emits sel script w (andthen m k w)"
proof (cases "m w")
  case (Pair r w1)
  show ?thesis
  proof (cases r)
    case (Inl e)
    then show ?thesis using assms(1,3) Pair
      by (auto simp: emits_def andthen_def intro: prefix_order.trans)
  next
    case (Inr x)
    from assms(1) Pair Inr obtain e1 where e1: "trace w1 = trace w @ e1" "proj sel e1 = s1"
      by (auto simp: emits_def)
    from assms(2) [OF Pair [unfolded Inr]] obtain e2 where
      e2: "trace (snd (k x w1)) = trace w1 @ e2" "prefix (proj sel e2) s2"
          "\<not> isl (fst (k x w1)) \<longrightarrow> proj sel e2 = s2"
      by (auto simp: emits_def)
    show ?thesis
      unfolding emits_def
      by (rule exI [of _ "e1 @ e2"]) (use e1 e2 Pair Inr assms(3) in \<open>auto simp: andthen_def\<close>)
  qed
qed

lemma emits_host:
  assumes "emits sel s (host a w) res" and "script = opt sel a @ s"
  shows "emits sel script w res"
  using assms by (auto simp: emits_def host_def)

lemma emits_usleep:
  assumes "emits sel s (g_usleep env us w) res" and "script = opt sel (Usleep us) @ s"
  shows "emits sel script w res"
  using assms by (auto simp: emits_def g_usleep_def perform_def Let_def)

lemma emits_pwrite_full: "emits sel (opt sel (Pwrite bs)) w (fu_udev_device_pwrite_full env bs w)"
  by (auto simp: emits_def fu_udev_device_pwrite_full_def perform_def Let_def split: sum.splits)

lemma emits_pread_full: "emits sel (opt sel (Pread n)) w (fu_udev_device_pread_full env n w)"
  by (auto simp: emits_def fu_udev_device_pread_full_def perform_def Let_def split: sum.splits)

lemma emits_pwrite: "emits sel (opt sel (Pwrite [b])) w (fu_udev_device_pwrite env b w)"
  by (simp add: fu_udev_device_pwrite_def emits_pwrite_full)

lemma emits_pread: "emits sel (opt sel (Pread 1)) w (fu_udev_device_pread env w)"
  using emits_pread_full [of sel 1 w env]
  by (auto simp: emits_def fu_udev_device_pread_def split: prod.splits sum.splits)

lemma emits_write_register:
  "emits sel (opt sel (Pwrite [a, v])) w (mst_write_register env a v w)"
  by (simp add: mst_write_register_def emits_pwrite_full)

lemma emits_read_register:
  "emits sel (opt sel (Pwrite [a]) @ opt sel (Pread 1)) w (mst_read_register env a w)"
  unfolding mst_read_register_def
  by (rule emits_andthen [OF emits_pwrite emits_pread]) simp

lemma emits_exec_host: "emits sel (opt sel a) w (exec (host a) w)"
  by (simp add: emits_def exec_def host_def)

lemma emits_set_status: "emits sel (opt sel (SetStatus st)) w (exec (fu_device_set_status st) w)"
  by (simp add: emits_def exec_def host_def fu_device_set_status_def)

lemma emits_debug: "emits sel (opt sel (Debug m)) w (exec (g_debug m) w)"
  by (simp add: emits_def exec_def host_def g_debug_def)

lemma emits_exec_usleep: "emits sel (opt sel (Usleep us)) w (exec (g_usleep env us) w)"
  by (simp add: emits_def exec_def g_usleep_def perform_def Let_def)

lemma emits_return_if_fail: "emits sel [] w (g_return_val_if_fail c w)"
  by (simp add: emits_def g_return_val_if_fail_def)

lemma emits_g_prefix_error: "emits sel s w (m w) \<Longrightarrow> emits sel s w (g_prefix_error pre m w)"
  by (auto simp: emits_def g_prefix_error_def split: prod.splits sum.splits)

lemma poll_loop_unfold:
  "mst_poll_register_loop env a m e dl v now w =
     (if v AND m \<noteq> e \<and> not_after now dl then
        andthen (mst_read_register env a)
          (\<lambda>v'. mst_poll_register_loop env a m e dl v' (clock_gettime (g_usleep env G_TIME_SPAN_MILLISECOND w)))
          (g_usleep env G_TIME_SPAN_MILLISECOND w)
      else (Inr v, w))"
  by (subst mst_poll_register_loop.simps)
     (simp add: andthen_def Let_def split: prod.splits sum.splits)

lemma poll_unfold:
  "mst_poll_register env a m e t w =
     andthen (mst_read_register env a) (\<lambda>v.
     andthen (mst_poll_register_loop env a m e
                \<lparr>tv_sec = tv_sec (clock_gettime w) + t, tv_nsec = tv_nsec (clock_gettime w)\<rparr> v (clock_gettime w))
       (\<lambda>v' w2. if v' AND m = e then (Inr (), w2) else (Inl (TimedOut a v' t e m), w2))) w"
  by (simp add: mst_poll_register_def andthen_def Let_def split: prod.splits sum.splits)

lemma emits_trans:
  assumes "emits sel s1 w (Inr x, w1)" and "emits sel s2 w1 res" and "script = s1 @ s2"
  shows "emits sel script w res"
  using assms by (auto simp: emits_def)

lemma emits_read_register_quiet:
  assumes "opt sel (Pwrite [a]) = []" "opt sel (Pread 1) = []"
  shows "emits sel [] w (mst_read_register env a w)"
  using emits_read_register [of sel a w env] unfolding assms by simp

lemma emits_poll_loop:
  assumes "opt sel (Pwrite [a]) = []" "opt sel (Pread 1) = []" "opt sel (Usleep G_TIME_SPAN_MILLISECOND) = []"
  shows "emits sel [] w (mst_poll_register_loop env a m e dl v now w)"
  using assms
proof (induction env a m e dl v now w rule: mst_poll_register_loop.induct)
  case (1 env a m e dl v now w)
  note q = "1.prems"
  show ?case
  proof (cases "v AND m \<noteq> e \<and> not_after now dl")
    case False
    then show ?thesis
      by (subst poll_loop_unfold) (auto simp: emits_ok)
  next
    case True
    let ?w1 = "g_usleep env G_TIME_SPAN_MILLISECOND w"
    have sl: "emits sel [] w (Inr (), ?w1)"
      using emits_exec_usleep [of sel G_TIME_SPAN_MILLISECOND w env] unfolding q by (simp add: exec_def)
    have rd: "emits sel [] ?w1 (mst_read_register env a ?w1)"
      by (rule emits_read_register_quiet [OF q(1,2)])
    have body: "emits sel [] ?w1
       (andthen (mst_read_register env a)
          (\<lambda>v'. mst_poll_register_loop env a m e dl v' (clock_gettime ?w1)) ?w1)"
    proof (rule emits_andthen [where ?s1.0 = "[]" and ?s2.0 = "[]"])
      show "emits sel [] ?w1 (mst_read_register env a ?w1)" by (rule rd)
    next
      fix x w2
      assume "mst_read_register env a ?w1 = (Inr x, w2)"
      then show "emits sel [] w2 (mst_poll_register_loop env a m e dl x (clock_gettime ?w1) w2)"
        using "1.IH" [OF True refl refl _ refl q] by simp
    qed simp
    show ?thesis
      by (subst poll_loop_unfold) (use True emits_trans [OF sl body] in simp)
  qed
qed

lemma emits_poll:
  assumes q: "opt sel (Pwrite [a]) = []" "opt sel (Pread 1) = []" "opt sel (Usleep G_TIME_SPAN_MILLISECOND) = []"
  shows "emits sel [] w (mst_poll_register env a m e t w)"
  unfolding poll_unfold
  apply (rule emits_andthen [where ?s1.0 = "[]" and ?s2.0 = "[]"])
    apply (rule emits_read_register_quiet [OF q(1,2)])
   apply (rule emits_andthen [where ?s1.0 = "[]" and ?s2.0 = "[]"])
     apply (rule emits_poll_loop [OF q])
    apply (simp add: emits_ok emits_fail)
   apply simp
  apply simp
  done

lemma emits_write_register_multi:
  "emits sel (opt sel (Pwrite (a # take n data))) w (mst_write_register_multi env a data n w)"
  by (simp add: mst_write_register_multi_def emits_pwrite_full)

lemma opt_reg_write [simp]:
  "opt reg_write (Pwrite [a]) = []"
  "opt reg_write (Pwrite (a # v # vs)) = [(a, v # vs)]"
  "opt reg_write (Pread n) = []"
  "opt reg_write (Usleep us) = []"
  "opt reg_write (SetStatus st) = []"
  "opt reg_write (SetProgress d t) = []"
  "opt reg_write (Debug m) = []"
  by (simp_all add: opt_def)

lemma opt_flash_op_of [simp]:
  "opt flash_op_of (Pwrite bs) = []"
  "opt flash_op_of (Pread n) = []"
  "opt flash_op_of (Usleep us) = []"
  "opt flash_op_of (SetStatus st) = []"
  "opt flash_op_of (SetProgress d t) = []"
  "opt flash_op_of (Debug m) = [m]"
  by (simp_all add: opt_def)

lemma opt_bus_op [simp]:
  "opt bus_op (Pwrite bs) = [Pwrite bs]"
  "opt bus_op (Pread n) = [Pread n]"
  "opt bus_op (Usleep us) = []"
  "opt bus_op (SetStatus st) = []"
  "opt bus_op (SetProgress d t) = []"
  "opt bus_op (Debug m) = []"
  by (simp_all add: opt_def)

lemma poll_quiet_reg: "emits reg_write [] w (mst_poll_register env a m e t w)"
  by (rule emits_poll) simp_all

lemma poll_quiet_flash: "emits flash_op_of [] w (mst_poll_register env a m e t w)"
  by (rule emits_poll) simp_all

lemmas emits_prims =
  emits_return_if_fail emits_debug emits_set_status emits_write_register emits_write_register_multi
  emits_pwrite emits_pread emits_pread_full emits_exec_usleep

lemma erase_sector_reg:
  "emits reg_write (erase_sector_script address) w (flash_iface_erase_sector env address w)"
  unfolding flash_iface_erase_sector_def
  apply ((rule emits_andthen, rule emits_prims)+, rule poll_quiet_reg, (rule refl)+)
  apply (simp add: erase_sector_script_def addr_script_def)
  done

lemma erase_sector_flash:
  "emits flash_op_of [OpEraseSector address] w (flash_iface_erase_sector env address w)"
  unfolding flash_iface_erase_sector_def
  apply ((rule emits_andthen, rule emits_prims)+, rule poll_quiet_flash, (rule refl)+)
  apply simp
  done

lemma erase_block_reg:
  "emits reg_write (erase_block_script address) w (flash_iface_erase_block env address w)"
  unfolding flash_iface_erase_block_def
  apply ((rule emits_andthen, rule emits_prims)+, rule poll_quiet_reg, (rule refl)+)
  apply (simp add: erase_block_script_def)
  done

lemma erase_block_flash:
  "emits flash_op_of [OpEraseBlock address] w (flash_iface_erase_block env address w)"
  unfolding flash_iface_erase_block_def
  apply ((rule emits_andthen, rule emits_prims)+, rule poll_quiet_flash, (rule refl)+)
  apply simp
  done

lemma read_loop_unfold:
  "flash_iface_read_loop env buf_size bytes_read buf w =
     (if bytes_read < buf_size then
        andthen (fu_udev_device_pread_full env (min 256 (buf_size - bytes_read))) (\<lambda>bs.
        andthen (exec (fu_device_set_progress_full (bytes_read + min 256 (buf_size - bytes_read)) buf_size)) (\<lambda>_.
        flash_iface_read_loop env buf_size (bytes_read + min 256 (buf_size - bytes_read)) (buf @ bs))) w
      else (Inr buf, w))"
  by (subst flash_iface_read_loop.simps)
     (auto simp: andthen_def exec_def Let_def min_def split: prod.splits sum.splits)

lemma emits_set_progress:
  "emits sel (opt sel (SetProgress d t)) w (exec (fu_device_set_progress_full d t) w)"
  by (simp add: emits_def exec_def host_def fu_device_set_progress_full_def)

lemma emits_read_loop:
  "emits sel (concat (map (\<lambda>(n, d). opt sel (Pread n) @ opt sel (SetProgress d buf_size))
                      (read_steps buf_size bytes_read)))
     w (flash_iface_read_loop env buf_size bytes_read buf w)"
proof (induction buf_size bytes_read arbitrary: buf w rule: read_steps.induct)
  case (1 buf_size bytes_read)
  show ?case
  proof (cases "bytes_read < buf_size")
    case False
    then show ?thesis
      by (subst read_loop_unfold, subst read_steps.simps) (simp add: emits_ok)
  next
    case True
    show ?thesis
      apply (subst read_loop_unfold, subst read_steps.simps)
      apply (simp only: True if_True Let_def)
      apply (rule emits_andthen, rule emits_pread_full)
       apply (rule emits_andthen, rule emits_set_progress)
        apply (rule "1.IH" [OF True refl])
       apply (rule refl)
      apply simp
      done
  qed
qed

lemma concat_map_Nil: "concat (map (\<lambda>(a, b). []) xs) = []"
  by (induction xs) auto

lemma read_loop_quiet:
  assumes "\<And>n. opt sel (Pread n) = []" "\<And>d t. opt sel (SetProgress d t) = []"
  shows "emits sel [] w (flash_iface_read_loop env buf_size bytes_read buf w)"
  using emits_read_loop [of sel buf_size bytes_read w env buf] by (simp add: assms concat_map_Nil)

lemma read_loop_bus:
  "emits bus_op (map (\<lambda>(n, d). Pread n) (read_steps buf_size bytes_read))
     w (flash_iface_read_loop env buf_size bytes_read buf w)"
proof -
  have "concat (map (\<lambda>(n, d). opt bus_op (Pread n) @ opt bus_op (SetProgress d buf_size)) xs)
        = map (\<lambda>(n, d). Pread n) xs" for xs :: "(nat \<times> nat) list"
    by (induction xs) auto
  then show ?thesis
    using emits_read_loop [of bus_op buf_size bytes_read w env buf] by simp
qed

lemma read_reg:
  "emits reg_write (read_script address) w (flash_iface_read env address buf_size w)"
  unfolding flash_iface_read_def Let_def
  apply ((rule emits_andthen, rule emits_prims)+, rule read_loop_quiet, simp, simp, (rule refl)+)
  apply (simp add: read_script_def addr_script_def)
  done

lemma read_flash:
  "emits flash_op_of [OpRead address buf_size] w (flash_iface_read env address buf_size w)"
  unfolding flash_iface_read_def Let_def
  apply ((rule emits_andthen, rule emits_prims)+, rule read_loop_quiet, simp, simp, (rule refl)+)
  apply simp
  done

lemma read_bus:
  "emits bus_op (read_bus_script address buf_size) w (flash_iface_read env address buf_size w)"
  unfolding flash_iface_read_def Let_def
  apply ((rule emits_andthen, rule emits_prims)+, rule read_loop_bus, (rule refl)+)
  apply (simp add: read_bus_script_def)
  done

lemma write_chunk_reg:
  "emits reg_write
     ([(REG_WRITE_OPCODE, [CMD_OPCODE_WRITE]), (REG_WRITE_LEN, [of_nat (n - 1)])] @
      addr_script address @ opt reg_write (Pwrite (REG_WRITE_FIFO # take n data)) @ [(REG_MCU_MODE, [0xA0])])
     w (flash_iface_write_chunk env address data n w)"
  unfolding flash_iface_write_chunk_def
  apply (rule emits_andthen, rule emits_prims)+
          apply (rule emits_andthen, rule poll_quiet_reg)
           apply (rule emits_andthen, rule emits_prims)+
             apply (rule emits_g_prefix_error, rule poll_quiet_reg)
            apply (rule refl)+
  apply (simp add: addr_script_def)
  done

lemma write_chunk_flash:
  "emits flash_op_of [] w (flash_iface_write_chunk env address data n w)"
  unfolding flash_iface_write_chunk_def
  apply (rule emits_andthen, rule emits_prims)+
          apply (rule emits_andthen, rule poll_quiet_flash)
           apply (rule emits_andthen, rule emits_prims)+
             apply (rule emits_g_prefix_error, rule poll_quiet_flash)
            apply (rule refl)+
  apply simp
  done

lemma write_loop_unfold:
  "flash_iface_write_loop env total_size address data_bytes remaining_size w =
     (if remaining_size > 0 then
        andthen (flash_iface_write_chunk env address data_bytes (min 256 remaining_size)) (\<lambda>_.
        andthen (exec (fu_device_set_progress_full
                         (total_size - (remaining_size - min 256 remaining_size)) total_size)) (\<lambda>_.
        flash_iface_write_loop env total_size (address + of_nat (min 256 remaining_size))
          (drop (min 256 remaining_size) data_bytes) (remaining_size - min 256 remaining_size))) w
      else (Inr (), w))"
  by (subst flash_iface_write_loop.simps)
     (auto simp: andthen_def exec_def Let_def min_def split: prod.splits sum.splits)

lemma write_loop_generic:
  assumes chunk: "\<And>address data w. data \<noteq> [] \<Longrightarrow>
            emits sel (C address (take 256 data)) w
              (flash_iface_write_chunk env address data (min 256 (length data)) w)"
    and prog: "\<And>d t. opt sel (SetProgress d t) = []"
  shows "remaining_size = length data \<Longrightarrow>
         emits sel (concat (map (\<lambda>(a, c). C a c) (pages address data))) w
           (flash_iface_write_loop env total_size address data remaining_size w)"
proof (induction address data arbitrary: remaining_size w rule: pages.induct)
  case (1 address data)
  show ?case
  proof (cases "data = []")
    case True
    then show ?thesis using 1(2)
      by (subst write_loop_unfold, subst pages.simps) (simp add: emits_ok)
  next
    case False
    have m: "min 256 (length data) = 256 \<or> drop (min 256 (length data)) data = []"
      by (auto simp: min_def)
    have p: "pages (address + of_nat (min 256 (length data))) (drop (min 256 (length data)) data)
             = pages (address + 256) (drop 256 data)"
      using m by (auto simp: pages.simps [of _ "[]"] min_def)
    have ih: "emits sel (concat (map (\<lambda>(a, c). C a c) (pages (address + 256) (drop 256 data)))) w'
           (flash_iface_write_loop env total_size (address + of_nat (min 256 (length data)))
              (drop (min 256 (length data)) data) (length data - min 256 (length data)) w')" for w'
    proof (cases "min 256 (length data) = 256")
      case True
      then show ?thesis using "1.IH" [OF False, of "length data - 256" w'] by simp
    next
      case False
      then have "length data - min 256 (length data) = 0" by (auto simp: min_def)
      moreover have "drop 256 data = []" using False by (auto simp: min_def split: if_splits)
      ultimately show ?thesis
        by (subst write_loop_unfold) (simp add: pages.simps [of _ "[]"] emits_ok)
    qed
    have L: "flash_iface_write_loop env total_size address data remaining_size w =
        andthen (flash_iface_write_chunk env address data (min 256 (length data))) (\<lambda>_.
        andthen (exec (fu_device_set_progress_full
                         (total_size - (length data - min 256 (length data))) total_size)) (\<lambda>_.
        flash_iface_write_loop env total_size (address + of_nat (min 256 (length data)))
          (drop (min 256 (length data)) data) (length data - min 256 (length data)))) w"
      using False 1(2) by (subst write_loop_unfold) simp
    have P: "pages address data = (address, take 256 data) # pages (address + 256) (drop 256 data)"
      using False by (subst pages.simps) simp
    show ?thesis
      unfolding L P
      apply (rule emits_andthen, rule chunk [OF False])
       apply (rule emits_andthen, rule emits_set_progress)
        apply (rule ih)
       apply (rule refl)
      apply (simp add: prog)
      done
  qed
qed

lemma concat_map_Nil2: "concat (map (\<lambda>(a, c). (\<lambda>_ _. []) a c) xs) = []"
  by (induction xs) auto

lemma write_chunk_page:
  assumes "data \<noteq> []"
  shows "emits reg_write (page_script address (take 256 data)) w
           (flash_iface_write_chunk env address data (min 256 (length data)) w)"
proof -
  have t: "take (min 256 (length data)) data = take 256 data"
    by (simp add: min_def)
  obtain x xs where c: "take 256 data = x # xs"
    using assms by (cases data) auto
  have l: "length (take 256 data) = min 256 (length data)"
    by (simp add: min.commute)
  have "opt reg_write (Pwrite (REG_WRITE_FIFO # take (min 256 (length data)) data))
        = [(REG_WRITE_FIFO, take 256 data)]"
    unfolding t c by simp
  then show ?thesis
    using write_chunk_reg [where address = address and n = "min 256 (length data)" and data = data
        and w = w and env = env]
    by (simp add: page_script_def min.commute)
qed

lemma write_reg:
  "emits reg_write (write_script address data) w (flash_iface_write env address data w)"
  unfolding flash_iface_write_def write_script_def
  apply (rule emits_andthen, rule emits_debug)
   apply (rule write_loop_generic [where C = page_script])
     apply (rule write_chunk_page, assumption)
    apply simp
   apply (rule refl)
  apply simp
  done

lemma write_flash:
  "emits flash_op_of [OpWrite address (length data)] w (flash_iface_write env address data w)"
  unfolding flash_iface_write_def
  apply (rule emits_andthen, rule emits_debug)
   apply (rule write_loop_generic [where C = "\<lambda>_ _. []"])
     apply (rule write_chunk_flash)
    apply simp
   apply (rule refl)
  apply (simp add: concat_map_Nil)
  done

lemma erase_old_image_once:
  "erase_old_image env base_addr 0 w =
     andthen (exec (fu_device_set_progress_full 0 FLASH_USER_SIZE)) (\<lambda>_.
     flash_iface_erase_block env base_addr) w"
proof -
  have "erase_old_image env base_addr 0x70000 w' = (Inr (), w')" for w'
    by (subst erase_old_image.simps) simp
  then show ?thesis
    by (subst erase_old_image.simps)
       (simp add: andthen_def exec_def split: prod.splits sum.splits)
qed

lemma erase_old_image_flash:
  "emits flash_op_of [OpEraseBlock base_addr] w (erase_old_image env base_addr 0 w)"
  unfolding erase_old_image_once
  apply (rule emits_andthen, rule emits_set_progress, rule erase_block_flash)
  apply simp
  done

lemma write_firmware_flash:
  "emits flash_op_of (update_ops (active_bank w)) w
     (fu_realtek_mst_device_write_firmware env (Inr fw) w)"
proof (cases "length fw = FLASH_USER_SIZE")
  case False
  then show ?thesis
    by (simp add: fu_realtek_mst_device_write_firmware_def Let_def andthen_def
        g_return_val_if_fail_def emits_fail)
next
  case True
  have tail: "emits flash_op_of
        [OpEraseSector (target_flag (active_bank w) AND NOT (SECTOR_SIZE - 1)),
         OpWrite (target_flag (active_bank w)) 5] w3
        ((if fw \<noteq> rb then
            (\<lambda>w'. (Inl (FwupdWrite ''flash contents after write do not match firmware image''), w'))
          else
            andthen (exec (fu_device_set_status FWUPD_STATUS_DEVICE_ERASE)) (\<lambda>_.
            andthen (flash_iface_erase_sector env (target_flag (active_bank w) AND NOT (SECTOR_SIZE - 1))) (\<lambda>_.
            andthen (exec (fu_device_set_status FWUPD_STATUS_DEVICE_WRITE)) (\<lambda>_.
            flash_iface_write env (target_flag (active_bank w)) flag_data)))) w3)" for rb w3
  proof (cases "fw \<noteq> rb")
    case True
    then show ?thesis by (simp add: emits_fail)
  next
    case False
    show ?thesis
      apply (simp only: False if_False)
      apply (rule emits_andthen, rule emits_set_status)
       apply (rule emits_andthen, rule erase_sector_flash)
        apply (rule emits_andthen, rule emits_set_status)
         apply (rule write_flash)
        apply (rule refl)+
      apply simp
      done
  qed
  show ?thesis
    unfolding fu_realtek_mst_device_write_firmware_def Let_def sum.case
      target_base_def [symmetric] target_flag_def [symmetric]
    apply (rule emits_andthen, rule emits_return_if_fail)
     apply (rule emits_andthen, rule emits_set_status)
      apply (rule emits_andthen, rule erase_old_image_flash)
       apply (rule emits_andthen, rule emits_set_status)
        apply (rule emits_andthen, rule write_flash)
         apply (rule emits_andthen, rule emits_set_status)
          apply (rule emits_andthen, rule read_flash)
           apply (rule tail)
          apply (rule refl)+
    apply (simp add: update_ops_def True)
    done
qed

subsection \<open>Runs on the bus that reads as zero\<close>

lemma returns_andthen:
  assumes "returns m x" and "returns (k x) y"
  shows "returns (andthen m k) y"
  unfolding returns_def
proof
  fix w
  obtain r w1 where mw: "m w = (r, w1)" by (cases "m w")
  with assms(1) have "r = Inr x" by (auto simp: returns_def dest: spec [of _ w])
  with mw assms(2) show "fst (andthen m k w) = Inr y"
    by (simp add: andthen_def returns_def)
qed

lemma returns_exec: "returns (exec f) ()"
  by (simp add: returns_def exec_def)

lemma returns_check: "c \<Longrightarrow> returns (g_return_val_if_fail c) ()"
  by (simp add: returns_def g_return_val_if_fail_def)

lemma zero_pwrite_full: "returns (fu_udev_device_pwrite_full zero_env bs) ()"
  by (simp add: returns_def fu_udev_device_pwrite_full_def perform_def zero_env_def Let_def)

lemma zero_pwrite: "returns (fu_udev_device_pwrite zero_env b) ()"
  using zero_pwrite_full by (simp add: returns_def fu_udev_device_pwrite_def)

lemma zero_pread_full: "returns (fu_udev_device_pread_full zero_env n) (replicate n 0)"
  by (simp add: returns_def fu_udev_device_pread_full_def perform_def zero_env_def Let_def)

lemma zero_pread: "returns (fu_udev_device_pread zero_env) 0"
  unfolding returns_def
proof
  fix w
  obtain r w1 where mw: "fu_udev_device_pread_full zero_env 1 w = (r, w1)"
    by (cases "fu_udev_device_pread_full zero_env 1 w")
  with zero_pread_full [of 1] have "r = Inr [0]"
    by (auto simp: returns_def dest: spec [of _ w])
  with mw show "fst (fu_udev_device_pread zero_env w) = Inr 0"
    by (simp add: fu_udev_device_pread_def)
qed

lemma zero_write_register: "returns (mst_write_register zero_env a v) ()"
  using zero_pwrite_full by (simp add: returns_def mst_write_register_def)

lemma zero_write_register_multi: "returns (mst_write_register_multi zero_env a data n) ()"
  using zero_pwrite_full by (simp add: returns_def mst_write_register_multi_def)

lemma zero_read_register: "returns (mst_read_register zero_env a) 0"
  using returns_andthen [OF zero_pwrite zero_pread]
  by (simp add: returns_def mst_read_register_def)

lemma zero_poll: "returns (mst_poll_register zero_env a m 0 t) ()"
  unfolding returns_def
proof
  fix w
  have l: "mst_poll_register_loop zero_env a m 0 dl 0 now w1 = (Inr 0, w1)" for dl now w1
    by (subst poll_loop_unfold) simp
  have "returns (andthen (mst_read_register zero_env a) (\<lambda>v.
     andthen (mst_poll_register_loop zero_env a m 0
                \<lparr>tv_sec = tv_sec (clock_gettime w) + t, tv_nsec = tv_nsec (clock_gettime w)\<rparr> v (clock_gettime w))
       (\<lambda>v' w2. if v' AND m = 0 then (Inr (), w2) else (Inl (TimedOut a v' t 0 m), w2)))) ()"
    by (rule returns_andthen [OF zero_read_register]) (simp add: returns_def andthen_def l)
  then show "fst (mst_poll_register zero_env a m 0 t w) = Inr ()"
    unfolding poll_unfold by (simp add: returns_def)
qed

lemma returns_g_prefix_error: "returns m x \<Longrightarrow> returns (g_prefix_error pre m) x"
  unfolding returns_def g_prefix_error_def
  by (auto split: prod.splits sum.splits) (metis fst_conv Inl_Inr_False sum.inject(2))+

lemmas zero_prims =
  returns_exec zero_pwrite_full zero_pwrite zero_pread_full zero_pread zero_write_register
  zero_write_register_multi zero_read_register zero_poll

lemma zero_erase_block:
  "address AND 0xFFFF = 0 \<Longrightarrow> returns (flash_iface_erase_block zero_env address) ()"
  unfolding flash_iface_erase_block_def
  by (rule returns_andthen, erule returns_check, (rule returns_andthen, rule zero_prims)+, rule zero_poll)

lemma zero_erase_sector:
  "address AND 0xFFF = 0 \<Longrightarrow> returns (flash_iface_erase_sector zero_env address) ()"
  unfolding flash_iface_erase_sector_def
  by (rule returns_andthen, erule returns_check, (rule returns_andthen, rule zero_prims)+, rule zero_poll)

lemma zero_write_chunk: "returns (flash_iface_write_chunk zero_env address data n) ()"
  unfolding flash_iface_write_chunk_def
  by ((rule returns_andthen, rule zero_prims)+, rule returns_g_prefix_error, rule zero_poll)

lemma zero_write_loop:
  "returns (flash_iface_write_loop zero_env total_size address data remaining) ()"
proof (induction remaining arbitrary: address data rule: less_induct)
  case (less remaining)
  show ?case
  proof (cases "remaining > 0")
    case False
    then show ?thesis
      by (simp add: returns_def write_loop_unfold)
  next
    case True
    then have "remaining - min 256 remaining < remaining" by (simp add: min_def)
    note ih = less.IH [OF this]
    have "returns (andthen (flash_iface_write_chunk zero_env address data (min 256 remaining)) (\<lambda>_.
        andthen (exec (fu_device_set_progress_full
                         (total_size - (remaining - min 256 remaining)) total_size)) (\<lambda>_.
        flash_iface_write_loop zero_env total_size (address + of_nat (min 256 remaining))
          (drop (min 256 remaining) data) (remaining - min 256 remaining)))) ()"
      by (rule returns_andthen, rule zero_write_chunk, rule returns_andthen, rule returns_exec, rule ih)
    then show ?thesis
      using True unfolding returns_def by (subst write_loop_unfold) simp
  qed
qed

lemma zero_write: "returns (flash_iface_write zero_env address data) ()"
  unfolding flash_iface_write_def
  by (rule returns_andthen, rule returns_exec, rule zero_write_loop)

lemma zero_read_loop:
  "bytes_read \<le> buf_size \<Longrightarrow>
   returns (flash_iface_read_loop zero_env buf_size bytes_read buf) (buf @ replicate (buf_size - bytes_read) 0)"
proof (induction buf_size bytes_read arbitrary: buf rule: read_steps.induct)
  case (1 buf_size bytes_read)
  show ?case
  proof (cases "bytes_read < buf_size")
    case False
    then show ?thesis using 1(2)
      by (simp add: returns_def read_loop_unfold)
  next
    case True
    let ?n = "min 256 (buf_size - bytes_read)"
    have le: "bytes_read + ?n \<le> buf_size" using True by (auto simp: min_def)
    have eq: "(buf @ replicate ?n 0) @ replicate (buf_size - (bytes_read + ?n)) 0
              = buf @ replicate (buf_size - bytes_read) (0::u8)"
      using le by (simp add: replicate_add [symmetric] del: replicate_add)
    have "returns (andthen (fu_udev_device_pread_full zero_env ?n) (\<lambda>bs.
        andthen (exec (fu_device_set_progress_full (bytes_read + ?n) buf_size)) (\<lambda>_.
        flash_iface_read_loop zero_env buf_size (bytes_read + ?n) (buf @ bs))))
        (buf @ replicate (buf_size - bytes_read) 0)"
      apply (rule returns_andthen, rule zero_pread_full, rule returns_andthen, rule returns_exec)
      using "1.IH" [OF True refl le, of "buf @ replicate ?n 0"] unfolding eq .
    then show ?thesis
      using True unfolding returns_def by (subst read_loop_unfold) simp
  qed
qed

lemma zero_read:
  assumes "unat address < FLASH_SIZE" "buf_size \<le> FLASH_SIZE"
  shows "returns (flash_iface_read zero_env address buf_size) (replicate buf_size 0)"
  unfolding flash_iface_read_def Let_def
  apply (rule returns_andthen, rule returns_check, rule assms(1))
  apply (rule returns_andthen, rule returns_check, rule assms(2))
  apply (rule returns_andthen, rule zero_prims)+
  using zero_read_loop [of 0 buf_size "[]"] apply simp
  done

subsection \<open>The update sequence\<close>

lemma emitsD:
  assumes "emits sel script w (r, w')"
  shows "prefix (proj sel (new_entries w w')) script"
    and "\<not> isl r \<Longrightarrow> proj sel (new_entries w w') = script"
  using assms by (auto simp: emits_def new_entries_def)

lemma emits_new:
  assumes "emits sel script w res" and "fst res = Inr x"
  shows "proj sel (new_entries w (snd res)) = script"
  using assms by (auto simp: emits_def new_entries_def)

lemma update_ops_user1:
  "update_ops FLASH_BANK_USER1 =
     [OpEraseBlock 0x80000, OpWrite 0x80000 0x70000, OpRead 0x80000 0x70000,
      OpEraseSector 0xFF000, OpWrite 0xFF304 5]"
  by (simp add: update_ops_def target_base_def target_flag_def)

lemma update_ops_other:
  "active \<noteq> FLASH_BANK_USER1 \<Longrightarrow> update_ops active =
     [OpEraseBlock 0x10000, OpWrite 0x10000 0x70000, OpRead 0x10000 0x70000,
      OpEraseSector 0xFE000, OpWrite 0xFE304 5]"
  by (simp add: update_ops_def target_base_def target_flag_def)

lemma update_ops_disjoint:
  "op \<in> set (update_ops active) \<Longrightarrow> modified op \<inter> (bank_image active \<union> bank_flag active) = {}"
proof (cases "active = FLASH_BANK_USER1")
  case True
  assume "op \<in> set (update_ops active)"
  then show ?thesis
    unfolding True update_ops_user1 by (auto simp: bank_image_def bank_flag_def)
next
  case False
  assume "op \<in> set (update_ops active)"
  then show ?thesis
    unfolding update_ops_other [OF False] using False by (auto simp: bank_image_def bank_flag_def)
qed

lemma write_firmware_flash_any:
  "emits flash_op_of (update_ops (active_bank w)) w
     (fu_realtek_mst_device_write_firmware env firmware_bytes w)"
proof (cases firmware_bytes)
  case (Inl e)
  then show ?thesis
    by (simp add: fu_realtek_mst_device_write_firmware_def Let_def emits_fail)
next
  case (Inr fw)
  then show ?thesis by (simp add: write_firmware_flash)
qed

lemma returnsD: "returns m x \<Longrightarrow> fst (m w) = Inr x"
  by (simp add: returns_def)

lemma run_script:
  assumes "emits sel script w (m w)" and "returns m x"
  shows "proj sel (new_entries w (snd (m w))) = script"
  using emits_new [OF assms(1) returnsD [OF assms(2)]] .

lemma zero_erase_old_image:
  "base_addr AND 0xFFFF = 0 \<Longrightarrow> returns (erase_old_image zero_env base_addr 0) ()"
  using returns_andthen [OF returns_exec zero_erase_block]
  by (simp add: returns_def erase_old_image_once)

lemma zero_update_body:
  assumes "base_addr AND 0xFFFF = 0" "unat base_addr < FLASH_SIZE"
    and "(flag_addr AND NOT (SECTOR_SIZE - 1)) AND 0xFFF = 0"
  shows "returns
     (andthen (g_return_val_if_fail (length (replicate FLASH_USER_SIZE (0::u8)) = FLASH_USER_SIZE)) (\<lambda>_.
      andthen (exec (fu_device_set_status FWUPD_STATUS_DEVICE_ERASE)) (\<lambda>_.
      andthen (erase_old_image zero_env base_addr 0) (\<lambda>_.
      andthen (exec (fu_device_set_status FWUPD_STATUS_DEVICE_WRITE)) (\<lambda>_.
      andthen (flash_iface_write zero_env base_addr (replicate FLASH_USER_SIZE 0)) (\<lambda>_.
      andthen (exec (fu_device_set_status FWUPD_STATUS_DEVICE_VERIFY)) (\<lambda>_.
      andthen (flash_iface_read zero_env base_addr FLASH_USER_SIZE) (\<lambda>readback_buf.
        if replicate FLASH_USER_SIZE 0 \<noteq> readback_buf then
          (\<lambda>w'. (Inl (FwupdWrite ''flash contents after write do not match firmware image''), w'))
        else
          andthen (exec (fu_device_set_status FWUPD_STATUS_DEVICE_ERASE)) (\<lambda>_.
          andthen (flash_iface_erase_sector zero_env (flag_addr AND NOT (SECTOR_SIZE - 1))) (\<lambda>_.
          andthen (exec (fu_device_set_status FWUPD_STATUS_DEVICE_WRITE)) (\<lambda>_.
          flash_iface_write zero_env flag_addr flag_data))))))))))) ()"
  apply (rule returns_andthen, rule returns_check, simp)
  apply (rule returns_andthen, rule returns_exec)
  apply (rule returns_andthen, rule zero_erase_old_image [OF assms(1)])
  apply (rule returns_andthen, rule returns_exec)
  apply (rule returns_andthen, rule zero_write)
  apply (rule returns_andthen, rule returns_exec)
  apply (rule returns_andthen, rule zero_read [OF assms(2)], simp)
  apply (simp only: simp_thms if_False)
  apply (rule returns_andthen, rule returns_exec)
  apply (rule returns_andthen, rule zero_erase_sector [OF assms(3)])
  apply (rule returns_andthen, rule returns_exec)
  apply (rule zero_write)
  done

lemma zero_update:
  "fst (fu_realtek_mst_device_write_firmware zero_env (Inr (replicate FLASH_USER_SIZE 0)) w) = Inr ()"
proof (cases "active_bank w = FLASH_BANK_USER1")
  case True
  show ?thesis
    unfolding fu_realtek_mst_device_write_firmware_def Let_def sum.case True if_True
    by (rule returnsD [OF zero_update_body]) simp_all
next
  case False
  show ?thesis
    unfolding fu_realtek_mst_device_write_firmware_def Let_def sum.case
    apply (simp only: False if_False)
    by (rule returnsD [OF zero_update_body]) simp_all
qed

subsection \<open>Pages and the order of address and opcode\<close>

lemma pages_Nil: "pages address [] = []"
  by (subst pages.simps) simp

lemma pages_single: "data \<noteq> [] \<Longrightarrow> length data \<le> 256 \<Longrightarrow> pages address data = [(address, data)]"
  by (subst pages.simps) (simp add: pages_Nil)

lemma pages_chunk_size:
  "(a, chunk) \<in> set (pages address data) \<Longrightarrow> 1 \<le> length chunk \<and> length chunk \<le> 256"
proof (induction address data rule: pages.induct)
  case (1 address data)
  show ?case
  proof (cases "data = []")
    case True
    then show ?thesis using 1(2) by (simp add: pages_Nil)
  next
    case False
    have "pages address data = (address, take 256 data) # pages (address + 256) (drop 256 data)"
      using False by (subst pages.simps) simp
    then consider "chunk = take 256 data" | "(a, chunk) \<in> set (pages (address + 256) (drop 256 data))"
      using 1(2) by auto
    then show ?thesis
    proof cases
      case 1
      then show ?thesis using False by (cases data) (auto simp: min_def)
    next
      case 2
      then show ?thesis using "1.IH" [OF False] by simp
    qed
  qed
qed

lemma pages_concat: "concat (map snd (pages address data)) = data"
proof (induction address data rule: pages.induct)
  case (1 address data)
  show ?case
  proof (cases "data = []")
    case True
    then show ?thesis by (simp add: pages_Nil)
  next
    case False
    have "pages address data = (address, take 256 data) # pages (address + 256) (drop 256 data)"
      using False by (subst pages.simps) simp
    then show ?thesis using "1.IH" [OF False] by simp
  qed
qed

lemma write_len_no_wrap:
  "1 \<le> n \<Longrightarrow> n \<le> 256 \<Longrightarrow> unat (of_nat (n - 1) :: u8) = n - 1"
  by (simp add: unat_of_nat del: of_nat_diff)

lemma page_script_list:
  "page_script a chunk =
     [(REG_WRITE_OPCODE, [CMD_OPCODE_WRITE]), (REG_WRITE_LEN, [of_nat (length chunk - 1)]),
      (REG_CMD_ADDR_HI, [ucast (drop_bit 16 a)]), (REG_CMD_ADDR_MID, [ucast (drop_bit 8 a)]),
      (REG_CMD_ADDR_LO, [ucast a]), (REG_WRITE_FIFO, chunk), (REG_MCU_MODE, [0xA0])]"
  by (simp add: page_script_def addr_script_def)

lemma write_script_single:
  "data \<noteq> [] \<Longrightarrow> length data \<le> 256 \<Longrightarrow> write_script address data = page_script address data"
  by (simp add: write_script_def pages_single)

lemma address_first_prefix: "prefix xs ys \<Longrightarrow> address_first ys \<Longrightarrow> address_first xs"
proof (induction xs arbitrary: ys)
  case Nil
  then show ?case by simp
next
  case (Cons x xs)
  then obtain ys' where ys: "ys = x # ys'" and p: "prefix xs ys'"
    by (cases ys) auto
  obtain a vs where x: "x = (a, vs)" by (cases x)
  have "set xs \<subseteq> set ys'" using p by (rule set_mono_prefix)
  then show ?case
    using Cons.IH [OF p] Cons.prems(2) unfolding ys x by auto
qed

lemma address_first_read_script: "address_first (read_script address)"
  by (simp add: read_script_def addr_script_def is_opcode_or_start_reg_def is_address_reg_def)

lemma address_first_erase_sector_script: "address_first (erase_sector_script address)"
  by (simp add: erase_sector_script_def addr_script_def is_opcode_or_start_reg_def is_address_reg_def)

lemma address_first_erase_block_script: "address_first (erase_block_script address)"
  by (simp add: erase_block_script_def is_opcode_or_start_reg_def is_address_reg_def)

lemma emits_snd:
  assumes "emits sel script w (m w)"
  shows "prefix (proj sel (new_entries w (snd (m w)))) script"
  using emitsD(1) [of sel script w "fst (m w)" "snd (m w)"] assms by simp

subsection \<open>The address of a read\<close>

lemma mask_24: "(0xFFFFFF :: 32 word) = mask 24"
  by (simp add: mask_eq_exp_minus_1)

lemma unat_minus_1: "unat (address - 1 :: 32 word) = (unat address + 4294967295) mod 4294967296"
proof (cases "address = 0")
  case True
  then show ?thesis by (simp add: unsigned_minus_1_eq_mask mask_eq_exp_minus_1)
next
  case False
  then have "1 \<le> unat address" by (simp add: unat_gt_0 Suc_leI)
  moreover have "unat address < 4294967296" using unsigned_less [of address] by simp
  ultimately have n: "1 \<le> unat address" "unat address < 4294967296" by simp_all
  have "unat address + 4294967295 = (unat address - 1) + 1 * 4294967296"
    using n by simp
  then have "(unat address + 4294967295) mod 4294967296 = (unat address - 1) mod 4294967296"
    by (simp only: mod_mult_self1)
  also have "\<dots> = unat address - 1" using n by simp
  finally show ?thesis
    using n by (simp add: unat_sub_if_size word_size)
qed

lemma mod_24_of_32: "((x + 4294967295) mod 4294967296) mod 16777216 = (x + 16777215) mod (16777216::nat)"
proof -
  have d: "(16777216::nat) dvd 4294967296" by simp
  have 1: "((x + 4294967295) mod 4294967296) mod 16777216 = (x + 4294967295) mod (16777216::nat)"
    by (rule mod_mod_cancel [OF d])
  have 2: "x + 4294967295 = (x + 16777215) + 255 * 16777216" by simp
  have 3: "((x + 16777215) + 255 * 16777216) mod 16777216 = (x + 16777215) mod (16777216::nat)"
    by (rule mod_mult_self1)
  show ?thesis unfolding 1 by (subst 2) (rule 3)
qed

lemma unat_read_address: "unat ((address - 1) AND 0xFFFFFF :: 32 word) = (unat address + 16777215) mod 16777216"
proof -
  have "unat ((address - 1) AND mask 24 :: 32 word) = unat (take_bit 24 (address - 1))"
    by (simp add: take_bit_eq_mask)
  also have "\<dots> = take_bit 24 (unat (address - 1))"
    by (rule unsigned_take_bit_eq)
  also have "\<dots> = unat (address - 1) mod 2 ^ 24"
    by (rule take_bit_eq_mod)
  finally have "unat ((address - 1) AND 0xFFFFFF :: 32 word) =
      ((unat address + 4294967295) mod 4294967296) mod 16777216"
    unfolding mask_24 unat_minus_1 by simp
  then show ?thesis by (simp only: mod_24_of_32)
qed

lemma unat_address_byte: "unat (ucast (drop_bit n a) :: 8 word) = (unat a div 2 ^ n) mod 256" for a :: "32 word"
proof -
  have "unat (ucast (drop_bit n a) :: 8 word) = take_bit LENGTH(8) (unat (drop_bit n a))"
    by (rule unsigned_ucast_eq)
  also have "\<dots> = take_bit 8 (drop_bit n (unat a))"
    by (simp only: unat_drop_bit_eq) simp
  finally show ?thesis
    by (simp add: take_bit_eq_mod drop_bit_eq_div)
qed

lemma three_bytes:
  fixes x :: nat
  assumes "x < 16777216"
  shows "(x div 65536) mod 256 * 65536 + (x div 256) mod 256 * 256 + x mod 256 = x"
proof -
  define m where "m = x div 256"
  define h where "h = m div 256"
  have a: "x div 65536 < 256" using assms by (simp add: div_less_iff_less_mult)
  have b: "x div 65536 = h" by (simp add: h_def m_def div_mult2_eq [symmetric])
  have e1: "m * 256 + x mod 256 = x" unfolding m_def by simp
  have e2: "h * 256 + m mod 256 = m" unfolding h_def by simp
  have "h * 65536 + m mod 256 * 256 + x mod 256 = (h * 256 + m mod 256) * 256 + x mod 256"
    by (simp add: algebra_simps)
  also have "\<dots> = x" unfolding e2 by (rule e1)
  finally have "h * 65536 + m mod 256 * 256 + x mod 256 = x" .
  moreover have "(x div 65536) mod 256 = h" using a b by simp
  ultimately show ?thesis unfolding m_def [symmetric] by simp
qed

lemma address_bytes_value:
  fixes a :: "32 word"
  assumes "unat a < 16777216"
  shows "unat (ucast (drop_bit 16 a) :: 8 word) * 65536 + unat (ucast (drop_bit 8 a) :: 8 word) * 256
         + unat (ucast a :: 8 word) = unat a"
proof -
  have 3: "unat (ucast a :: 8 word) = unat a mod 256"
    using unat_address_byte [of 0 a] by simp
  have 1: "unat (ucast (drop_bit 16 a) :: 8 word) = (unat a div 65536) mod 256"
    using unat_address_byte [of 16 a] by simp
  have 2: "unat (ucast (drop_bit 8 a) :: 8 word) = (unat a div 256) mod 256"
    using unat_address_byte [of 8 a] by simp
  show ?thesis unfolding 1 2 3 by (rule three_bytes [OF assms])
qed

lemma andthen_Inr:
  assumes "andthen m k w = (Inr y, w')"
  obtains x w1 where "m w = (Inr x, w1)" "k x w1 = (Inr y, w')"
  using assms by (auto simp: andthen_def split: prod.splits sum.splits)

lemma pread_full_length:
  "fu_udev_device_pread_full env n w = (Inr bs, w') \<Longrightarrow> length bs = n"
  by (auto simp: fu_udev_device_pread_full_def split: prod.splits sum.splits if_splits)

lemma read_loop_length:
  "flash_iface_read_loop env buf_size bytes_read buf w = (Inr out, w') \<Longrightarrow>
   length buf = bytes_read \<Longrightarrow> bytes_read \<le> buf_size \<Longrightarrow> length out = buf_size"
proof (induction buf_size bytes_read arbitrary: buf w rule: read_steps.induct)
  case (1 buf_size bytes_read)
  show ?case
  proof (cases "bytes_read < buf_size")
    case False
    then show ?thesis using 1(2,3,4) by (simp add: read_loop_unfold)
  next
    case True
    let ?n = "min 256 (buf_size - bytes_read)"
    from 1(2) True have
      "andthen (fu_udev_device_pread_full env ?n) (\<lambda>bs.
        andthen (exec (fu_device_set_progress_full (bytes_read + ?n) buf_size)) (\<lambda>_.
        flash_iface_read_loop env buf_size (bytes_read + ?n) (buf @ bs))) w = (Inr out, w')"
      by (subst (asm) read_loop_unfold) simp
    then obtain bs w1 w2 where
      rd: "fu_udev_device_pread_full env ?n w = (Inr bs, w1)" and
      lp: "flash_iface_read_loop env buf_size (bytes_read + ?n) (buf @ bs) w2 = (Inr out, w')"
      by (auto elim!: andthen_Inr simp: exec_def)
    have "length (buf @ bs) = bytes_read + ?n"
      using pread_full_length [OF rd] 1(3) by simp
    moreover have "bytes_read + ?n \<le> buf_size" using True by (auto simp: min_def)
    ultimately show ?thesis
      using "1.IH" [OF True refl lp] by simp
  qed
qed

lemma read_result:
  assumes "flash_iface_read env address buf_size w = (Inr out, w')"
  shows "unat address < FLASH_SIZE \<and> buf_size \<le> FLASH_SIZE \<and> length out = buf_size"
proof -
  have g: "unat address < FLASH_SIZE \<and> buf_size \<le> FLASH_SIZE"
    using assms
    by (auto simp: flash_iface_read_def andthen_def g_return_val_if_fail_def split: if_splits)
  from assms obtain w1 where "flash_iface_read_loop env buf_size 0 [] w1 = (Inr out, w')"
    unfolding flash_iface_read_def Let_def
    by (elim andthen_Inr) auto
  from read_loop_length [OF this] g show ?thesis by simp
qed

lemma read_steps_sum:
  "bytes_read \<le> buf_size \<Longrightarrow>
   sum_list (map fst (read_steps buf_size bytes_read)) = buf_size - bytes_read"
proof (induction buf_size bytes_read rule: read_steps.induct)
  case (1 buf_size bytes_read)
  show ?case
  proof (cases "bytes_read < buf_size")
    case False
    then show ?thesis using 1(2) by (subst read_steps.simps) simp
  next
    case True
    have le: "bytes_read + min 256 (buf_size - bytes_read) \<le> buf_size"
      using True by (auto simp: min_def)
    show ?thesis
      using "1.IH" [OF True refl le] True
      by (subst read_steps.simps) (auto simp: Let_def min_def)
  qed
qed

lemma read_steps_size:
  "(n, d) \<in> set (read_steps buf_size bytes_read) \<Longrightarrow> 1 \<le> n \<and> n \<le> 256"
proof (induction buf_size bytes_read rule: read_steps.induct)
  case (1 buf_size bytes_read)
  show ?case
  proof (cases "bytes_read < buf_size")
    case False
    then show ?thesis using 1(2) by (subst (asm) read_steps.simps) simp
  next
    case True
    from 1(2) True consider "n = min 256 (buf_size - bytes_read)"
      | "(n, d) \<in> set (read_steps buf_size (bytes_read + min 256 (buf_size - bytes_read)))"
      by (subst (asm) read_steps.simps) (auto simp: Let_def)
    then show ?thesis
    proof cases
      case 1
      then show ?thesis using True by (auto simp: min_def)
    next
      case 2
      then show ?thesis using "1.IH" [OF True refl] by simp
    qed
  qed
qed

subsection \<open>Runs on a cooperative bus\<close>












subsection \<open>Read-back, version probe and attach\<close>

lemma andthen_assoc: "andthen (andthen m k) k' w = andthen m (\<lambda>x. andthen (k x) k') w"
  by (simp add: andthen_def split: prod.splits sum.splits)

lemma write_firmware_split:
  assumes "length fw = FLASH_USER_SIZE"
  shows "fu_realtek_mst_device_write_firmware env (Inr fw) w =
     andthen (write_and_read_back env (target_base (active_bank w)) fw) (\<lambda>readback_buf.
       if fw \<noteq> readback_buf then
         (\<lambda>w'. (Inl (FwupdWrite ''flash contents after write do not match firmware image''), w'))
       else
         andthen (exec (fu_device_set_status FWUPD_STATUS_DEVICE_ERASE)) (\<lambda>_.
         andthen (flash_iface_erase_sector env (target_flag (active_bank w) AND NOT (SECTOR_SIZE - 1))) (\<lambda>_.
         andthen (exec (fu_device_set_status FWUPD_STATUS_DEVICE_WRITE)) (\<lambda>_.
         flash_iface_write env (target_flag (active_bank w)) flag_data)))) w"
proof -
  have c: "andthen (g_return_val_if_fail True) k w = k () w" for k :: "unit \<Rightarrow> device \<Rightarrow> unit result"
    by (simp add: andthen_def g_return_val_if_fail_def)
  show ?thesis
    unfolding fu_realtek_mst_device_write_firmware_def Let_def sum.case write_and_read_back_def
      target_base_def target_flag_def andthen_assoc
    by (simp only: assms simp_thms c)
qed

lemma write_and_read_back_flash:
  "emits flash_op_of
     [OpEraseBlock base_addr, OpWrite base_addr (length fw), OpRead base_addr FLASH_USER_SIZE] w
     (write_and_read_back env base_addr fw w)"
  unfolding write_and_read_back_def
  apply (rule emits_andthen, rule emits_set_status)
   apply (rule emits_andthen, rule erase_old_image_flash)
    apply (rule emits_andthen, rule emits_set_status)
     apply (rule emits_andthen, rule write_flash)
      apply (rule emits_andthen, rule emits_set_status)
       apply (rule read_flash)
      apply (rule refl)+
  apply simp
  done

lemma zero_write_and_read_back:
  assumes "base_addr AND 0xFFFF = 0" "unat base_addr < FLASH_SIZE"
  shows "returns (write_and_read_back zero_env base_addr fw) (replicate FLASH_USER_SIZE 0)"
  unfolding write_and_read_back_def
  apply (rule returns_andthen, rule returns_exec)
  apply (rule returns_andthen, rule zero_erase_old_image [OF assms(1)])
  apply (rule returns_andthen, rule returns_exec)
  apply (rule returns_andthen, rule zero_write)
  apply (rule returns_andthen, rule returns_exec)
  apply (rule zero_read [OF assms(2)])
  apply simp
  done

lemma same_host_refl: "same_host w w"
  by (simp add: same_host_def)

lemma same_host_trans: "same_host w w1 \<Longrightarrow> same_host w1 w2 \<Longrightarrow> same_host w w2"
  by (simp add: same_host_def)

lemma perform_same_host: "same_host w (snd (perform env a w))"
  by (simp add: same_host_def perform_def Let_def)

lemma pwrite_full_same_host: "fu_udev_device_pwrite_full env bs w = (r, w') \<Longrightarrow> same_host w w'"
  using perform_same_host [of w env "Pwrite bs"]
  by (auto simp: fu_udev_device_pwrite_full_def split: prod.splits sum.splits)

lemma pread_full_same_host: "fu_udev_device_pread_full env n w = (r, w') \<Longrightarrow> same_host w w'"
  using perform_same_host [of w env "Pread n"]
  by (auto simp: fu_udev_device_pread_full_def split: prod.splits sum.splits if_splits)

lemma dual_bank_info_result:
  assumes "fu_realtek_mst_device_get_dual_bank_info env info0 w = (Inr info, w')"
  shows "same_host w w' \<and> (is_enabled info \<longrightarrow> mode info \<le> DUAL_BANK_MAX_VALUE \<and>
           info_active_bank info \<le> FLASH_BANK_MAX_VALUE)"
proof -
  from assms obtain w1 w2 w3 response where
    1: "mst_write_register env 0xca 0x09 w = (Inr (), w1)" and
    2: "w2 = g_usleep env (200 * G_TIME_SPAN_MILLISECOND) w1" and
    3: "fu_udev_device_pwrite env 0x01 w2 = (Inr (), w3)" and
    4: "fu_udev_device_pread_full env 11 w3 = (Inr response, w')" and
    5: "is_enabled info \<longrightarrow> mode info \<le> DUAL_BANK_MAX_VALUE \<and>
           info_active_bank info \<le> FLASH_BANK_MAX_VALUE"
    unfolding fu_realtek_mst_device_get_dual_bank_info_def
    by (elim andthen_Inr) (auto simp: exec_def split: if_splits)
  have "same_host w w1"
    using 1 pwrite_full_same_host by (simp add: mst_write_register_def)
  moreover have "same_host w1 w2"
    unfolding 2 g_usleep_def by (rule perform_same_host)
  moreover have "same_host w2 w3"
    using 3 pwrite_full_same_host by (simp add: fu_udev_device_pwrite_def)
  moreover have "same_host w3 w'"
    using 4 by (rule pread_full_same_host)
  ultimately show ?thesis using 5 by (auto simp: same_host_def)
qed

lemma probe_version_unfold:
  "fu_realtek_mst_device_probe_version env info0 w =
     andthen (fu_realtek_mst_device_get_dual_bank_info env info0) (\<lambda>info.
       if \<not> is_enabled info then (\<lambda>w. (Inr (), w))
       else if mode info \<noteq> DUAL_BANK_DIFF then (\<lambda>w. (Inr (), w))
       else
         andthen (exec (fu_device_add_flag FWUPD_DEVICE_FLAG_UPDATABLE)) (\<lambda>_.
         andthen (g_return_val_if_fail (info_active_bank info \<le> FLASH_BANK_MAX_VALUE)) (\<lambda>_.
         andthen (exec (set_active_bank (info_active_bank info))) (\<lambda>_.
           if info_active_bank info = FLASH_BANK_USER1 then
             exec (fu_device_set_version (Some (version_str (user1_version info))))
           else if info_active_bank info = FLASH_BANK_USER2 then
             exec (fu_device_set_version (Some (version_str (user2_version info))))
           else (\<lambda>w. (Inr (), w)))))) (precleared w)"
  by (simp add: fu_realtek_mst_device_probe_version_def precleared_def andthen_def exec_def)

lemma e1_query:
  "fst (fu_realtek_mst_device_get_dual_bank_info e1_env junk_info w) =
     Inr \<lparr>is_enabled = True, mode = DUAL_BANK_DIFF, info_active_bank = FLASH_BANK_USER2,
          user1_version = (2, 5), user2_version = (3, 7)\<rparr>"
  by (simp add: fu_realtek_mst_device_get_dual_bank_info_def andthen_def exec_def
      mst_write_register_def fu_udev_device_pwrite_def fu_udev_device_pwrite_full_def
      fu_udev_device_pread_full_def perform_def g_usleep_def e1_env_def junk_info_def Let_def)

lemma version_str_3_7: "version_str (3, 7) = ''3.7''"
  by (simp add: version_str_def decimal.simps char_of_def bit_iff_odd)

lemmas bus_defs =
  mst_set_gpio88_def mst_read_register_indirect_def mst_write_register_indirect_def
  mst_set_indirect_address_def mst_read_register_def mst_write_register_def
  fu_udev_device_pwrite_def fu_udev_device_pwrite_full_def fu_udev_device_pread_def
  fu_udev_device_pread_full_def perform_def andthen_def Let_def

subsection \<open>The poll loop\<close>




lemma ns_of_clock_gettime [simp]:
  "ns_of (clock_gettime w) = clock w" "tv_nsec (clock_gettime w) < 1000000000"
  by (simp_all add: ns_of_def clock_gettime_def)









subsection \<open>The bytes delivered to a flash read\<close>

lemma bytes_received_simps [simp]:
  "bytes_received [] = []"
  "bytes_received (xs @ ys) = bytes_received xs @ bytes_received ys"
  "bytes_received ((t, a, r) # xs) = read_reply (t, a, r) @ bytes_received xs"
  by (simp_all add: bytes_received_def)

lemma read_reply_none [simp]:
  "read_reply (t, a, Inr []) = []" "read_reply (t, a, Inl e) = []"
  by (cases a; simp)+

lemma receives_andthen:
  assumes "receives w (m w) P"
    and "\<And>x w1. m w = (Inr x, w1) \<Longrightarrow> receives w1 (k x w1) (Q x)"
    and "\<And>x y b1 b2. P x b1 \<Longrightarrow> Q x y b2 \<Longrightarrow> R y (b1 @ b2)"
  shows "receives w (andthen m k w) R"
proof (cases "m w")
  case (Pair r w1)
  show ?thesis
  proof (cases r)
    case (Inl e)
    then show ?thesis using assms(1) Pair by (auto simp: receives_def andthen_def)
  next
    case (Inr x)
    from assms(1) Pair Inr obtain e1 where e1: "trace w1 = trace w @ e1" "P x (bytes_received e1)"
      by (auto simp: receives_def)
    from assms(2) [OF Pair [unfolded Inr]] obtain e2 where
      e2: "trace (snd (k x w1)) = trace w1 @ e2"
          "\<forall>y. fst (k x w1) = Inr y \<longrightarrow> Q x y (bytes_received e2)"
      by (auto simp: receives_def)
    show ?thesis
      unfolding receives_def
      by (rule exI [of _ "e1 @ e2"]) (use e1 e2 Pair Inr assms(3) in \<open>auto simp: andthen_def\<close>)
  qed
qed

lemma receives_silent_then:
  assumes "receives w (m w) (\<lambda>_ bs. bs = [])"
    and "\<And>x w1. m w = (Inr x, w1) \<Longrightarrow> receives w1 (k x w1) Q"
  shows "receives w (andthen m k w) Q"
proof (rule receives_andthen)
  show "receives w (m w) (\<lambda>_ bs. bs = [])" by (rule assms(1))
next
  fix x w1 assume "m w = (Inr x, w1)"
  then show "receives w1 (k x w1) Q" by (rule assms(2))
next
  fix x :: 'a and y and b1 b2 :: "u8 list" assume "b1 = []" "Q y b2"
  then show "Q y (b1 @ b2)" by simp
qed

lemma receives_return_if_fail:
  "receives w (g_return_val_if_fail c w) (\<lambda>_ bs. bs = [])"
  by (simp add: receives_def g_return_val_if_fail_def)

lemma receives_exec_host:
  "receives w (exec (host a) w) (\<lambda>_ bs. bs = [])"
  by (simp add: receives_def exec_def host_def)

lemma receives_debug:
  "receives w (exec (g_debug m) w) (\<lambda>_ bs. bs = [])"
  unfolding g_debug_def [abs_def] by (rule receives_exec_host)

lemma receives_set_progress:
  "receives w (exec (fu_device_set_progress_full a b) w) (\<lambda>_ bs. bs = [])"
  unfolding fu_device_set_progress_full_def [abs_def] by (rule receives_exec_host)

lemma receives_pwrite_full:
  "receives w (fu_udev_device_pwrite_full env bs w) (\<lambda>_ bs. bs = [])"
  by (auto simp: receives_def fu_udev_device_pwrite_full_def perform_def Let_def split: sum.splits)

lemma receives_write_register:
  "receives w (mst_write_register env a v w) (\<lambda>_ bs. bs = [])"
  unfolding mst_write_register_def by (rule receives_pwrite_full)

lemma receives_pwrite:
  "receives w (fu_udev_device_pwrite env a w) (\<lambda>_ bs. bs = [])"
  unfolding fu_udev_device_pwrite_def by (rule receives_pwrite_full)

lemma receives_pread_full:
  "receives w (fu_udev_device_pread_full env n w) (\<lambda>r bs. bs = r)"
  by (auto simp: receives_def fu_udev_device_pread_full_def perform_def Let_def split: sum.splits)

lemma receives_pread:
  "receives w (fu_udev_device_pread env w) (\<lambda>v bs. bs = [v])"
proof -
  have "length bs = Suc 0 \<Longrightarrow> bs = [hd bs]" for bs :: "u8 list"
    by (cases bs) auto
  then show ?thesis
    by (auto simp: receives_def fu_udev_device_pread_def fu_udev_device_pread_full_def
        perform_def Let_def split: sum.splits)
qed

lemma receives_read_loop:
  "receives w (flash_iface_read_loop env buf_size bytes_read buf w) (\<lambda>out bs. out = buf @ bs)"
proof (induction buf_size bytes_read arbitrary: buf w rule: read_steps.induct)
  case (1 buf_size bytes_read)
  show ?case
  proof (cases "bytes_read < buf_size")
    case False
    then show ?thesis
      by (subst read_loop_unfold) (simp add: receives_def)
  next
    case True
    show ?thesis
      apply (subst read_loop_unfold)
      apply (simp only: True if_True)
      apply (rule receives_andthen, rule receives_pread_full)
       apply (rule receives_silent_then, rule receives_set_progress)
       apply (rule "1.IH" [OF True refl])
      apply simp
      done
  qed
qed

lemma receives_read:
  "receives w (flash_iface_read env address buf_size w) (\<lambda>out bs. \<exists>b. bs = b # out)"
  unfolding flash_iface_read_def Let_def
  apply (rule receives_silent_then, rule receives_return_if_fail)
  apply (rule receives_silent_then, rule receives_return_if_fail)
  apply (rule receives_silent_then, rule receives_debug)
  apply (rule receives_silent_then, rule receives_write_register)
  apply (rule receives_silent_then, rule receives_write_register)
  apply (rule receives_silent_then, rule receives_write_register)
  apply (rule receives_silent_then, rule receives_write_register)
  apply (rule receives_silent_then, rule receives_pwrite)
  apply (rule receives_andthen, rule receives_pread)
   apply (rule receives_read_loop)
  apply simp
  done

lemma read_discards_first:
  assumes "flash_iface_read env address buf_size w = (Inr buf, w')"
  shows "\<exists>b. bytes_received (new_entries w w') = b # buf"
  using receives_read [of w env address buf_size] assms
  by (auto simp: receives_def new_entries_def)

subsection \<open>The version string\<close>

lemma digit_chars:
  "char_of (48 :: nat) = CHR ''0''" "char_of (49 :: nat) = CHR ''1''" "char_of (50 :: nat) = CHR ''2''"
  "char_of (51 :: nat) = CHR ''3''" "char_of (52 :: nat) = CHR ''4''" "char_of (53 :: nat) = CHR ''5''"
  "char_of (54 :: nat) = CHR ''6''" "char_of (55 :: nat) = CHR ''7''" "char_of (56 :: nat) = CHR ''8''"
  "char_of (57 :: nat) = CHR ''9''"
  by (simp_all add: char_of_def bit_iff_odd)

lemma digit_char:
  fixes k :: nat
  assumes "k < 10"
  shows "digit (char_of (48 + k))" and "digit_value (char_of (48 + k)) = k"
    and "char_of (48 + k) = CHR ''0'' \<longleftrightarrow> k = 0"
proof -
  from assms have "k = 0 \<or> k = 1 \<or> k = 2 \<or> k = 3 \<or> k = 4 \<or> k = 5 \<or> k = 6 \<or> k = 7 \<or> k = 8 \<or> k = 9"
    by arith
  then have "digit (char_of (48 + k)) \<and> digit_value (char_of (48 + k)) = k \<and>
             (char_of (48 + k) = CHR ''0'' \<longleftrightarrow> k = 0)"
    by (elim disjE) (simp_all add: digit_chars digit_def digit_value_def)
  then show "digit (char_of (48 + k))" and "digit_value (char_of (48 + k)) = k"
    and "char_of (48 + k) = CHR ''0'' \<longleftrightarrow> k = 0"
    by simp_all
qed

lemma numeral_value_snoc:
  "numeral_value (s @ [c]) = 10 * numeral_value s + digit_value c"
  by (simp add: numeral_value_def)

lemma denotes_decimal: "denotes (decimal n) n"
proof (induction n rule: decimal.induct)
  case (1 n)
  show ?case
  proof (cases "n < 10")
    case True
    then have d: "decimal n = [char_of (48 + n)]" by (simp add: decimal.simps)
    show ?thesis
      unfolding d denotes_def
      using digit_char [OF True] by (simp add: numeral_value_def digit_chars)
  next
    case False
    let ?c = "char_of (48 + n mod 10)"
    have d: "decimal n = decimal (n div 10) @ [?c]"
      using False by (subst decimal.simps) simp
    have ih: "denotes (decimal (n div 10)) (n div 10)"
      using "1.IH" [OF False] .
    have m: "n mod 10 < 10" by simp
    have ne: "decimal (n div 10) \<noteq> []" using ih by (simp add: denotes_def)
    have pos: "n div 10 \<noteq> 0" using False by simp
    have nz: "hd (decimal (n div 10)) \<noteq> CHR ''0''"
    proof
      assume "hd (decimal (n div 10)) = CHR ''0''"
      then have "decimal (n div 10) = ''0''" using ih by (simp add: denotes_def)
      then have "numeral_value ''0'' = n div 10" using ih by (simp add: denotes_def)
      then show False using pos by (simp add: numeral_value_def digit_value_def)
    qed
    have v: "numeral_value (decimal n) = n"
      unfolding d numeral_value_snoc
      using ih digit_char(2) [OF m] by (simp add: denotes_def)
    show ?thesis
      unfolding denotes_def
      using v ih ne nz digit_char(1) [OF m] by (simp add: d denotes_def)
  qed
qed

lemma version_str_denotes:
  "\<exists>ma mi. version_str v = ma @ ''.'' @ mi \<and> denotes ma (unat (fst v)) \<and> denotes mi (unat (snd v))"
  unfolding version_str_def using denotes_decimal by blast

lemma e2_query:
  "fst (fu_realtek_mst_device_get_dual_bank_info e2_env junk_info w) =
     Inr \<lparr>is_enabled = True, mode = DUAL_BANK_DIFF, info_active_bank = FLASH_BANK_USER1,
          user1_version = (10, 255), user2_version = (3, 7)\<rparr>"
  by (simp add: fu_realtek_mst_device_get_dual_bank_info_def andthen_def exec_def
      mst_write_register_def fu_udev_device_pwrite_def fu_udev_device_pwrite_full_def
      fu_udev_device_pread_full_def perform_def g_usleep_def e2_env_def junk_info_def Let_def)

lemma version_str_10_255: "version_str (10, 255) = ''10.255''"
  by (simp add: version_str_def decimal.simps char_of_def bit_iff_odd)

subsection \<open>The flash commands of an update\<close>

lemma flash_cmds_append:
  "flash_cmds rf (xs @ ys) = flash_cmds rf xs @ flash_cmds (regs_after rf xs) ys"
  by (induction xs arbitrary: rf) (simp_all add: regs_after_def)

lemma flash_cmds_prefix:
  "prefix xs ys \<Longrightarrow> prefix (flash_cmds rf xs) (flash_cmds rf ys)"
  by (auto simp: prefix_def flash_cmds_append)

lemma flash_cmds_erase_block:
  "flash_cmds rf (erase_block_script a) =
     [Erase CMD_OPCODE_ERASE_BLOCK (unat (ucast (drop_bit 16 a) :: u8) * 65536)]"
  by (simp add: erase_block_script_def started_def reg_store_def cmd_address_def)

lemma flash_cmds_erase_sector:
  assumes "unat a < 16777216"
  shows "flash_cmds rf (erase_sector_script a) = [Erase CMD_OPCODE_ERASE_SECTOR (unat a)]"
  using address_bytes_value [OF assms]
  by (simp add: erase_sector_script_def addr_script_def started_def reg_store_def cmd_address_def)

lemma flash_cmds_read:
  "flash_cmds rf (read_script a) = []"
  by (simp add: read_script_def addr_script_def started_def reg_store_def)

lemma flash_cmds_page:
  assumes "unat a < 16777216" "1 \<le> length chunk" "length chunk \<le> 256"
  shows "flash_cmds rf (page_script a chunk) = [Program (unat a) (length chunk)]"
  using address_bytes_value [OF assms(1)] write_len_no_wrap [OF assms(2,3)] assms(2)
  by (simp add: page_script_list started_def reg_store_def cmd_address_def del: of_nat_diff)

lemma pages_Cons:
  "data \<noteq> [] \<Longrightarrow> pages a data = (a, take 256 data) # pages (a + 256) (drop 256 data)"
  by (subst pages.simps) simp

lemma unat_next_page:
  fixes a :: u32
  assumes "unat a + 256 \<le> 16777216"
  shows "unat (a + 256) = unat a + 256"
proof -
  have "unat (a + 256) = (unat a + 256) mod 4294967296"
    by (simp add: unat_word_ariths)
  then show ?thesis using assms by simp
qed

lemma pages_range:
  assumes "(a', chunk) \<in> set (pages a data)" and "unat a + length data \<le> 16777216"
  shows "unat a \<le> unat a' \<and> unat a' + length chunk \<le> unat a + length data"
  using assms
proof (induction a data rule: pages.induct)
  case (1 a data)
  show ?case
  proof (cases "data = []")
    case True
    then show ?thesis using "1.prems"(1) by (simp add: pages_Nil)
  next
    case False
    from "1.prems"(1) consider "a' = a" "chunk = take 256 data"
      | "(a', chunk) \<in> set (pages (a + 256) (drop 256 data))"
      unfolding pages_Cons [OF False] by auto
    then show ?thesis
    proof cases
      case 1
      then show ?thesis by simp
    next
      case 2
      then have ne: "drop 256 data \<noteq> []" by (auto simp: pages_Nil)
      then have len: "256 < length data" by simp
      have nx: "unat (a + 256) = unat a + 256"
        using "1.prems"(2) len by (intro unat_next_page) simp
      have "unat (a + 256) + length (drop 256 data) \<le> 16777216"
        using "1.prems"(2) len nx by simp
      from "1.IH" [OF False 2 this] show ?thesis
        using nx len by simp
    qed
  qed
qed

lemma flash_cmds_write:
  assumes "unat a + length data \<le> 16777216"
  shows "flash_cmds rf (write_script a data) =
           map (\<lambda>(a', chunk). Program (unat a') (length chunk)) (pages a data)"
  using assms
proof (induction a data arbitrary: rf rule: pages.induct)
  case (1 a data)
  show ?case
  proof (cases "data = []")
    case True
    then show ?thesis by (simp add: write_script_def pages_Nil)
  next
    case False
    have ws: "write_script a data =
                page_script a (take 256 data) @ write_script (a + 256) (drop 256 data)"
      by (simp add: write_script_def pages_Cons [OF False])
    have lt: "unat a < 16777216" using "1.prems" False by (cases data) auto
    have l1: "1 \<le> length (take 256 data)" "length (take 256 data) \<le> 256"
      using False by (cases data; simp)+
    have rest: "flash_cmds rf' (write_script (a + 256) (drop 256 data)) =
          map (\<lambda>(a', chunk). Program (unat a') (length chunk)) (pages (a + 256) (drop 256 data))" for rf'
    proof (cases "drop 256 data = []")
      case True
      then show ?thesis by (simp add: write_script_def pages_Nil)
    next
      case ne: False
      then have len: "256 < length data" by simp
      have nx: "unat (a + 256) = unat a + 256"
        using "1.prems" len by (intro unat_next_page) simp
      have "unat (a + 256) + length (drop 256 data) \<le> 16777216"
        using "1.prems" len nx by simp
      from "1.IH" [OF False this] show ?thesis .
    qed
    show ?thesis
      unfolding ws flash_cmds_append flash_cmds_page [OF lt l1] rest
      by (simp add: pages_Cons [OF False])
  qed
qed

lemma target_addresses:
  "unat (target_base active) = (if active = FLASH_BANK_USER1 then 0x80000 else 0x10000)"
  "unat (target_flag active) = (if active = FLASH_BANK_USER1 then 0xFF304 else 0xFE304)"
  "unat (target_flag active AND NOT (SECTOR_SIZE - 1)) =
     (if active = FLASH_BANK_USER1 then 0xFF000 else 0xFE000)"
  "unat (ucast (drop_bit 16 (target_base active)) :: u8) * 65536 = unat (target_base active)"
  by (simp_all add: target_base_def target_flag_def)

lemma flash_cmds_update:
  assumes "length fw = FLASH_USER_SIZE"
  shows "flash_cmds rf (update_script active fw) = update_cmds active fw"
proof -
  have a: "unat (target_base active) + length fw \<le> 16777216"
    unfolding assms target_addresses by simp
  have b: "unat (target_flag active) + length flag_data \<le> 16777216"
    unfolding target_addresses by simp
  have c: "unat (target_flag active AND NOT (SECTOR_SIZE - 1)) < 16777216"
    unfolding target_addresses by simp
  have p: "pages (target_flag active) flag_data = [(target_flag active, flag_data)]"
    by (rule pages_single) simp_all
  show ?thesis
    unfolding update_script_def update_cmds_def flash_cmds_append flash_cmds_erase_block
      flash_cmds_write [OF a] flash_cmds_write [OF b] flash_cmds_read
      flash_cmds_erase_sector [OF c] target_addresses(4) p
    by simp
qed

lemma update_cmds_in_target:
  assumes "length fw = FLASH_USER_SIZE" and "c \<in> set (update_cmds active fw)"
  shows "cmd_modifies c \<subseteq> target_region active"
proof -
  have a: "unat (target_base active) + length fw \<le> 16777216"
    unfolding assms target_addresses by simp
  from assms(2) consider
      "c = Erase CMD_OPCODE_ERASE_BLOCK (unat (target_base active))"
    | a' chunk where "(a', chunk) \<in> set (pages (target_base active) fw)"
        "c = Program (unat a') (length chunk)"
    | "c = Erase CMD_OPCODE_ERASE_SECTOR (unat (target_flag active AND NOT (SECTOR_SIZE - 1)))"
    | "c = Program (unat (target_flag active)) 5"
    unfolding update_cmds_def by auto
  then show ?thesis
  proof cases
    case 1
    then show ?thesis
      unfolding target_region_def target_addresses by auto
  next
    case 2
    from pages_range [OF 2(1) a] show ?thesis
      unfolding 2(2) target_region_def assms(1) by auto
  next
    case 3
    then show ?thesis
      unfolding target_region_def target_addresses by auto
  next
    case 4
    then show ?thesis
      unfolding target_region_def target_addresses by auto
  qed
qed

lemma target_region_spares_active:
  "target_region active \<inter> (bank_image active \<union> bank_flag active) = {}"
  unfolding target_region_def target_addresses
  by (auto simp: bank_image_def bank_flag_def)

lemma erase_old_image_reg:
  "emits reg_write (erase_block_script base_addr) w (erase_old_image env base_addr 0 w)"
  unfolding erase_old_image_once
  apply (rule emits_andthen, rule emits_set_progress, rule erase_block_reg)
  apply simp
  done

lemma write_firmware_reg:
  "emits reg_write (update_script (active_bank w) fw) w
     (fu_realtek_mst_device_write_firmware env (Inr fw) w)"
proof (cases "length fw = FLASH_USER_SIZE")
  case False
  then show ?thesis
    by (simp add: fu_realtek_mst_device_write_firmware_def Let_def andthen_def
        g_return_val_if_fail_def emits_fail)
next
  case True
  have tail: "emits reg_write
        (erase_sector_script (target_flag (active_bank w) AND NOT (SECTOR_SIZE - 1)) @
         write_script (target_flag (active_bank w)) flag_data) w3
        ((if fw \<noteq> rb then
            (\<lambda>w'. (Inl (FwupdWrite ''flash contents after write do not match firmware image''), w'))
          else
            andthen (exec (fu_device_set_status FWUPD_STATUS_DEVICE_ERASE)) (\<lambda>_.
            andthen (flash_iface_erase_sector env (target_flag (active_bank w) AND NOT (SECTOR_SIZE - 1))) (\<lambda>_.
            andthen (exec (fu_device_set_status FWUPD_STATUS_DEVICE_WRITE)) (\<lambda>_.
            flash_iface_write env (target_flag (active_bank w)) flag_data)))) w3)" for rb w3
  proof (cases "fw \<noteq> rb")
    case True
    then show ?thesis by (simp add: emits_fail)
  next
    case False
    show ?thesis
      apply (simp only: False if_False)
      apply (rule emits_andthen, rule emits_set_status)
       apply (rule emits_andthen, rule erase_sector_reg)
        apply (rule emits_andthen, rule emits_set_status)
         apply (rule write_reg)
        apply (rule refl)+
      apply simp
      done
  qed
  show ?thesis
    unfolding fu_realtek_mst_device_write_firmware_def Let_def sum.case
      target_base_def [symmetric] target_flag_def [symmetric]
    apply (rule emits_andthen, rule emits_return_if_fail)
     apply (rule emits_andthen, rule emits_set_status)
      apply (rule emits_andthen, rule erase_old_image_reg)
       apply (rule emits_andthen, rule emits_set_status)
        apply (rule emits_andthen, rule write_reg)
         apply (rule emits_andthen, rule emits_set_status)
          apply (rule emits_andthen, rule read_reg)
           apply (rule tail)
          apply (rule refl)+
    apply (simp add: update_script_def)
    done
qed

lemma write_firmware_rejects:
  assumes "fu_realtek_mst_device_write_firmware env firmware_bytes w = (r, w')"
    and "\<forall>fw. firmware_bytes = Inr fw \<longrightarrow> length fw \<noteq> FLASH_USER_SIZE"
  shows "w' = w \<and> isl r"
  using assms
  by (cases firmware_bytes)
     (auto simp: fu_realtek_mst_device_write_firmware_def Let_def andthen_def
        g_return_val_if_fail_def)

lemma write_firmware_cmds:
  assumes "fu_realtek_mst_device_write_firmware env firmware_bytes w = (r, w')"
  shows "\<forall>c \<in> set (flash_cmds rf (proj reg_write (new_entries w w'))).
           cmd_modifies c \<subseteq> target_region (active_bank w)"
proof (cases "\<exists>fw. firmware_bytes = Inr fw \<and> length fw = FLASH_USER_SIZE")
  case False
  then have "w' = w" using write_firmware_rejects [OF assms] by blast
  then show ?thesis by (simp add: new_entries_def)
next
  case True
  then obtain fw where fw: "firmware_bytes = Inr fw" "length fw = FLASH_USER_SIZE" by blast
  have "emits reg_write (update_script (active_bank w) fw) w (r, w')"
    using write_firmware_reg [of w fw env] assms fw(1) by simp
  then have "prefix (proj reg_write (new_entries w w')) (update_script (active_bank w) fw)"
    by (rule emitsD(1))
  then have "prefix (flash_cmds rf (proj reg_write (new_entries w w')))
                    (update_cmds (active_bank w) fw)"
    using flash_cmds_prefix [of _ "update_script (active_bank w) fw" rf]
    unfolding flash_cmds_update [OF fw(2)] by blast
  then show ?thesis
    using set_mono_prefix update_cmds_in_target [OF fw(2)] by blast
qed

lemma update_cmds_user1:
  "update_cmds FLASH_BANK_USER1 fw =
     Erase CMD_OPCODE_ERASE_BLOCK 0x80000 #
     map (\<lambda>(a, chunk). Program (unat a) (length chunk)) (pages FLASH_USER2_ADDR fw) @
     [Erase CMD_OPCODE_ERASE_SECTOR 0xFF000, Program 0xFF304 5]"
  by (simp add: update_cmds_def target_base_def target_flag_def)

lemma update_cmds_other:
  "active \<noteq> FLASH_BANK_USER1 \<Longrightarrow> update_cmds active fw =
     Erase CMD_OPCODE_ERASE_BLOCK 0x10000 #
     map (\<lambda>(a, chunk). Program (unat a) (length chunk)) (pages FLASH_USER1_ADDR fw) @
     [Erase CMD_OPCODE_ERASE_SECTOR 0xFE000, Program 0xFE304 5]"
  by (simp add: update_cmds_def target_base_def target_flag_def)

lemma target_region_user1:
  "target_region FLASH_BANK_USER1 = {0x80000 ..< 0xF0000} \<union> {0xFF000 ..< 0x100000}"
  unfolding target_region_def target_addresses by simp

lemma target_region_other:
  "active \<noteq> FLASH_BANK_USER1 \<Longrightarrow>
   target_region active = {0x10000 ..< 0x80000} \<union> {0xFE000 ..< 0xFF000}"
  unfolding target_region_def target_addresses by simp

section \<open>Properties of the update\<close>

text \<open>
  Claim C6. The register writes of a page write are, chunk after chunk of at most 256
  bytes of the data in order, the script: \<^verbatim>\<open>WRITE_OPCODE\<close>, \<^verbatim>\<open>WRITE_LEN\<close> = chunk size - 1,
  the three address bytes, one burst to \<^verbatim>\<open>WRITE_FIFO\<close> that carries the chunk, the start
  write to \<^verbatim>\<open>MCU_MODE\<close>; an initial part of that when the bus fails, all of it on success.
  The chunk sizes are between 1 and 256, so the length byte does not wrap. Data of 256
  bytes are one chunk whose length byte is 0xFF; one byte of data is one chunk whose
  length byte is 0x00 and whose burst carries that byte.
\<close>

theorem page_write_len_and_fifo:
  assumes "flash_iface_write env address data w = (r, w')"
  shows "prefix (proj reg_write (new_entries w w')) (write_script address data) \<and>
         (r = Inr () \<longrightarrow> proj reg_write (new_entries w w') = write_script address data) \<and>
         write_script address data =
           concat (map (\<lambda>(a, chunk).
             [(REG_WRITE_OPCODE, [CMD_OPCODE_WRITE]), (REG_WRITE_LEN, [of_nat (length chunk - 1)]),
              (REG_CMD_ADDR_HI, [ucast (drop_bit 16 a)]), (REG_CMD_ADDR_MID, [ucast (drop_bit 8 a)]),
              (REG_CMD_ADDR_LO, [ucast a]), (REG_WRITE_FIFO, chunk), (REG_MCU_MODE, [0xA0])])
             (pages address data)) \<and>
         concat (map snd (pages address data)) = data \<and>
         (\<forall>(a, chunk) \<in> set (pages address data).
            1 \<le> length chunk \<and> length chunk \<le> 256 \<and>
            unat (of_nat (length chunk - 1) :: u8) = length chunk - 1) \<and>
         (length data = 256 \<longrightarrow> write_script address data =
             [(REG_WRITE_OPCODE, [CMD_OPCODE_WRITE]), (REG_WRITE_LEN, [0xFF]),
              (REG_CMD_ADDR_HI, [ucast (drop_bit 16 address)]), (REG_CMD_ADDR_MID, [ucast (drop_bit 8 address)]),
              (REG_CMD_ADDR_LO, [ucast address]), (REG_WRITE_FIFO, data), (REG_MCU_MODE, [0xA0])]) \<and>
         (length data = 1 \<longrightarrow> write_script address data =
             [(REG_WRITE_OPCODE, [CMD_OPCODE_WRITE]), (REG_WRITE_LEN, [0x00]),
              (REG_CMD_ADDR_HI, [ucast (drop_bit 16 address)]), (REG_CMD_ADDR_MID, [ucast (drop_bit 8 address)]),
              (REG_CMD_ADDR_LO, [ucast address]), (REG_WRITE_FIFO, data), (REG_MCU_MODE, [0xA0])])"
proof -
  have e: "emits reg_write (write_script address data) w (r, w')"
    using write_reg [of address data w env] assms by simp
  have p: "prefix (proj reg_write (new_entries w w')) (write_script address data)"
    by (rule emitsD(1) [OF e])
  have q: "r = Inr () \<longrightarrow> proj reg_write (new_entries w w') = write_script address data"
    using emitsD(2) [OF e] by auto
  have s: "write_script address data =
           concat (map (\<lambda>(a, chunk).
             [(REG_WRITE_OPCODE, [CMD_OPCODE_WRITE]), (REG_WRITE_LEN, [of_nat (length chunk - 1)]),
              (REG_CMD_ADDR_HI, [ucast (drop_bit 16 a)]), (REG_CMD_ADDR_MID, [ucast (drop_bit 8 a)]),
              (REG_CMD_ADDR_LO, [ucast a]), (REG_WRITE_FIFO, chunk), (REG_MCU_MODE, [0xA0])])
             (pages address data))"
    by (simp add: write_script_def page_script_list)
  have c: "\<forall>(a, chunk) \<in> set (pages address data).
            1 \<le> length chunk \<and> length chunk \<le> 256 \<and>
            unat (of_nat (length chunk - 1) :: u8) = length chunk - 1"
    using pages_chunk_size write_len_no_wrap by blast
  have b256: "length data = 256 \<longrightarrow> write_script address data =
             [(REG_WRITE_OPCODE, [CMD_OPCODE_WRITE]), (REG_WRITE_LEN, [0xFF]),
              (REG_CMD_ADDR_HI, [ucast (drop_bit 16 address)]), (REG_CMD_ADDR_MID, [ucast (drop_bit 8 address)]),
              (REG_CMD_ADDR_LO, [ucast address]), (REG_WRITE_FIFO, data), (REG_MCU_MODE, [0xA0])]"
  proof
    assume l: "length data = 256"
    then have "data \<noteq> []" by auto
    then show "write_script address data =
             [(REG_WRITE_OPCODE, [CMD_OPCODE_WRITE]), (REG_WRITE_LEN, [0xFF]),
              (REG_CMD_ADDR_HI, [ucast (drop_bit 16 address)]), (REG_CMD_ADDR_MID, [ucast (drop_bit 8 address)]),
              (REG_CMD_ADDR_LO, [ucast address]), (REG_WRITE_FIFO, data), (REG_MCU_MODE, [0xA0])]"
      using l by (simp add: write_script_single page_script_list)
  qed
  have b1: "length data = 1 \<longrightarrow> write_script address data =
             [(REG_WRITE_OPCODE, [CMD_OPCODE_WRITE]), (REG_WRITE_LEN, [0x00]),
              (REG_CMD_ADDR_HI, [ucast (drop_bit 16 address)]), (REG_CMD_ADDR_MID, [ucast (drop_bit 8 address)]),
              (REG_CMD_ADDR_LO, [ucast address]), (REG_WRITE_FIFO, data), (REG_MCU_MODE, [0xA0])]"
  proof
    assume l: "length data = 1"
    then have "data \<noteq> []" by auto
    then show "write_script address data =
             [(REG_WRITE_OPCODE, [CMD_OPCODE_WRITE]), (REG_WRITE_LEN, [0x00]),
              (REG_CMD_ADDR_HI, [ucast (drop_bit 16 address)]), (REG_CMD_ADDR_MID, [ucast (drop_bit 8 address)]),
              (REG_CMD_ADDR_LO, [ucast address]), (REG_WRITE_FIFO, data), (REG_MCU_MODE, [0xA0])]"
      using l by (simp add: write_script_single page_script_list)
  qed
  show ?thesis
    using p q s pages_concat [of address data] c b256 b1 by (intro conjI)
qed

text \<open>
  A page write of 256 bytes and one of a single byte, at 0x80000, on a bus that answers
  every transaction with zeros.
\<close>

theorem page_write_len_and_fifo_witness:
  "fst (flash_iface_write zero_env 0x80000 (replicate 256 0xA5) (idle_device FLASH_BANK_USER1)) = Inr () \<and>
   proj reg_write (new_entries (idle_device FLASH_BANK_USER1)
     (snd (flash_iface_write zero_env 0x80000 (replicate 256 0xA5) (idle_device FLASH_BANK_USER1)))) =
     [(REG_WRITE_OPCODE, [0x02]), (REG_WRITE_LEN, [0xFF]),
      (REG_CMD_ADDR_HI, [0x08]), (REG_CMD_ADDR_MID, [0x00]), (REG_CMD_ADDR_LO, [0x00]),
      (REG_WRITE_FIFO, replicate 256 0xA5), (REG_MCU_MODE, [0xA0])] \<and>
   fst (flash_iface_write zero_env 0x80000 [0x42] (idle_device FLASH_BANK_USER1)) = Inr () \<and>
   proj reg_write (new_entries (idle_device FLASH_BANK_USER1)
     (snd (flash_iface_write zero_env 0x80000 [0x42] (idle_device FLASH_BANK_USER1)))) =
     [(REG_WRITE_OPCODE, [0x02]), (REG_WRITE_LEN, [0x00]),
      (REG_CMD_ADDR_HI, [0x08]), (REG_CMD_ADDR_MID, [0x00]), (REG_CMD_ADDR_LO, [0x00]),
      (REG_WRITE_FIFO, [0x42]), (REG_MCU_MODE, [0xA0])]"
proof -
  let ?w = "idle_device FLASH_BANK_USER1"
  let ?a = "flash_iface_write zero_env 0x80000 (replicate 256 0xA5) ?w"
  let ?b = "flash_iface_write zero_env 0x80000 [0x42] ?w"
  have oka: "fst ?a = Inr ()" and okb: "fst ?b = Inr ()"
    by (rule returnsD [OF zero_write])+
  have "?a = (fst ?a, snd ?a)" by simp
  note A = page_write_len_and_fifo [OF this]
  have "?b = (fst ?b, snd ?b)" by simp
  note B = page_write_len_and_fifo [OF this]
  have ra: "proj reg_write (new_entries ?w (snd ?a)) = write_script 0x80000 (replicate 256 0xA5)"
    using A [THEN conjunct2, THEN conjunct1] oka by simp
  have sa: "write_script 0x80000 (replicate 256 0xA5) =
     [(REG_WRITE_OPCODE, [0x02]), (REG_WRITE_LEN, [0xFF]),
      (REG_CMD_ADDR_HI, [0x08]), (REG_CMD_ADDR_MID, [0x00]), (REG_CMD_ADDR_LO, [0x00]),
      (REG_WRITE_FIFO, replicate 256 0xA5), (REG_MCU_MODE, [0xA0])]"
    using A [THEN conjunct2, THEN conjunct2, THEN conjunct2, THEN conjunct2, THEN conjunct2, THEN conjunct1]
    by simp
  have rb: "proj reg_write (new_entries ?w (snd ?b)) = write_script 0x80000 [0x42]"
    using B [THEN conjunct2, THEN conjunct1] okb by simp
  have sb: "write_script 0x80000 [0x42] =
     [(REG_WRITE_OPCODE, [0x02]), (REG_WRITE_LEN, [0x00]),
      (REG_CMD_ADDR_HI, [0x08]), (REG_CMD_ADDR_MID, [0x00]), (REG_CMD_ADDR_LO, [0x00]),
      (REG_WRITE_FIFO, [0x42]), (REG_MCU_MODE, [0xA0])]"
    using B [THEN conjunct2, THEN conjunct2, THEN conjunct2, THEN conjunct2, THEN conjunct2, THEN conjunct2]
    by simp
  show ?thesis using oka okb ra rb unfolding sa sb by simp
qed

text \<open>
  Claim C3, as stated, fails for the page write: \<^verbatim>\<open>flash_iface_write\<close> writes the opcode
  register \<^verbatim>\<open>REG_WRITE_OPCODE\<close> (and the length) before the address bytes. A page write of one
  byte at 0x80000 on a bus that answers every transaction with zeros.
\<close>

theorem address_before_opcode_counterexample:
  "\<not> address_first (proj reg_write (new_entries (idle_device FLASH_BANK_USER1)
         (snd (flash_iface_write zero_env 0x80000 [0x42] (idle_device FLASH_BANK_USER1)))))"
proof -
  have "proj reg_write (new_entries (idle_device FLASH_BANK_USER1)
         (snd (flash_iface_write zero_env 0x80000 [0x42] (idle_device FLASH_BANK_USER1))))
        = write_script 0x80000 [0x42]"
    by (rule run_script [OF write_reg zero_write])
  then show ?thesis
    by (simp add: write_script_single page_script_list is_opcode_or_start_reg_def is_address_reg_def)
qed

text \<open>
  Claim C3, amended. Whatever the bus does, the register writes of a flash read are an
  initial part of: address HI, MID, LO (of the address minus one), read opcode; those of a
  sector erase and of a block erase an initial part of: address HI, MID, LO, \<^verbatim>\<open>CMD_ATTR\<close>,
  erase opcode, \<^verbatim>\<open>CMD_ATTR\<close> with the busy bit: in these three no address byte is written
  after an opcode or attribute register. The register writes of a page write are an
  initial part of the chunks' scripts, each of which writes the opcode and the length first,
  then the address HI, MID, LO, then the FIFO burst and the start bit of \<^verbatim>\<open>MCU_MODE\<close>.
\<close>

theorem flash_scripts_address_order:
  "prefix (proj reg_write (new_entries w (snd (flash_iface_read env address buf_size w))))
     [(REG_CMD_ADDR_HI, [ucast (drop_bit 16 ((address - 1) AND 0xFFFFFF))]),
      (REG_CMD_ADDR_MID, [ucast (drop_bit 8 ((address - 1) AND 0xFFFFFF))]),
      (REG_CMD_ADDR_LO, [ucast ((address - 1) AND 0xFFFFFF)]),
      (REG_READ_OPCODE, [CMD_OPCODE_READ])] \<and>
   address_first (proj reg_write (new_entries w (snd (flash_iface_read env address buf_size w)))) \<and>
   prefix (proj reg_write (new_entries w (snd (flash_iface_erase_sector env address w))))
     [(REG_CMD_ADDR_HI, [ucast (drop_bit 16 address)]),
      (REG_CMD_ADDR_MID, [ucast (drop_bit 8 address)]),
      (REG_CMD_ADDR_LO, [ucast address]),
      (REG_CMD_ATTR, [0xB8]), (REG_ERASE_OPCODE, [CMD_OPCODE_ERASE_SECTOR]), (REG_CMD_ATTR, [0xB9])] \<and>
   address_first (proj reg_write (new_entries w (snd (flash_iface_erase_sector env address w)))) \<and>
   prefix (proj reg_write (new_entries w (snd (flash_iface_erase_block env address w))))
     [(REG_CMD_ADDR_HI, [ucast (drop_bit 16 address)]),
      (REG_CMD_ADDR_MID, [0]),
      (REG_CMD_ADDR_LO, [0]),
      (REG_CMD_ATTR, [0xB8]), (REG_ERASE_OPCODE, [CMD_OPCODE_ERASE_BLOCK]), (REG_CMD_ATTR, [0xB9])] \<and>
   address_first (proj reg_write (new_entries w (snd (flash_iface_erase_block env address w)))) \<and>
   prefix (proj reg_write (new_entries w (snd (flash_iface_write env address data w))))
     (concat (map (\<lambda>(a, chunk).
        [(REG_WRITE_OPCODE, [CMD_OPCODE_WRITE]), (REG_WRITE_LEN, [of_nat (length chunk - 1)]),
         (REG_CMD_ADDR_HI, [ucast (drop_bit 16 a)]), (REG_CMD_ADDR_MID, [ucast (drop_bit 8 a)]),
         (REG_CMD_ADDR_LO, [ucast a]), (REG_WRITE_FIFO, chunk), (REG_MCU_MODE, [0xA0])])
        (pages address data)))"
proof -
  have r: "prefix (proj reg_write (new_entries w (snd (flash_iface_read env address buf_size w))))
             (read_script address)"
    by (rule emits_snd [OF read_reg])
  have s: "prefix (proj reg_write (new_entries w (snd (flash_iface_erase_sector env address w))))
             (erase_sector_script address)"
    by (rule emits_snd [OF erase_sector_reg])
  have b: "prefix (proj reg_write (new_entries w (snd (flash_iface_erase_block env address w))))
             (erase_block_script address)"
    by (rule emits_snd [OF erase_block_reg])
  have p: "prefix (proj reg_write (new_entries w (snd (flash_iface_write env address data w))))
             (write_script address data)"
    by (rule emits_snd [OF write_reg])
  note af = address_first_prefix [OF r address_first_read_script]
    address_first_prefix [OF s address_first_erase_sector_script]
    address_first_prefix [OF b address_first_erase_block_script]
  show ?thesis
    using r s b p af
    by (simp add: read_script_def erase_sector_script_def erase_block_script_def addr_script_def
        write_script_def page_script_list)
qed

text \<open>
  A read of three bytes and a block erase at 0x80000 and a sector erase at 0xFF000, on a
  bus that answers every transaction with zeros.
\<close>

theorem flash_scripts_address_order_witness:
  "proj reg_write (new_entries (idle_device FLASH_BANK_USER1)
      (snd (flash_iface_read zero_env 0x80000 3 (idle_device FLASH_BANK_USER1)))) =
     [(REG_CMD_ADDR_HI, [0x07]), (REG_CMD_ADDR_MID, [0xFF]), (REG_CMD_ADDR_LO, [0xFF]),
      (REG_READ_OPCODE, [CMD_OPCODE_READ])] \<and>
   address_first (proj reg_write (new_entries (idle_device FLASH_BANK_USER1)
      (snd (flash_iface_read zero_env 0x80000 3 (idle_device FLASH_BANK_USER1))))) \<and>
   proj reg_write (new_entries (idle_device FLASH_BANK_USER1)
      (snd (flash_iface_erase_block zero_env 0x80000 (idle_device FLASH_BANK_USER1)))) =
     [(REG_CMD_ADDR_HI, [0x08]), (REG_CMD_ADDR_MID, [0x00]), (REG_CMD_ADDR_LO, [0x00]),
      (REG_CMD_ATTR, [0xB8]), (REG_ERASE_OPCODE, [CMD_OPCODE_ERASE_BLOCK]), (REG_CMD_ATTR, [0xB9])] \<and>
   address_first (proj reg_write (new_entries (idle_device FLASH_BANK_USER1)
      (snd (flash_iface_erase_block zero_env 0x80000 (idle_device FLASH_BANK_USER1))))) \<and>
   proj reg_write (new_entries (idle_device FLASH_BANK_USER1)
      (snd (flash_iface_erase_sector zero_env 0xFF000 (idle_device FLASH_BANK_USER1)))) =
     [(REG_CMD_ADDR_HI, [0x0F]), (REG_CMD_ADDR_MID, [0xF0]), (REG_CMD_ADDR_LO, [0x00]),
      (REG_CMD_ATTR, [0xB8]), (REG_ERASE_OPCODE, [CMD_OPCODE_ERASE_SECTOR]), (REG_CMD_ATTR, [0xB9])] \<and>
   address_first (proj reg_write (new_entries (idle_device FLASH_BANK_USER1)
      (snd (flash_iface_erase_sector zero_env 0xFF000 (idle_device FLASH_BANK_USER1)))))"
proof -
  let ?w = "idle_device FLASH_BANK_USER1"
  note A = flash_scripts_address_order [where w = ?w and env = zero_env and address = "0x80000"
      and buf_size = 3 and data = "[]"]
  note B = flash_scripts_address_order [where w = ?w and env = zero_env and address = "0xFF000"
      and buf_size = 3 and data = "[]"]
  have r: "proj reg_write (new_entries ?w (snd (flash_iface_read zero_env 0x80000 3 ?w))) =
             read_script 0x80000"
    by (rule run_script [OF read_reg zero_read]) simp_all
  have b: "proj reg_write (new_entries ?w (snd (flash_iface_erase_block zero_env 0x80000 ?w))) =
             erase_block_script 0x80000"
    by (rule run_script [OF erase_block_reg zero_erase_block]) simp
  have s: "proj reg_write (new_entries ?w (snd (flash_iface_erase_sector zero_env 0xFF000 ?w))) =
             erase_sector_script 0xFF000"
    by (rule run_script [OF erase_sector_reg zero_erase_sector]) simp
  have r': "read_script 0x80000 =
     [(REG_CMD_ADDR_HI, [0x07]), (REG_CMD_ADDR_MID, [0xFF]), (REG_CMD_ADDR_LO, [0xFF]),
      (REG_READ_OPCODE, [CMD_OPCODE_READ])]"
    by (simp add: read_script_def addr_script_def)
  have b': "erase_block_script 0x80000 =
     [(REG_CMD_ADDR_HI, [0x08]), (REG_CMD_ADDR_MID, [0x00]), (REG_CMD_ADDR_LO, [0x00]),
      (REG_CMD_ATTR, [0xB8]), (REG_ERASE_OPCODE, [CMD_OPCODE_ERASE_BLOCK]), (REG_CMD_ATTR, [0xB9])]"
    by (simp add: erase_block_script_def)
  have s': "erase_sector_script 0xFF000 =
     [(REG_CMD_ADDR_HI, [0x0F]), (REG_CMD_ADDR_MID, [0xF0]), (REG_CMD_ADDR_LO, [0x00]),
      (REG_CMD_ATTR, [0xB8]), (REG_ERASE_OPCODE, [CMD_OPCODE_ERASE_SECTOR]), (REG_CMD_ATTR, [0xB9])]"
    by (simp add: erase_sector_script_def addr_script_def)
  show ?thesis
    using A [THEN conjunct2, THEN conjunct1]
      A [THEN conjunct2, THEN conjunct2, THEN conjunct2, THEN conjunct2, THEN conjunct2, THEN conjunct1]
      B [THEN conjunct2, THEN conjunct2, THEN conjunct2, THEN conjunct1]
      r [unfolded r'] b [unfolded b'] s [unfolded s']
    by (intro conjI)
qed

text \<open>
  Claim C1 does not hold of the code: the loop that erases the old image steps its offset
  by \<^verbatim>\<open>FLASH_USER_SIZE\<close>, not by the block size, so it runs once. Whatever the bus does, the
  erase phase is the progress report followed by one block erase at the target base. On a
  bus that answers every transaction with zeros, with USER1 active, the erase phase
  programs block 0x80000 alone, and the whole update succeeds with that single block erase
  among its flash operations.
\<close>

theorem erase_phase_single_block:
  "erase_old_image env base_addr 0 w =
     andthen (exec (fu_device_set_progress_full 0 FLASH_USER_SIZE)) (\<lambda>_.
     flash_iface_erase_block env base_addr) w \<and>
   fst (erase_old_image zero_env FLASH_USER2_ADDR 0 (idle_device FLASH_BANK_USER1)) = Inr () \<and>
   proj flash_op_of (new_entries (idle_device FLASH_BANK_USER1)
      (snd (erase_old_image zero_env FLASH_USER2_ADDR 0 (idle_device FLASH_BANK_USER1)))) =
     [OpEraseBlock 0x80000] \<and>
   proj reg_write (new_entries (idle_device FLASH_BANK_USER1)
      (snd (erase_old_image zero_env FLASH_USER2_ADDR 0 (idle_device FLASH_BANK_USER1)))) =
     [(REG_CMD_ADDR_HI, [0x08]), (REG_CMD_ADDR_MID, [0x00]), (REG_CMD_ADDR_LO, [0x00]),
      (REG_CMD_ATTR, [0xB8]), (REG_ERASE_OPCODE, [CMD_OPCODE_ERASE_BLOCK]), (REG_CMD_ATTR, [0xB9])] \<and>
   fst (fu_realtek_mst_device_write_firmware zero_env (Inr (replicate FLASH_USER_SIZE 0))
          (idle_device FLASH_BANK_USER1)) = Inr () \<and>
   proj flash_op_of (new_entries (idle_device FLASH_BANK_USER1)
     (snd (fu_realtek_mst_device_write_firmware zero_env (Inr (replicate FLASH_USER_SIZE 0))
             (idle_device FLASH_BANK_USER1)))) =
     [OpEraseBlock 0x80000, OpWrite 0x80000 0x70000, OpRead 0x80000 0x70000,
      OpEraseSector 0xFF000, OpWrite 0xFF304 5]"
proof -
  let ?w = "idle_device FLASH_BANK_USER1"
  have z: "returns (erase_old_image zero_env FLASH_USER2_ADDR 0) ()"
    by (rule zero_erase_old_image) simp
  have f: "proj flash_op_of (new_entries ?w (snd (erase_old_image zero_env FLASH_USER2_ADDR 0 ?w))) =
             [OpEraseBlock 0x80000]"
    by (rule run_script [OF erase_old_image_flash z])
  have "emits reg_write (erase_block_script FLASH_USER2_ADDR) w0 (erase_old_image zero_env FLASH_USER2_ADDR 0 w0)" for w0
    unfolding erase_old_image_once
    by (rule emits_andthen, rule emits_set_progress, rule erase_block_reg) simp
  from run_script [OF this z]
  have g: "proj reg_write (new_entries ?w (snd (erase_old_image zero_env FLASH_USER2_ADDR 0 ?w))) =
     [(REG_CMD_ADDR_HI, [0x08]), (REG_CMD_ADDR_MID, [0x00]), (REG_CMD_ADDR_LO, [0x00]),
      (REG_CMD_ATTR, [0xB8]), (REG_ERASE_OPCODE, [CMD_OPCODE_ERASE_BLOCK]), (REG_CMD_ATTR, [0xB9])]"
    by (simp add: erase_block_script_def)
  have ab: "active_bank ?w = FLASH_BANK_USER1" by (simp add: idle_device_def)
  have u: "proj flash_op_of (new_entries ?w
     (snd (fu_realtek_mst_device_write_firmware zero_env (Inr (replicate FLASH_USER_SIZE 0)) ?w))) =
     update_ops FLASH_BANK_USER1"
    using emits_new [OF write_firmware_flash zero_update, of ?w] unfolding ab .
  show ?thesis
    using erase_old_image_once [of env base_addr w] returnsD [OF z, of ?w] f g
      zero_update [of ?w] u [unfolded update_ops_user1]
    by (intro conjI)
qed



text \<open>
  Claim C7. When the image has been erased and written and the read-back of 0x70000
  bytes from the target base returns bytes that differ from the image, \<^verbatim>\<open>write_firmware\<close>
  stops there with the error \<^verbatim>\<open>FWUPD_ERROR_WRITE\<close> "flash contents after write do not match
  firmware image": its flash operations are one block erase, one write of the image and
  one read-back, with no second write and no flag sector erase or flag write. In any run
  whatever, a flag sector erase among the flash operations means that the read-back
  succeeded and returned the image.
\<close>

theorem verify_mismatch_stops_update:
  assumes "length fw = FLASH_USER_SIZE"
    and "write_and_read_back env (target_base (active_bank w)) fw w = (Inr readback_buf, w1)"
    and "readback_buf \<noteq> fw"
  shows "fu_realtek_mst_device_write_firmware env (Inr fw) w =
           (Inl (FwupdWrite ''flash contents after write do not match firmware image''), w1) \<and>
         proj flash_op_of (new_entries w w1) =
           [OpEraseBlock (target_base (active_bank w)),
            OpWrite (target_base (active_bank w)) FLASH_USER_SIZE,
            OpRead (target_base (active_bank w)) FLASH_USER_SIZE] \<and>
         (\<forall>env' fw' w' a.
            OpEraseSector a \<in> set (proj flash_op_of
               (new_entries w' (snd (fu_realtek_mst_device_write_firmware env' (Inr fw') w')))) \<longrightarrow>
            (\<exists>w2. write_and_read_back env' (target_base (active_bank w')) fw' w' = (Inr fw', w2)))"
proof (intro conjI allI impI)
  show "fu_realtek_mst_device_write_firmware env (Inr fw) w =
           (Inl (FwupdWrite ''flash contents after write do not match firmware image''), w1)"
    using assms(2,3) by (simp add: write_firmware_split [OF assms(1)] andthen_def)
next
  show "proj flash_op_of (new_entries w w1) =
           [OpEraseBlock (target_base (active_bank w)),
            OpWrite (target_base (active_bank w)) FLASH_USER_SIZE,
            OpRead (target_base (active_bank w)) FLASH_USER_SIZE]"
    using emitsD(2) [of flash_op_of _ w "Inr readback_buf" w1]
      write_and_read_back_flash [of "target_base (active_bank w)" fw w env] assms(1,2)
    by simp
next
  fix env' fw' w' a
  let ?run = "fu_realtek_mst_device_write_firmware env' (Inr fw') w'"
  let ?base = "target_base (active_bank w')"
  assume s: "OpEraseSector a \<in> set (proj flash_op_of (new_entries w' (snd ?run)))"
  have len: "length fw' = FLASH_USER_SIZE"
  proof (rule ccontr)
    assume "length fw' \<noteq> FLASH_USER_SIZE"
    then have "?run = (Inl ReturnIfFail, w')"
      by (simp add: fu_realtek_mst_device_write_firmware_def Let_def andthen_def g_return_val_if_fail_def)
    then show False using s by (simp add: new_entries_def)
  qed
  obtain r w2 where rb: "write_and_read_back env' ?base fw' w' = (r, w2)"
    by (cases "write_and_read_back env' ?base fw' w'")
  have three: "prefix (proj flash_op_of (new_entries w' w2))
      [OpEraseBlock ?base, OpWrite ?base (length fw'), OpRead ?base FLASH_USER_SIZE]"
    using emitsD(1) [of flash_op_of _ w' r w2] write_and_read_back_flash [of ?base fw' w' env'] rb
    by simp
  have no: "OpEraseSector a \<notin> set (proj flash_op_of (new_entries w' w2))"
    using set_mono_prefix [OF three] by auto
  show "\<exists>w2. write_and_read_back env' ?base fw' w' = (Inr fw', w2)"
  proof (cases r)
    case (Inl e)
    then have "?run = (Inl e, w2)"
      using rb by (simp add: write_firmware_split [OF len] andthen_def)
    then show ?thesis using s no by simp
  next
    case (Inr rbuf)
    show ?thesis
    proof (cases "rbuf = fw'")
      case True
      then show ?thesis using rb Inr by simp
    next
      case False
      then have "?run = (Inl (FwupdWrite ''flash contents after write do not match firmware image''), w2)"
        using rb Inr by (auto simp: write_firmware_split [OF len] andthen_def)
      then show ?thesis using s no by simp
    qed
  qed
qed

text \<open>
  An update with an image of 0xA5 bytes, USER1 active, on a bus that answers every
  transaction with zeros: the read-back is all zeros.
\<close>

theorem verify_mismatch_stops_update_witness:
  "length (replicate FLASH_USER_SIZE (0xA5 :: u8)) = FLASH_USER_SIZE \<and>
   fst (write_and_read_back zero_env FLASH_USER2_ADDR (replicate FLASH_USER_SIZE 0xA5)
          (idle_device FLASH_BANK_USER1)) = Inr (replicate FLASH_USER_SIZE 0) \<and>
   replicate FLASH_USER_SIZE (0 :: u8) \<noteq> replicate FLASH_USER_SIZE 0xA5 \<and>
   fu_realtek_mst_device_write_firmware zero_env (Inr (replicate FLASH_USER_SIZE 0xA5))
       (idle_device FLASH_BANK_USER1) =
     (Inl (FwupdWrite ''flash contents after write do not match firmware image''),
      snd (write_and_read_back zero_env FLASH_USER2_ADDR (replicate FLASH_USER_SIZE 0xA5)
            (idle_device FLASH_BANK_USER1))) \<and>
   proj flash_op_of (new_entries (idle_device FLASH_BANK_USER1)
      (snd (write_and_read_back zero_env FLASH_USER2_ADDR (replicate FLASH_USER_SIZE 0xA5)
            (idle_device FLASH_BANK_USER1)))) =
     [OpEraseBlock 0x80000, OpWrite 0x80000 0x70000, OpRead 0x80000 0x70000]"
proof -
  let ?w = "idle_device FLASH_BANK_USER1"
  let ?fw = "replicate FLASH_USER_SIZE (0xA5 :: u8)"
  let ?rb = "write_and_read_back zero_env FLASH_USER2_ADDR ?fw ?w"
  have tb: "target_base (active_bank ?w) = FLASH_USER2_ADDR"
    by (simp add: target_base_def idle_device_def)
  have ok: "fst ?rb = Inr (replicate FLASH_USER_SIZE 0)"
    by (rule returnsD [OF zero_write_and_read_back]) simp_all
  then have run: "write_and_read_back zero_env (target_base (active_bank ?w)) ?fw ?w =
      (Inr (replicate FLASH_USER_SIZE 0), snd ?rb)"
    unfolding tb by (metis prod.collapse)
  have len: "length ?fw = FLASH_USER_SIZE" by simp
  have ne: "replicate FLASH_USER_SIZE (0 :: u8) \<noteq> ?fw" by simp
  note T = verify_mismatch_stops_update [OF len run ne, unfolded tb]
  show ?thesis
    using T [THEN conjunct1] T [THEN conjunct2, THEN conjunct1] ok len ne
    by (intro conjI)
qed

text \<open>
  Claim C8. After the write protect has been switched back on and \<^verbatim>\<open>MCU_MODE\<close> has been
  read: when the ISP bit is clear, attach does nothing more on the bus, removes
  \<^verbatim>\<open>IS_BOOTLOADER\<close>, reports idle and succeeds. When the ISP bit is set, attach reports
  restart, reads register 0xEE, writes it back with bit 1 set and goes on whatever that
  write returned, sleeps one second and reads \<^verbatim>\<open>MCU_MODE\<close> again: with the ISP bit still
  set it fails with \<^verbatim>\<open>FWUPD_ERROR_NEEDS_USER_ACTION\<close> "device failed to reset when requested"
  and adds \<^verbatim>\<open>NEEDS_SHUTDOWN\<close>; with the bit clear it ends as in the first case.
\<close>

theorem attach_reset_outcome:
  assumes "mst_set_gpio88 env False w = (Inr (), w1)"
    and "mst_read_register env REG_MCU_MODE w1 = (Inr v, w2)"
  shows "(v AND MCU_MODE_ISP = 0 \<longrightarrow>
            fu_realtek_mst_device_attach env w =
              (Inr (), fu_device_set_status FWUPD_STATUS_IDLE
                         (fu_device_remove_flag FWUPD_DEVICE_FLAG_IS_BOOTLOADER w2))) \<and>
         (v AND MCU_MODE_ISP \<noteq> 0 \<longrightarrow>
            (\<forall>e w3 v2 w6.
               mst_read_register env 0xEE (fu_device_set_status FWUPD_STATUS_DEVICE_RESTART w2) = (Inr e, w3) \<longrightarrow>
               mst_read_register env REG_MCU_MODE
                 (g_usleep env G_TIME_SPAN_SECOND (snd (mst_write_register env 0xEE (e OR 2) w3))) = (Inr v2, w6) \<longrightarrow>
               (v2 AND MCU_MODE_ISP = MCU_MODE_ISP \<longrightarrow>
                  fu_realtek_mst_device_attach env w =
                    (Inl (FwupdNeedsUserAction ''device failed to reset when requested''),
                     fu_device_add_flag FWUPD_DEVICE_FLAG_NEEDS_SHUTDOWN w6) \<and>
                  FWUPD_DEVICE_FLAG_NEEDS_SHUTDOWN \<in> flags (snd (fu_realtek_mst_device_attach env w))) \<and>
               (v2 AND MCU_MODE_ISP \<noteq> MCU_MODE_ISP \<longrightarrow>
                  fu_realtek_mst_device_attach env w =
                    (Inr (), fu_device_set_status FWUPD_STATUS_IDLE
                               (fu_device_remove_flag FWUPD_DEVICE_FLAG_IS_BOOTLOADER w6)))))"
  using assms
  by (auto simp: fu_realtek_mst_device_attach_def andthen_def exec_def ignoring_def
      fu_device_add_flag_def)

text \<open>
  A chip that stays in ISP mode and does not acknowledge the reset write: the write to
  0xEE fails with errno 6, attach sleeps and re-reads all the same, and fails with
  \<^verbatim>\<open>NEEDS_USER_ACTION\<close> and the \<^verbatim>\<open>NEEDS_SHUTDOWN\<close> flag. A chip that is not in ISP mode:
  attach succeeds, with no write to 0xEE and no sleep.
\<close>

theorem attach_reset_outcome_witness:
  "fst (mst_set_gpio88 stuck_env False (idle_device FLASH_BANK_USER1)) = Inr () \<and>
   fst (mst_read_register stuck_env REG_MCU_MODE
          (snd (mst_set_gpio88 stuck_env False (idle_device FLASH_BANK_USER1)))) = Inr MCU_MODE_ISP \<and>
   fst (fu_realtek_mst_device_attach stuck_env (idle_device FLASH_BANK_USER1)) =
     Inl (FwupdNeedsUserAction ''device failed to reset when requested'') \<and>
   FWUPD_DEVICE_FLAG_NEEDS_SHUTDOWN \<in>
     flags (snd (fu_realtek_mst_device_attach stuck_env (idle_device FLASH_BANK_USER1))) \<and>
   (0, Pwrite [0xEE, 0x02], Inl 6) \<in>
     set (trace (snd (fu_realtek_mst_device_attach stuck_env (idle_device FLASH_BANK_USER1)))) \<and>
   fu_realtek_mst_device_attach zero_env (idle_device FLASH_BANK_USER1) =
     (Inr (), fu_device_set_status FWUPD_STATUS_IDLE
        (fu_device_remove_flag FWUPD_DEVICE_FLAG_IS_BOOTLOADER
          (snd (mst_read_register zero_env REG_MCU_MODE
                 (snd (mst_set_gpio88 zero_env False (idle_device FLASH_BANK_USER1)))))))"
proof -
  let ?w = "idle_device FLASH_BANK_USER1"
  let ?g = "mst_set_gpio88 stuck_env False ?w"
  let ?r = "mst_read_register stuck_env REG_MCU_MODE (snd ?g)"
  let ?e = "mst_read_register stuck_env 0xEE (fu_device_set_status FWUPD_STATUS_DEVICE_RESTART (snd ?r))"
  let ?r2 = "mst_read_register stuck_env REG_MCU_MODE
                 (g_usleep stuck_env G_TIME_SPAN_SECOND (snd (mst_write_register stuck_env 0xEE (0 OR 2) (snd ?e))))"
  have g: "fst ?g = Inr ()"
    by (simp add: bus_defs stuck_env_def idle_device_def)
  have r: "fst ?r = Inr MCU_MODE_ISP"
    by (simp add: bus_defs stuck_env_def idle_device_def)
  have e: "fst ?e = Inr 0"
    by (simp add: bus_defs stuck_env_def idle_device_def fu_device_set_status_def host_def)
  have r2: "fst ?r2 = Inr MCU_MODE_ISP"
    by (simp add: bus_defs stuck_env_def idle_device_def fu_device_set_status_def host_def g_usleep_def)
  have G: "?g = (Inr (), snd ?g)" using g by (metis prod.collapse)
  have R: "?r = (Inr MCU_MODE_ISP, snd ?r)" using r by (metis prod.collapse)
  have E: "?e = (Inr 0, snd ?e)" using e by (metis prod.collapse)
  have R2: "?r2 = (Inr MCU_MODE_ISP, snd ?r2)" using r2 by (metis prod.collapse)
  have i1: "MCU_MODE_ISP AND MCU_MODE_ISP \<noteq> 0" by simp
  have i2: "MCU_MODE_ISP AND MCU_MODE_ISP = MCU_MODE_ISP" by simp
  note T = attach_reset_outcome [OF G R, THEN conjunct2, rule_format, OF i1 E R2,
      THEN conjunct1, rule_format, OF i2]
  have a: "fu_realtek_mst_device_attach stuck_env ?w =
      (Inl (FwupdNeedsUserAction ''device failed to reset when requested''),
       fu_device_add_flag FWUPD_DEVICE_FLAG_NEEDS_SHUTDOWN (snd ?r2))"
    using T [THEN conjunct1] by simp
  have f: "FWUPD_DEVICE_FLAG_NEEDS_SHUTDOWN \<in> flags (snd (fu_realtek_mst_device_attach stuck_env ?w))"
    using T [THEN conjunct2] by simp
  have t: "(0, Pwrite [0xEE, 0x02], Inl 6) \<in> set (trace (snd (fu_realtek_mst_device_attach stuck_env ?w)))"
    unfolding a
    by (simp add: bus_defs stuck_env_def idle_device_def fu_device_set_status_def host_def g_usleep_def
        fu_device_add_flag_def)
  let ?zg = "mst_set_gpio88 zero_env False ?w"
  let ?zr = "mst_read_register zero_env REG_MCU_MODE (snd ?zg)"
  have zg: "fst ?zg = Inr ()"
    by (simp add: bus_defs zero_env_def idle_device_def)
  have zr: "fst ?zr = Inr 0"
    by (rule returnsD [OF zero_read_register])
  have ZG: "?zg = (Inr (), snd ?zg)" using zg by (metis prod.collapse)
  have ZR: "?zr = (Inr 0, snd ?zr)" using zr by (metis prod.collapse)
  have z: "fu_realtek_mst_device_attach zero_env ?w =
     (Inr (), fu_device_set_status FWUPD_STATUS_IDLE
        (fu_device_remove_flag FWUPD_DEVICE_FLAG_IS_BOOTLOADER (snd ?zr)))"
    using attach_reset_outcome [OF ZG ZR, THEN conjunct1] by simp
  have a': "fst (fu_realtek_mst_device_attach stuck_env ?w) =
      Inl (FwupdNeedsUserAction ''device failed to reset when requested'')"
    unfolding a by simp
  show ?thesis
    using g r a' f t z by (intro conjI)
qed




text \<open>
  Claim C5. Whatever the bus does, the bus transactions of a flash read are an initial
  part of: the three address registers written with the bytes of the address minus one
  modulo 2^24 (high, middle, low), the read opcode, the pointer write \<^verbatim>\<open>[0x70]\<close>, one read
  of a single byte, then the data reads. When the read succeeds all of them happened, the
  address was below \<^verbatim>\<open>FLASH_SIZE\<close>, and the bytes that the bus delivered are one leading byte
  followed by exactly the contents of the buffer: the first byte delivered is dropped and
  every later byte is stored, in order. A read at address 0 programs 0xFF, 0xFF, 0xFF.
\<close>

theorem read_starts_one_byte_early:
  assumes "flash_iface_read env address buf_size w = (r, w')"
  shows "prefix (proj bus_op (new_entries w w'))
           ([Pwrite [REG_CMD_ADDR_HI, ucast (drop_bit 16 ((address - 1) AND 0xFFFFFF))],
             Pwrite [REG_CMD_ADDR_MID, ucast (drop_bit 8 ((address - 1) AND 0xFFFFFF))],
             Pwrite [REG_CMD_ADDR_LO, ucast ((address - 1) AND 0xFFFFFF)],
             Pwrite [REG_READ_OPCODE, CMD_OPCODE_READ],
             Pwrite [REG_WRITE_FIFO],
             Pread 1] @
            map (\<lambda>(n, d). Pread n) (read_steps buf_size 0)) \<and>
         (\<forall>buf. r = Inr buf \<longrightarrow>
            unat address < FLASH_SIZE \<and>
            proj bus_op (new_entries w w') = read_bus_script address buf_size \<and>
            length buf = buf_size \<and>
            (\<exists>b. bytes_received (new_entries w w') = b # buf)) \<and>
         sum_list (map fst (read_steps buf_size 0)) = buf_size \<and>
         unat (ucast (drop_bit 16 ((address - 1) AND 0xFFFFFF)) :: u8) * 65536 +
         unat (ucast (drop_bit 8 ((address - 1) AND 0xFFFFFF)) :: u8) * 256 +
         unat (ucast ((address - 1) AND 0xFFFFFF) :: u8) = (unat address + 16777215) mod 16777216 \<and>
         (address = 0 \<longrightarrow>
            (ucast (drop_bit 16 ((address - 1) AND 0xFFFFFF)) :: u8) = 0xFF \<and>
            (ucast (drop_bit 8 ((address - 1) AND 0xFFFFFF)) :: u8) = 0xFF \<and>
            (ucast ((address - 1) AND 0xFFFFFF) :: u8) = 0xFF)"
proof -
  have e: "emits bus_op (read_bus_script address buf_size) w (r, w')"
    using read_bus [of address buf_size w env] assms by simp
  have p: "prefix (proj bus_op (new_entries w w')) (read_bus_script address buf_size)"
    by (rule emitsD(1) [OF e])
  have q: "\<forall>buf. r = Inr buf \<longrightarrow>
            unat address < FLASH_SIZE \<and>
            proj bus_op (new_entries w w') = read_bus_script address buf_size \<and>
            length buf = buf_size \<and>
            (\<exists>b. bytes_received (new_entries w w') = b # buf)"
  proof (intro allI impI)
    fix buf assume r: "r = Inr buf"
    then have "proj bus_op (new_entries w w') = read_bus_script address buf_size"
      using emitsD(2) [OF e] by simp
    then show "unat address < FLASH_SIZE \<and>
            proj bus_op (new_entries w w') = read_bus_script address buf_size \<and>
            length buf = buf_size \<and>
            (\<exists>b. bytes_received (new_entries w w') = b # buf)"
      using read_result [OF assms [unfolded r]] read_discards_first [OF assms [unfolded r]] by simp
  qed
  have lt: "unat ((address - 1) AND 0xFFFFFF) < 16777216"
    unfolding unat_read_address by simp
  have v: "unat (ucast (drop_bit 16 ((address - 1) AND 0xFFFFFF)) :: u8) * 65536 +
         unat (ucast (drop_bit 8 ((address - 1) AND 0xFFFFFF)) :: u8) * 256 +
         unat (ucast ((address - 1) AND 0xFFFFFF) :: u8) = (unat address + 16777215) mod 16777216"
    using address_bytes_value [OF lt] unfolding unat_read_address .
  have z: "address = 0 \<longrightarrow>
            (ucast (drop_bit 16 ((address - 1) AND 0xFFFFFF)) :: u8) = 0xFF \<and>
            (ucast (drop_bit 8 ((address - 1) AND 0xFFFFFF)) :: u8) = 0xFF \<and>
            (ucast ((address - 1) AND 0xFFFFFF) :: u8) = 0xFF"
    by simp
  show ?thesis
    using p [unfolded read_bus_script_def] q read_steps_sum [of 0 buf_size] v z
    by (intro conjI) simp_all
qed

text \<open>
  Two instances of C5. A read of 600 bytes at address 0 on a bus that answers every
  transaction with zeros: the address registers get 0xFF, 0xFF, 0xFF and the data come in
  reads of 256, 256 and 88 bytes. A read of 4 bytes at 0x80000 on a bus whose first read
  delivers 0xEE and every later one 0x11: the address registers get 0x07, 0xFF, 0xFF, the
  bus delivers 0xEE and four times 0x11, and the buffer holds the four 0x11.
\<close>

theorem read_starts_one_byte_early_witness:
  "fst (flash_iface_read zero_env 0 600 (idle_device FLASH_BANK_USER1)) = Inr (replicate 600 0) \<and>
   proj bus_op (new_entries (idle_device FLASH_BANK_USER1)
      (snd (flash_iface_read zero_env 0 600 (idle_device FLASH_BANK_USER1)))) =
     [Pwrite [REG_CMD_ADDR_HI, 0xFF], Pwrite [REG_CMD_ADDR_MID, 0xFF], Pwrite [REG_CMD_ADDR_LO, 0xFF],
      Pwrite [REG_READ_OPCODE, CMD_OPCODE_READ], Pwrite [REG_WRITE_FIFO], Pread 1,
      Pread 256, Pread 256, Pread 88] \<and>
   fst (flash_iface_read marked_env 0x80000 4 (idle_device FLASH_BANK_USER1)) =
     Inr [0x11, 0x11, 0x11, 0x11] \<and>
   proj bus_op (new_entries (idle_device FLASH_BANK_USER1)
      (snd (flash_iface_read marked_env 0x80000 4 (idle_device FLASH_BANK_USER1)))) =
     [Pwrite [REG_CMD_ADDR_HI, 0x07], Pwrite [REG_CMD_ADDR_MID, 0xFF], Pwrite [REG_CMD_ADDR_LO, 0xFF],
      Pwrite [REG_READ_OPCODE, CMD_OPCODE_READ], Pwrite [REG_WRITE_FIFO], Pread 1, Pread 4] \<and>
   bytes_received (new_entries (idle_device FLASH_BANK_USER1)
      (snd (flash_iface_read marked_env 0x80000 4 (idle_device FLASH_BANK_USER1)))) =
     [0xEE, 0x11, 0x11, 0x11, 0x11]"
proof -
  let ?w = "idle_device FLASH_BANK_USER1"
  let ?run = "flash_iface_read zero_env 0 600 ?w"
  have ok: "fst ?run = Inr (replicate 600 0)"
    by (rule returnsD [OF zero_read]) simp_all
  have "?run = (fst ?run, snd ?run)" by simp
  note T = read_starts_one_byte_early [OF this]
  have s: "read_steps 600 0 = [(256, 256), (256, 512), (88, 600)]"
    by (simp add: read_steps.simps Let_def)
  have "proj bus_op (new_entries ?w (snd ?run)) = read_bus_script 0 600"
    using T [THEN conjunct2, THEN conjunct1] ok by simp
  then have a: "proj bus_op (new_entries ?w (snd ?run)) =
     [Pwrite [REG_CMD_ADDR_HI, 0xFF], Pwrite [REG_CMD_ADDR_MID, 0xFF], Pwrite [REG_CMD_ADDR_LO, 0xFF],
      Pwrite [REG_READ_OPCODE, CMD_OPCODE_READ], Pwrite [REG_WRITE_FIFO], Pread 1,
      Pread 256, Pread 256, Pread 88]"
    by (simp add: read_bus_script_def s)
  let ?run2 = "flash_iface_read marked_env 0x80000 4 ?w"
  have r4: "replicate 4 (0x11 :: u8) = [0x11, 0x11, 0x11, 0x11]"
    by (simp add: numeral_eq_Suc)
  have ok2: "fst ?run2 = Inr [0x11, 0x11, 0x11, 0x11]"
    by (simp add: flash_iface_read_def g_return_val_if_fail_def exec_def g_debug_def host_def
        bus_defs read_loop_unfold fu_device_set_progress_full_def marked_env_def idle_device_def
        is_pread_def r4)
  have "?run2 = (fst ?run2, snd ?run2)" by simp
  note T2 = read_starts_one_byte_early [OF this]
  have s2: "read_steps 4 0 = [(4, 4)]"
    by (simp add: read_steps.simps Let_def)
  have b: "proj bus_op (new_entries ?w (snd ?run2)) =
     [Pwrite [REG_CMD_ADDR_HI, 0x07], Pwrite [REG_CMD_ADDR_MID, 0xFF], Pwrite [REG_CMD_ADDR_LO, 0xFF],
      Pwrite [REG_READ_OPCODE, CMD_OPCODE_READ], Pwrite [REG_WRITE_FIFO], Pread 1, Pread 4]"
    using T2 [THEN conjunct2, THEN conjunct1] ok2 by (simp add: read_bus_script_def s2)
  have c: "bytes_received (new_entries ?w (snd ?run2)) = [0xEE, 0x11, 0x11, 0x11, 0x11]"
    by (simp add: flash_iface_read_def g_return_val_if_fail_def exec_def g_debug_def host_def
        bus_defs read_loop_unfold fu_device_set_progress_full_def marked_env_def idle_device_def
        is_pread_def new_entries_def r4)
  show ?thesis
    using ok a ok2 b c by simp
qed

text \<open>
  Claim C9. \<^verbatim>\<open>probe_version\<close> (setup and reload) first removes \<^verbatim>\<open>UPDATABLE\<close>, sets the
  active bank to invalid and clears the version, then asks for the dual-bank state. When
  that query succeeds, \<^verbatim>\<open>probe_version\<close> succeeds, and: \<^verbatim>\<open>UPDATABLE\<close> is set exactly when
  the state is enabled with mode \<^verbatim>\<open>DUAL_BANK_DIFF\<close>; in that case the active bank is
  recorded, and when user bank 1 or 2 is active the version is a string \<open>ma @ ''.'' @ mi\<close>
  where \<open>ma\<close> is the decimal numeral of the first byte of that bank's version pair and \<open>mi\<close>
  the decimal numeral of the second; it stays unset when the boot bank is active; otherwise
  the device is left as the query left it, cleared.
\<close>

theorem probe_version_publishes:
  assumes "fu_realtek_mst_device_get_dual_bank_info env info0 (precleared w) = (Inr info, w1)"
  shows "\<exists>w'. fu_realtek_mst_device_probe_version env info0 w = (Inr (), w') \<and>
           trace w' = trace w1 \<and>
           (FWUPD_DEVICE_FLAG_UPDATABLE \<in> flags w' \<longleftrightarrow>
              is_enabled info \<and> mode info = DUAL_BANK_DIFF) \<and>
           (is_enabled info \<and> mode info = DUAL_BANK_DIFF \<longrightarrow>
              active_bank w' = info_active_bank info \<and>
              info_active_bank info \<le> FLASH_BANK_MAX_VALUE \<and>
              (info_active_bank info = FLASH_BANK_USER1 \<longrightarrow>
                 version w' = Some (version_str (user1_version info)) \<and>
                 (\<exists>ma mi. version w' = Some (ma @ ''.'' @ mi) \<and>
                    denotes ma (unat (fst (user1_version info))) \<and>
                    denotes mi (unat (snd (user1_version info))))) \<and>
              (info_active_bank info = FLASH_BANK_USER2 \<longrightarrow>
                 version w' = Some (version_str (user2_version info)) \<and>
                 (\<exists>ma mi. version w' = Some (ma @ ''.'' @ mi) \<and>
                    denotes ma (unat (fst (user2_version info))) \<and>
                    denotes mi (unat (snd (user2_version info))))) \<and>
              (info_active_bank info = FLASH_BANK_BOOT \<longrightarrow> version w' = None)) \<and>
           (\<not> (is_enabled info \<and> mode info = DUAL_BANK_DIFF) \<longrightarrow>
              w' = w1 \<and> active_bank w' = FLASH_BANK_INVALID \<and> version w' = None)"
proof -
  from dual_bank_info_result [OF assms]
  have h: "flags w1 = flags (precleared w)" "active_bank w1 = active_bank (precleared w)"
    "version w1 = version (precleared w)"
    and r: "is_enabled info \<longrightarrow> info_active_bank info \<le> FLASH_BANK_MAX_VALUE"
    by (simp_all add: same_host_def)
  have p: "FWUPD_DEVICE_FLAG_UPDATABLE \<notin> flags w1" "active_bank w1 = FLASH_BANK_INVALID"
    "version w1 = None"
    unfolding h
    by (simp_all add: precleared_def fu_device_set_version_def set_active_bank_def
        fu_device_remove_flag_def)
  have d: "\<exists>ma mi. Some (version_str v) = Some (ma @ ''.'' @ mi) \<and>
                   denotes ma (unat (fst v)) \<and> denotes mi (unat (snd v))" for v
    using version_str_denotes [of v] by simp
  show ?thesis
  proof (cases "is_enabled info \<and> mode info = DUAL_BANK_DIFF")
    case False
    then have "fu_realtek_mst_device_probe_version env info0 w = (Inr (), w1)"
      using assms by (auto simp: probe_version_unfold andthen_def)
    then show ?thesis using False p by auto
  next
    case True
    then have le: "info_active_bank info \<le> FLASH_BANK_MAX_VALUE" using r by simp
    let ?w' = "snd (fu_realtek_mst_device_probe_version env info0 w)"
    have run: "fu_realtek_mst_device_probe_version env info0 w = (Inr (), ?w')"
      and tr: "trace ?w' = trace w1"
      and fl: "FWUPD_DEVICE_FLAG_UPDATABLE \<in> flags ?w'"
      and ab: "active_bank ?w' = info_active_bank info"
      and v1: "info_active_bank info = FLASH_BANK_USER1 \<Longrightarrow>
                 version ?w' = Some (version_str (user1_version info))"
      and v2: "info_active_bank info = FLASH_BANK_USER2 \<Longrightarrow>
                 version ?w' = Some (version_str (user2_version info))"
      and v0: "info_active_bank info = FLASH_BANK_BOOT \<Longrightarrow> version ?w' = None"
      using assms True le p
      by (auto simp: probe_version_unfold andthen_def exec_def g_return_val_if_fail_def
          fu_device_add_flag_def set_active_bank_def fu_device_set_version_def)
    show ?thesis
      apply (rule exI [of _ ?w'])
      apply (intro conjI impI)
      subgoal by (rule run)
      subgoal by (rule tr)
      subgoal using fl True by simp
      subgoal by (rule ab)
      subgoal by (rule le)
      subgoal by (erule v1)
      subgoal using d [of "user1_version info"] v1 by simp
      subgoal by (erule v2)
      subgoal using d [of "user2_version info"] v2 by simp
      subgoal by (erule v0)
      subgoal using True by simp
      subgoal using True by simp
      subgoal using True by simp
      done
  qed
qed

text \<open>
  Two instances of C9. Scenario E1 of the spec: the response
  \<^verbatim>\<open>CA 09 01 01 02 02 05 03 07 00 00\<close>, decoded over a struct that held other values, gives
  enabled, mode Diff, active bank USER2 and the versions 2.5 and 3.7; the device becomes
  \<^verbatim>\<open>UPDATABLE\<close> with version "3.7". The response \<^verbatim>\<open>CA 09 01 01 01 0A FF 03 07 00 00\<close> gives
  active bank USER1 with the version pair (10, 255); the version becomes "10.255".
\<close>

theorem probe_version_publishes_witness:
  "fst (fu_realtek_mst_device_get_dual_bank_info e1_env junk_info
          (precleared (idle_device FLASH_BANK_INVALID))) =
     Inr \<lparr>is_enabled = True, mode = DUAL_BANK_DIFF, info_active_bank = FLASH_BANK_USER2,
          user1_version = (2, 5), user2_version = (3, 7)\<rparr> \<and>
   fst (fu_realtek_mst_device_probe_version e1_env junk_info (idle_device FLASH_BANK_INVALID)) = Inr () \<and>
   FWUPD_DEVICE_FLAG_UPDATABLE \<in>
     flags (snd (fu_realtek_mst_device_probe_version e1_env junk_info (idle_device FLASH_BANK_INVALID))) \<and>
   active_bank (snd (fu_realtek_mst_device_probe_version e1_env junk_info (idle_device FLASH_BANK_INVALID)))
     = FLASH_BANK_USER2 \<and>
   version (snd (fu_realtek_mst_device_probe_version e1_env junk_info (idle_device FLASH_BANK_INVALID)))
     = Some ''3.7'' \<and>
   fst (fu_realtek_mst_device_get_dual_bank_info e2_env junk_info
          (precleared (idle_device FLASH_BANK_INVALID))) =
     Inr \<lparr>is_enabled = True, mode = DUAL_BANK_DIFF, info_active_bank = FLASH_BANK_USER1,
          user1_version = (10, 255), user2_version = (3, 7)\<rparr> \<and>
   fst (fu_realtek_mst_device_probe_version e2_env junk_info (idle_device FLASH_BANK_INVALID)) = Inr () \<and>
   active_bank (snd (fu_realtek_mst_device_probe_version e2_env junk_info (idle_device FLASH_BANK_INVALID)))
     = FLASH_BANK_USER1 \<and>
   version (snd (fu_realtek_mst_device_probe_version e2_env junk_info (idle_device FLASH_BANK_INVALID)))
     = Some ''10.255''"
proof -
  let ?w = "idle_device FLASH_BANK_INVALID"
  let ?q = "fu_realtek_mst_device_get_dual_bank_info e1_env junk_info (precleared ?w)"
  let ?info = "\<lparr>is_enabled = True, mode = DUAL_BANK_DIFF, info_active_bank = FLASH_BANK_USER2,
          user1_version = (2, 5), user2_version = (3, 7)\<rparr>"
  have q: "?q = (Inr ?info, snd ?q)"
    using e1_query [of "precleared ?w"] by (metis prod.collapse)
  from probe_version_publishes [OF q] obtain w' where
    r: "fu_realtek_mst_device_probe_version e1_env junk_info ?w = (Inr (), w')" and
    u: "FWUPD_DEVICE_FLAG_UPDATABLE \<in> flags w'" and
    a: "active_bank w' = FLASH_BANK_USER2" and
    v: "version w' = Some (version_str (3, 7))"
    by auto
  let ?q2 = "fu_realtek_mst_device_get_dual_bank_info e2_env junk_info (precleared ?w)"
  let ?info2 = "\<lparr>is_enabled = True, mode = DUAL_BANK_DIFF, info_active_bank = FLASH_BANK_USER1,
          user1_version = (10, 255), user2_version = (3, 7)\<rparr>"
  have q2: "?q2 = (Inr ?info2, snd ?q2)"
    using e2_query [of "precleared ?w"] by (metis prod.collapse)
  from probe_version_publishes [OF q2] obtain w'' where
    r2: "fu_realtek_mst_device_probe_version e2_env junk_info ?w = (Inr (), w'')" and
    a2: "active_bank w'' = FLASH_BANK_USER1" and
    v2: "version w'' = Some (version_str (10, 255))"
    by auto
  show ?thesis
    using e1_query [of "precleared ?w"] r u a v e2_query [of "precleared ?w"] r2 a2 v2
    by (simp add: version_str_3_7 version_str_10_255)
qed

text \<open>
  Claim C2. Whatever the bus does and whatever image is passed, \<^verbatim>\<open>write_firmware\<close> targets
  the bank that is not active: USER2 (base 0x80000, flag 0xFF304) when USER1 is active and
  USER1 (base 0x10000, flag 0xFE304) otherwise. This holds of what it sends to the chip: its
  register writes are an initial part of the script of a block erase at the target base, the
  page writes of the image from the target base on, the read-back at the target base, the
  erase of the target flag sector and the page write of the 5-byte flag record, and all of it
  when the update succeeds. The flash commands that these register writes start, whatever
  the registers held before, are then the block erase, the page programs, the sector erase
  and the program of the flag record; every command started, also by an update that fails
  on the way, modifies only addresses of the target (its image, or the sector of its flag
  record) and no address of the active user bank's image or of its flag record. The same
  holds of the operations that it announces with \<^verbatim>\<open>g_debug\<close>.
\<close>

theorem update_targets_inactive_bank:
  assumes "fu_realtek_mst_device_write_firmware env firmware_bytes w = (r, w')"
  shows "prefix (proj flash_op_of (new_entries w w')) (update_ops (active_bank w)) \<and>
         (r = Inr () \<longrightarrow> proj flash_op_of (new_entries w w') = update_ops (active_bank w)) \<and>
         (\<forall>op \<in> set (proj flash_op_of (new_entries w w')).
            modified op \<inter> (bank_image (active_bank w) \<union> bank_flag (active_bank w)) = {}) \<and>
         (active_bank w = FLASH_BANK_USER1 \<longrightarrow> update_ops (active_bank w) =
            [OpEraseBlock FLASH_USER2_ADDR, OpWrite FLASH_USER2_ADDR FLASH_USER_SIZE,
             OpRead FLASH_USER2_ADDR FLASH_USER_SIZE, OpEraseSector 0xFF000, OpWrite FLASH_FLAG2_ADDR 5]) \<and>
         (active_bank w \<noteq> FLASH_BANK_USER1 \<longrightarrow> update_ops (active_bank w) =
            [OpEraseBlock FLASH_USER1_ADDR, OpWrite FLASH_USER1_ADDR FLASH_USER_SIZE,
             OpRead FLASH_USER1_ADDR FLASH_USER_SIZE, OpEraseSector 0xFE000, OpWrite FLASH_FLAG1_ADDR 5]) \<and>
         (\<forall>fw. firmware_bytes = Inr fw \<longrightarrow>
            prefix (proj reg_write (new_entries w w')) (update_script (active_bank w) fw) \<and>
            (r = Inr () \<longrightarrow>
               proj reg_write (new_entries w w') = update_script (active_bank w) fw \<and>
               (\<forall>rf. flash_cmds rf (proj reg_write (new_entries w w')) =
                       update_cmds (active_bank w) fw))) \<and>
         (\<forall>rf. \<forall>c \<in> set (flash_cmds rf (proj reg_write (new_entries w w'))).
            cmd_modifies c \<subseteq> target_region (active_bank w) \<and>
            cmd_modifies c \<inter> (bank_image (active_bank w) \<union> bank_flag (active_bank w)) = {}) \<and>
         (active_bank w = FLASH_BANK_USER1 \<longrightarrow>
            target_region (active_bank w) = {0x80000 ..< 0xF0000} \<union> {0xFF000 ..< 0x100000} \<and>
            (\<forall>fw. update_cmds (active_bank w) fw =
               Erase CMD_OPCODE_ERASE_BLOCK 0x80000 #
               map (\<lambda>(a, chunk). Program (unat a) (length chunk)) (pages FLASH_USER2_ADDR fw) @
               [Erase CMD_OPCODE_ERASE_SECTOR 0xFF000, Program 0xFF304 5])) \<and>
         (active_bank w \<noteq> FLASH_BANK_USER1 \<longrightarrow>
            target_region (active_bank w) = {0x10000 ..< 0x80000} \<union> {0xFE000 ..< 0xFF000} \<and>
            (\<forall>fw. update_cmds (active_bank w) fw =
               Erase CMD_OPCODE_ERASE_BLOCK 0x10000 #
               map (\<lambda>(a, chunk). Program (unat a) (length chunk)) (pages FLASH_USER1_ADDR fw) @
               [Erase CMD_OPCODE_ERASE_SECTOR 0xFE000, Program 0xFE304 5]))"
proof -
  have e: "emits flash_op_of (update_ops (active_bank w)) w (r, w')"
    using write_firmware_flash_any [of w env firmware_bytes] assms by simp
  have p: "prefix (proj flash_op_of (new_entries w w')) (update_ops (active_bank w))"
    by (rule emitsD(1) [OF e])
  have q: "r = Inr () \<longrightarrow> proj flash_op_of (new_entries w w') = update_ops (active_bank w)"
    using emitsD(2) [OF e] by auto
  have d: "\<forall>op \<in> set (proj flash_op_of (new_entries w w')).
            modified op \<inter> (bank_image (active_bank w) \<union> bank_flag (active_bank w)) = {}"
    using set_mono_prefix [OF p] update_ops_disjoint by blast
  have o1: "active_bank w = FLASH_BANK_USER1 \<longrightarrow> update_ops (active_bank w) =
            [OpEraseBlock FLASH_USER2_ADDR, OpWrite FLASH_USER2_ADDR FLASH_USER_SIZE,
             OpRead FLASH_USER2_ADDR FLASH_USER_SIZE, OpEraseSector 0xFF000, OpWrite FLASH_FLAG2_ADDR 5]"
    using update_ops_user1 by simp
  have o2: "active_bank w \<noteq> FLASH_BANK_USER1 \<longrightarrow> update_ops (active_bank w) =
            [OpEraseBlock FLASH_USER1_ADDR, OpWrite FLASH_USER1_ADDR FLASH_USER_SIZE,
             OpRead FLASH_USER1_ADDR FLASH_USER_SIZE, OpEraseSector 0xFE000, OpWrite FLASH_FLAG1_ADDR 5]"
    using update_ops_other by simp
  have s: "\<forall>fw. firmware_bytes = Inr fw \<longrightarrow>
            prefix (proj reg_write (new_entries w w')) (update_script (active_bank w) fw) \<and>
            (r = Inr () \<longrightarrow>
               proj reg_write (new_entries w w') = update_script (active_bank w) fw \<and>
               (\<forall>rf. flash_cmds rf (proj reg_write (new_entries w w')) =
                       update_cmds (active_bank w) fw))"
  proof (intro allI impI)
    fix fw assume fw: "firmware_bytes = Inr fw"
    have er: "emits reg_write (update_script (active_bank w) fw) w (r, w')"
      using write_firmware_reg [of w fw env] assms fw by simp
    have pr: "prefix (proj reg_write (new_entries w w')) (update_script (active_bank w) fw)"
      by (rule emitsD(1) [OF er])
    have ok: "proj reg_write (new_entries w w') = update_script (active_bank w) fw \<and>
              (\<forall>rf. flash_cmds rf (proj reg_write (new_entries w w')) =
                      update_cmds (active_bank w) fw)" if "r = Inr ()"
    proof -
      have eq: "proj reg_write (new_entries w w') = update_script (active_bank w) fw"
        using emitsD(2) [OF er] that by simp
      have "length fw = FLASH_USER_SIZE"
      proof (rule ccontr)
        assume "length fw \<noteq> FLASH_USER_SIZE"
        then have "isl r" using write_firmware_rejects [OF assms] fw by simp
        then show False using that by simp
      qed
      then show ?thesis unfolding eq using flash_cmds_update by simp
    qed
    show "prefix (proj reg_write (new_entries w w')) (update_script (active_bank w) fw) \<and>
            (r = Inr () \<longrightarrow>
               proj reg_write (new_entries w w') = update_script (active_bank w) fw \<and>
               (\<forall>rf. flash_cmds rf (proj reg_write (new_entries w w')) =
                       update_cmds (active_bank w) fw))"
      using pr ok by blast
  qed
  have c: "\<forall>rf. \<forall>c \<in> set (flash_cmds rf (proj reg_write (new_entries w w'))).
            cmd_modifies c \<subseteq> target_region (active_bank w) \<and>
            cmd_modifies c \<inter> (bank_image (active_bank w) \<union> bank_flag (active_bank w)) = {}"
    using write_firmware_cmds [OF assms] target_region_spares_active [of "active_bank w"]
    by blast
  have t1: "active_bank w = FLASH_BANK_USER1 \<longrightarrow>
            target_region (active_bank w) = {0x80000 ..< 0xF0000} \<union> {0xFF000 ..< 0x100000} \<and>
            (\<forall>fw. update_cmds (active_bank w) fw =
               Erase CMD_OPCODE_ERASE_BLOCK 0x80000 #
               map (\<lambda>(a, chunk). Program (unat a) (length chunk)) (pages FLASH_USER2_ADDR fw) @
               [Erase CMD_OPCODE_ERASE_SECTOR 0xFF000, Program 0xFF304 5])"
    using target_region_user1 update_cmds_user1 by simp
  have t2: "active_bank w \<noteq> FLASH_BANK_USER1 \<longrightarrow>
            target_region (active_bank w) = {0x10000 ..< 0x80000} \<union> {0xFE000 ..< 0xFF000} \<and>
            (\<forall>fw. update_cmds (active_bank w) fw =
               Erase CMD_OPCODE_ERASE_BLOCK 0x10000 #
               map (\<lambda>(a, chunk). Program (unat a) (length chunk)) (pages FLASH_USER1_ADDR fw) @
               [Erase CMD_OPCODE_ERASE_SECTOR 0xFE000, Program 0xFE304 5])"
    using target_region_other update_cmds_other by simp
  show ?thesis
    apply (intro conjI)
    subgoal by (rule p)
    subgoal by (rule q)
    subgoal by (rule d)
    subgoal by (rule o1)
    subgoal by (rule o2)
    subgoal by (rule s)
    subgoal by (rule c)
    subgoal by (rule t1)
    subgoal by (rule t2)
    done
qed

text \<open>
  An instance of C2: a complete update on a bus that answers every transaction with
  zeros, USER1 active. The update succeeds; it announces the five operations on USER2; its
  first six register writes are the block erase at 0x80000 (address bytes 0x08, 0x00, 0x00,
  opcode 0xD8, start); the commands its register writes start are the block erase at
  0x80000, the page programs of the image from 0x80000 on, the sector erase at 0xFF000 and
  the program of five bytes at 0xFF304, and the two erases and the flag program leave the
  image and the flag record of USER1 alone.
\<close>

theorem update_targets_inactive_bank_witness:
  "fst (fu_realtek_mst_device_write_firmware zero_env (Inr (replicate FLASH_USER_SIZE 0))
          (idle_device FLASH_BANK_USER1)) = Inr () \<and>
   proj flash_op_of (new_entries (idle_device FLASH_BANK_USER1)
     (snd (fu_realtek_mst_device_write_firmware zero_env (Inr (replicate FLASH_USER_SIZE 0))
             (idle_device FLASH_BANK_USER1)))) =
     [OpEraseBlock 0x80000, OpWrite 0x80000 0x70000, OpRead 0x80000 0x70000,
      OpEraseSector 0xFF000, OpWrite 0xFF304 5] \<and>
   take 6 (proj reg_write (new_entries (idle_device FLASH_BANK_USER1)
     (snd (fu_realtek_mst_device_write_firmware zero_env (Inr (replicate FLASH_USER_SIZE 0))
             (idle_device FLASH_BANK_USER1))))) =
     [(REG_CMD_ADDR_HI, [0x08]), (REG_CMD_ADDR_MID, [0x00]), (REG_CMD_ADDR_LO, [0x00]),
      (REG_CMD_ATTR, [0xB8]), (REG_ERASE_OPCODE, [CMD_OPCODE_ERASE_BLOCK]), (REG_CMD_ATTR, [0xB9])] \<and>
   flash_cmds (\<lambda>a. 0) (proj reg_write (new_entries (idle_device FLASH_BANK_USER1)
     (snd (fu_realtek_mst_device_write_firmware zero_env (Inr (replicate FLASH_USER_SIZE 0))
             (idle_device FLASH_BANK_USER1))))) =
     Erase CMD_OPCODE_ERASE_BLOCK 0x80000 #
     map (\<lambda>(a, chunk). Program (unat a) (length chunk))
       (pages FLASH_USER2_ADDR (replicate FLASH_USER_SIZE 0)) @
     [Erase CMD_OPCODE_ERASE_SECTOR 0xFF000, Program 0xFF304 5] \<and>
   cmd_modifies (Erase CMD_OPCODE_ERASE_BLOCK 0x80000) = {0x80000 ..< 0x90000} \<and>
   cmd_modifies (Erase CMD_OPCODE_ERASE_SECTOR 0xFF000) = {0xFF000 ..< 0x100000} \<and>
   cmd_modifies (Erase CMD_OPCODE_ERASE_BLOCK 0x80000) \<inter>
     (bank_image FLASH_BANK_USER1 \<union> bank_flag FLASH_BANK_USER1) = {} \<and>
   cmd_modifies (Erase CMD_OPCODE_ERASE_SECTOR 0xFF000) \<inter>
     (bank_image FLASH_BANK_USER1 \<union> bank_flag FLASH_BANK_USER1) = {} \<and>
   cmd_modifies (Program 0xFF304 5) \<inter>
     (bank_image FLASH_BANK_USER1 \<union> bank_flag FLASH_BANK_USER1) = {}"
proof -
  let ?w = "idle_device FLASH_BANK_USER1"
  let ?fw = "replicate FLASH_USER_SIZE (0 :: u8)"
  let ?run = "fu_realtek_mst_device_write_firmware zero_env (Inr ?fw) ?w"
  let ?ops = "proj flash_op_of (new_entries ?w (snd ?run))"
  let ?regs = "proj reg_write (new_entries ?w (snd ?run))"
  let ?cmds = "Erase CMD_OPCODE_ERASE_BLOCK 0x80000 #
     map (\<lambda>(a, chunk). Program (unat a) (length chunk)) (pages FLASH_USER2_ADDR ?fw) @
     [Erase CMD_OPCODE_ERASE_SECTOR 0xFF000, Program 0xFF304 5]"
  have ok: "fst ?run = Inr ()" by (rule zero_update)
  have ab: "active_bank ?w = FLASH_BANK_USER1" by (simp add: idle_device_def)
  have "?run = (fst ?run, snd ?run)" by simp
  note T = update_targets_inactive_bank [OF this, unfolded ab]
  have l: "?ops = [OpEraseBlock 0x80000, OpWrite 0x80000 0x70000, OpRead 0x80000 0x70000,
      OpEraseSector 0xFF000, OpWrite 0xFF304 5]"
    using T [THEN conjunct2, THEN conjunct1] T [THEN conjunct2, THEN conjunct2, THEN conjunct2, THEN conjunct1]
      ok by simp
  note S = T [THEN conjunct2, THEN conjunct2, THEN conjunct2, THEN conjunct2, THEN conjunct2,
              THEN conjunct1, rule_format, OF refl, THEN conjunct2, rule_format, OF ok]
  have r: "?regs = update_script FLASH_BANK_USER1 ?fw"
    by (rule S [THEN conjunct1])
  have t: "take 6 ?regs =
     [(REG_CMD_ADDR_HI, [0x08]), (REG_CMD_ADDR_MID, [0x00]), (REG_CMD_ADDR_LO, [0x00]),
      (REG_CMD_ATTR, [0xB8]), (REG_ERASE_OPCODE, [CMD_OPCODE_ERASE_BLOCK]), (REG_CMD_ATTR, [0xB9])]"
    unfolding r by (simp add: update_script_def erase_block_script_def target_base_def)
  have c: "flash_cmds (\<lambda>a. 0) ?regs = ?cmds"
    using S [THEN conjunct2, rule_format, of "\<lambda>a. 0"] update_cmds_user1 [of ?fw] by simp
  note D = T [THEN conjunct2, THEN conjunct2, THEN conjunct2, THEN conjunct2, THEN conjunct2,
              THEN conjunct2, THEN conjunct1, rule_format, of _ "\<lambda>a. 0", unfolded c]
  have d1: "cmd_modifies (Erase CMD_OPCODE_ERASE_BLOCK 0x80000) \<inter>
     (bank_image FLASH_BANK_USER1 \<union> bank_flag FLASH_BANK_USER1) = {}"
    by (rule D [THEN conjunct2]) simp
  have d2: "cmd_modifies (Erase CMD_OPCODE_ERASE_SECTOR 0xFF000) \<inter>
     (bank_image FLASH_BANK_USER1 \<union> bank_flag FLASH_BANK_USER1) = {}"
    by (rule D [THEN conjunct2]) simp
  have d3: "cmd_modifies (Program 0xFF304 5) \<inter>
     (bank_image FLASH_BANK_USER1 \<union> bank_flag FLASH_BANK_USER1) = {}"
    by (rule D [THEN conjunct2]) simp
  have m: "cmd_modifies (Erase CMD_OPCODE_ERASE_BLOCK 0x80000) = {0x80000 ..< 0x90000}"
    "cmd_modifies (Erase CMD_OPCODE_ERASE_SECTOR 0xFF000) = {0xFF000 ..< 0x100000}"
    by simp_all
  show ?thesis
    apply (intro conjI)
    subgoal by (rule ok)
    subgoal by (rule l)
    subgoal by (rule t)
    subgoal by (rule c)
    subgoal by (rule m(1))
    subgoal by (rule m(2))
    subgoal by (rule d1)
    subgoal by (rule d2)
    subgoal by (rule d3)
    done
qed

end
